(* ===== verification/Prelude.thy ===== *)
theory Prelude
  imports Main "HOL-Library.Word"
begin

text \<open>
  Shared vocabulary of the development: the Go base types the sources use (bytes, strings,
  UUIDs, instants, durations, 64-bit integers), the byte and text encodings of the standard
  library that reach a hash or a signature, the primitives whose code is not in the
  repository (SHA-256, Ed25519, the UUID package) as the fields of one parameter record, and
  the combinators in which every fallible function of the model is written, with the
  simplification rules that take a successful run apart.
\<close>

section \<open>Base types\<close>

type_synonym byte = "8 word"
type_synonym bytes = "8 word list"

text \<open>\<open>uuid.UUID\<close> is a 16-byte array, read here as one 128-bit word.\<close>

type_synonym uuid = "128 word"

text \<open>
  \<open>time.Time\<close> is an instant in UTC: nanoseconds since the zero time (1 January of the year 1),
  so that \<open>IsZero\<close> is equality with 0. \<open>time.Duration\<close> is a number of nanoseconds.
\<close>

type_synonym gotime = int
type_synonym duration = int

definition second :: duration where
  "second = 1000000000"

definition minute :: duration where
  "minute = 60 * second"

definition hour :: duration where
  "hour = 60 * minute"

text \<open>\<open>Time.IsZero\<close>, \<open>Time.Truncate(time.Second)\<close>, \<open>Time.Unix\<close> and \<open>Time.UnixNano\<close>.\<close>

definition isZero :: "gotime \<Rightarrow> bool" where
  "isZero t \<longleftrightarrow> t = 0"

definition truncSecond :: "gotime \<Rightarrow> gotime" where
  "truncSecond t = t - t mod second"

definition unixEpoch :: gotime where
  "unixEpoch = 62135596800 * second"

definition unixSec :: "gotime \<Rightarrow> int" where
  "unixSec t = t div second - 62135596800"

definition unixNano :: "gotime \<Rightarrow> int" where
  "unixNano t = t - unixEpoch"

text \<open>\<open>Time.Sub\<close> saturates.\<close>

definition timeSub :: "gotime \<Rightarrow> gotime \<Rightarrow> duration" where
  "timeSub t u = max (- (2 ^ 63)) (min (2 ^ 63 - 1) (t - u))"

lemmas time_defs = second_def minute_def hour_def unixEpoch_def

lemma truncSecond_le: "truncSecond t \<le> t"
  by (simp add: truncSecond_def second_def)

lemma truncSecond_idem [simp]: "truncSecond (truncSecond t) = truncSecond t"
  by (simp add: truncSecond_def second_def minus_mod_eq_mult_div)

text \<open>The range of Go's \<open>int64\<close> and of SQL's \<open>bigint\<close>.\<close>

definition inInt64 :: "int \<Rightarrow> bool" where
  "inInt64 x \<longleftrightarrow> - (2 ^ 63) \<le> x \<and> x < 2 ^ 63"

text \<open>What an \<open>int64\<close> expression holds after an overflow: the value modulo 2^64, signed.\<close>

definition wrap64 :: "int \<Rightarrow> int" where
  "wrap64 x = (x + 2 ^ 63) mod 2 ^ 64 - 2 ^ 63"

lemma wrap64_id [simp]: "inInt64 x \<Longrightarrow> wrap64 x = x"
  by (simp add: wrap64_def inInt64_def)

lemma inInt64_wrap64 [simp]: "inInt64 (wrap64 x)"
proof -
  have "0 \<le> (x + 2 ^ 63) mod 2 ^ 64" "(x + 2 ^ 63) mod 2 ^ 64 < (2 ^ 64 :: int)"
    by simp_all
  then show ?thesis unfolding wrap64_def inInt64_def by simp
qed

text \<open>The same for Go's \<open>int32\<close>; adding to a wrapped counter and wrapping again is adding to what it counts.\<close>

definition wrap32 :: "int \<Rightarrow> int" where
  "wrap32 x = (x + 2 ^ 31) mod 2 ^ 32 - 2 ^ 31"

lemma wrap32_id [simp]: "- (2 ^ 31) \<le> x \<Longrightarrow> x < 2 ^ 31 \<Longrightarrow> wrap32 x = x"
  by (simp add: wrap32_def)

lemma wrap32_add [simp]: "wrap32 (wrap32 x + y) = wrap32 (x + y)"
  using mod_add_left_eq [of "x + 2 ^ 31" "2 ^ 32" y] by (simp add: wrap32_def algebra_simps)

lemma wrap32_diff [simp]: "wrap32 (wrap32 x - y) = wrap32 (x - y)"
  using wrap32_add [of x "- y"] by simp


section \<open>Big-endian byte strings\<close>

text \<open>\<open>be_bytes n x\<close>: the low \<open>n\<close> bytes of \<open>x\<close>, most significant first.\<close>

fun be_bytes :: "nat \<Rightarrow> int \<Rightarrow> bytes" where
  "be_bytes 0 x = []"
| "be_bytes (Suc n) x = word_of_int (x div 256 ^ n) # be_bytes n x"

fun be_val :: "bytes \<Rightarrow> int" where
  "be_val [] = 0"
| "be_val (b # bs) = uint b * 256 ^ length bs + be_val bs"

lemma length_be_bytes [simp]: "length (be_bytes n x) = n"
  by (induction n) auto

lemma be_val_be_bytes: "be_val (be_bytes n x) = x mod 256 ^ n"
proof (induction n)
  case 0
  then show ?case by simp
next
  case (Suc n)
  have "uint (word_of_int (x div 256 ^ n) :: 8 word) = (x div 256 ^ n) mod 256"
    by (simp add: uint_word_of_int)
  moreover have "x mod (256 ^ n * 256) = 256 ^ n * (x div 256 ^ n mod 256) + x mod 256 ^ n"
    by (rule zmod_zmult2_eq) simp
  ultimately show ?case using Suc by (simp add: algebra_simps)
qed

lemma be_val_nonneg: "0 \<le> be_val bs"
  by (induction bs) auto

lemma be_val_bound: "be_val bs < 256 ^ length bs"
proof (induction bs)
  case Nil
  then show ?case by simp
next
  case (Cons b bs)
  have "uint b \<le> 255" using uint_lt2p [of b] by simp
  then have "uint b * 256 ^ length bs \<le> 255 * 256 ^ length bs"
    by (rule mult_right_mono) simp
  moreover have "(256 :: int) ^ length (b # bs) = 255 * 256 ^ length bs + 256 ^ length bs" by simp
  ultimately show ?case using Cons unfolding be_val.simps by linarith
qed

lemma be_val_append: "be_val (xs @ ys) = be_val xs * 256 ^ length ys + be_val ys"
  by (induction xs) (auto simp: algebra_simps power_add)

lemma be_val_inj: "length xs = length ys \<Longrightarrow> be_val xs = be_val ys \<Longrightarrow> xs = ys"
proof (induction xs ys rule: list_induct2)
  case Nil
  then show ?case by simp
next
  case (Cons x xs y ys)
  have eq: "uint x * 256 ^ length xs + be_val xs = uint y * 256 ^ length xs + be_val ys"
    using Cons.prems Cons.hyps by simp
  have bx: "0 \<le> be_val xs" "be_val xs < 256 ^ length xs" by (rule be_val_nonneg, rule be_val_bound)
  have bY: "0 \<le> be_val ys" "be_val ys < 256 ^ length xs"
    using be_val_nonneg [of ys] be_val_bound [of ys] Cons.hyps by simp_all
  have "(be_val xs + uint x * 256 ^ length xs) div 256 ^ length xs
      = (be_val ys + uint y * 256 ^ length xs) div 256 ^ length xs"
    using eq by (simp add: add.commute)
  with bx bY have "uint x = uint y" by simp
  then have "x = y" by (rule word_eq_iff_unsigned [THEN iffD2])
  with eq have "be_val xs = be_val ys" by simp
  with Cons.IH \<open>x = y\<close> show ?case by simp
qed

lemma be_bytes_inj:
  assumes "be_bytes n x = be_bytes n y" and "0 \<le> x" "x < 256 ^ n" "0 \<le> y" "y < 256 ^ n"
  shows "x = y"
proof -
  have "be_val (be_bytes n x) = be_val (be_bytes n y)" using assms(1) by simp
  with assms(2-5) show ?thesis by (simp add: be_val_be_bytes)
qed

text \<open>\<open>uuid[:]\<close>, the 16 bytes of a UUID.\<close>

definition uuid_bytes :: "uuid \<Rightarrow> bytes" where
  "uuid_bytes u = be_bytes 16 (uint u)"

lemma length_uuid_bytes [simp]: "length (uuid_bytes u) = 16"
  by (simp add: uuid_bytes_def)

lemma uuid_bytes_inj [simp]: "uuid_bytes u = uuid_bytes v \<longleftrightarrow> u = v"
proof
  assume "uuid_bytes u = uuid_bytes v"
  then have "uint u = uint v"
    unfolding uuid_bytes_def
    by (rule be_bytes_inj) (use uint_lt2p [of u] uint_lt2p [of v] in simp_all)
  then show "u = v" by (rule word_eq_iff_unsigned [THEN iffD2])
qed simp

lemma be_val_uuid_bytes [simp]: "be_val (uuid_bytes u) = uint u"
  using uint_lt2p [of u] by (simp add: uuid_bytes_def be_val_be_bytes)


section \<open>Text\<close>

text \<open>\<open>[]byte(s)\<close>: a Go string is its bytes.\<close>

definition str_bytes :: "string \<Rightarrow> bytes" where
  "str_bytes s = map of_char s"

lemma str_bytes_append [simp]: "str_bytes (s @ t) = str_bytes s @ str_bytes t"
  by (simp add: str_bytes_def)

lemma str_bytes_Nil [simp]: "str_bytes [] = []"
  by (simp add: str_bytes_def)

lemma length_str_bytes [simp]: "length (str_bytes s) = length s"
  by (simp add: str_bytes_def)

text \<open>\<open>fmt.Sprintf("%d", n)\<close>.\<close>

definition digit_char :: "nat \<Rightarrow> char" where
  "digit_char n = char_of (48 + n)"

fun show_nat :: "nat \<Rightarrow> string" where
  "show_nat n = (if n < 10 then [digit_char n] else show_nat (n div 10) @ [digit_char (n mod 10)])"

declare show_nat.simps [simp del]

definition show_int :: "int \<Rightarrow> string" where
  "show_int i = (if i < 0 then CHR ''-'' # show_nat (nat (- i)) else show_nat (nat i))"

text \<open>\<open>fmt.Sprintf("%x", b)\<close>: two lower-case hexadecimal digits per byte.\<close>

definition hex_char :: "nat \<Rightarrow> char" where
  "hex_char n = ''0123456789abcdef'' ! n"

definition hex_byte :: "byte \<Rightarrow> string" where
  "hex_byte b = [hex_char (unat b div 16), hex_char (unat b mod 16)]"

definition hex_bytes :: "bytes \<Rightarrow> string" where
  "hex_bytes bs = concat (map hex_byte bs)"

lemma length_hex_bytes [simp]: "length (hex_bytes bs) = 2 * length bs"
  by (induction bs) (auto simp: hex_bytes_def hex_byte_def)


section \<open>Primitives that are not code of the repository\<close>

text \<open>
  SHA-256 and Ed25519 of the Go standard library and \<open>github.com/google/uuid\<close>. Every
  definition that uses one of them takes the record as its first argument; what a theorem
  needs of them is a hypothesis about the record, named below.
\<close>

record prims =
  sha256 :: "bytes \<Rightarrow> bytes"
  ed25519_Sign :: "bytes \<Rightarrow> bytes \<Rightarrow> bytes"
  ed25519_Verify :: "bytes \<Rightarrow> bytes \<Rightarrow> bytes \<Rightarrow> bool"
  uuid_String :: "uuid \<Rightarrow> string"
  uuid_Parse :: "string \<Rightarrow> uuid option"

text \<open>A key pair: what the private key signs, the public key verifies.\<close>

definition key_pair :: "prims \<Rightarrow> bytes \<Rightarrow> bytes \<Rightarrow> bool" where
  "key_pair P pub priv \<longleftrightarrow> (\<forall>m. ed25519_Verify P pub m (ed25519_Sign P priv m))"

text \<open>Parsing a UUID's text form gives the UUID back.\<close>

definition uuid_text_ok :: "prims \<Rightarrow> bool" where
  "uuid_text_ok P \<longleftrightarrow> (\<forall>u. uuid_Parse P (uuid_String P u) = Some u)"

lemma uuid_String_inj: "uuid_text_ok P \<Longrightarrow> uuid_String P u = uuid_String P v \<longleftrightarrow> u = v"
  by (metis option.inject uuid_text_ok_def)


text \<open>
  A concrete instance, with which hypotheses about the primitives are shown to be satisfiable:
  the hash is the identity, a key signs by prefixing itself, and the text of a UUID is its bytes.
\<close>

definition byte_char :: "byte \<Rightarrow> char" where
  "byte_char b = char_of (uint b)"

definition char_byte :: "char \<Rightarrow> byte" where
  "char_byte c = word_of_int (of_char c)"

lemma char_byte_byte_char [simp]: "char_byte (byte_char b) = b"
  using uint_lt2p [of b] by (simp add: byte_char_def char_byte_def)

definition demo_prims :: prims where
  "demo_prims =
     \<lparr>sha256 = (\<lambda>m. m),
      ed25519_Sign = (\<lambda>k m. k @ m),
      ed25519_Verify = (\<lambda>k m s. s = k @ m),
      uuid_String = (\<lambda>u. map byte_char (uuid_bytes u)),
      uuid_Parse = (\<lambda>s. Some (word_of_int (be_val (map char_byte s))))\<rparr>"

lemma demo_prims_sel [simp]:
  "sha256 demo_prims m = m"
  "ed25519_Sign demo_prims k m = k @ m"
  "ed25519_Verify demo_prims k m s \<longleftrightarrow> s = k @ m"
  "uuid_String demo_prims u = map byte_char (uuid_bytes u)"
  "uuid_Parse demo_prims t = Some (word_of_int (be_val (map char_byte t)))"
  by (simp_all add: demo_prims_def)

lemma demo_key_pair [simp]: "key_pair demo_prims k k"
  by (simp add: key_pair_def)

lemma demo_uuid_text_ok [simp]: "uuid_text_ok demo_prims"
  by (simp add: uuid_text_ok_def comp_def)


section \<open>AES-GCM\<close>

text \<open>Go's \<open>crypto/aes\<close> and \<open>crypto/cipher\<close>: sealing and opening under a key and a nonce, without associated data.\<close>

record aead =
  gcm_Seal :: "bytes \<Rightarrow> bytes \<Rightarrow> bytes \<Rightarrow> bytes"
  gcm_Open :: "bytes \<Rightarrow> bytes \<Rightarrow> bytes \<Rightarrow> bytes option"

definition nonceSize :: nat where
  "nonceSize = 12"

definition aesKeyOK :: "bytes \<Rightarrow> bool" where
  "aesKeyOK key \<longleftrightarrow> length key = 16 \<or> length key = 24 \<or> length key = 32"

text \<open>
  AES-GCM: opening what was sealed with the same key and nonce gives the plaintext back; a ciphertext
  is 16 bytes longer than its plaintext.
\<close>

definition aead_opens :: "aead \<Rightarrow> bool" where
  "aead_opens A \<longleftrightarrow> (\<forall>k n p. gcm_Open A k n (gcm_Seal A k n p) = Some p)"

definition aead_expands :: "aead \<Rightarrow> bool" where
  "aead_expands A \<longleftrightarrow>
     (\<forall>k n p. length (gcm_Seal A k n p) = length p + 16) \<and>
     (\<forall>k n c p. gcm_Open A k n c = Some p \<longrightarrow> length c = length p + 16)"

text \<open>An instance: the tag is the length of the plaintext.\<close>

definition demo_aead :: aead where
  "demo_aead =
     \<lparr>gcm_Seal = (\<lambda>k n p. p @ replicate 15 0 @ [of_nat (length p)]),
      gcm_Open = (\<lambda>k n c. if 16 \<le> length c \<and> drop (length c - 16) c = replicate 15 0 @ [of_nat (length c - 16)]
                          then Some (take (length c - 16) c) else None)\<rparr>"

lemma demo_aead_opens [simp]: "aead_opens demo_aead"
  by (simp add: aead_opens_def demo_aead_def)

lemma demo_aead_expands [simp]: "aead_expands demo_aead"
  by (auto simp: aead_expands_def demo_aead_def split: if_splits)


section \<open>Association lists\<close>

text \<open>Filtering the values of a list without duplicate keys filters what a lookup finds.\<close>

lemma map_of_filter_values:
  "distinct (map fst xs) \<Longrightarrow>
     map_of (filter (\<lambda>(k, v). Q v) xs) key =
       (case map_of xs key of None \<Rightarrow> None | Some v \<Rightarrow> if Q v then Some v else None)"
  by (induction xs) (auto simp: map_of_eq_None_iff image_iff split: option.splits)

lemma distinct_fst_filter: "distinct (map fst xs) \<Longrightarrow> distinct (map fst (filter Q xs))"
  by (rule distinct_map_filter)


section \<open>Sorting by a key\<close>

lemma insort_key_map: "(\<And>x. f (g x) = f x) \<Longrightarrow> insort_key f (g a) (map g xs) = map g (insort_key f a xs)"
  by (induction xs) auto

lemma sort_key_map: "(\<And>x. f (g x) = f x) \<Longrightarrow> sort_key f (map g xs) = map g (sort_key f xs)"
  by (induction xs) (auto simp: insort_key_map)

lemma sort_key_upto: "map f xs = [a..b] \<Longrightarrow> sort_key f xs = xs"
  by (rule sort_key_id_if_sorted) simp


section \<open>Fallible computations\<close>

text \<open>
  \<open>attempt m w k\<close> is Go's \<open>x, err := m; if err != nil { return w(err) }\<close> followed by \<open>k\<close>;
  \<open>need\<close> does the same for a lookup that may find nothing; \<open>reject c e k\<close> is
  \<open>if c { return e }\<close>. The \<open>Inr\<close> rules turn a hypothesis that a chain of them succeeded into
  the facts each step established, which is how the component proofs start.
\<close>

definition attempt :: "'e + 'a \<Rightarrow> ('e \<Rightarrow> 'f) \<Rightarrow> ('a \<Rightarrow> 'f + 'b) \<Rightarrow> 'f + 'b" where
  "attempt m w k = (case m of Inl e \<Rightarrow> Inl (w e) | Inr x \<Rightarrow> k x)"

definition need :: "'a option \<Rightarrow> 'f \<Rightarrow> ('a \<Rightarrow> 'f + 'b) \<Rightarrow> 'f + 'b" where
  "need m e k = (case m of None \<Rightarrow> Inl e | Some x \<Rightarrow> k x)"

definition reject :: "bool \<Rightarrow> 'f \<Rightarrow> 'f + 'b \<Rightarrow> 'f + 'b" where
  "reject c e k = (if c then Inl e else k)"

lemma attempt_simps [simp]:
  "attempt (Inl e) w k = Inl (w e)"
  "attempt (Inr x) w k = k x"
  by (simp_all add: attempt_def)

lemma need_simps [simp]:
  "need None e k = Inl e"
  "need (Some x) e k = k x"
  by (simp_all add: need_def)

lemma reject_simps [simp]:
  "reject True e k = Inl e"
  "reject False e k = k"
  by (simp_all add: reject_def)

lemma attempt_Inr [simp]: "attempt m w k = Inr y \<longleftrightarrow> (\<exists>x. m = Inr x \<and> k x = Inr y)"
  by (cases m) auto

lemma need_Inr [simp]: "need m e k = Inr y \<longleftrightarrow> (\<exists>x. m = Some x \<and> k x = Inr y)"
  by (cases m) auto

lemma reject_Inr [simp]: "reject c e k = Inr y \<longleftrightarrow> \<not> c \<and> k = Inr y"
  by (cases c) auto

lemma Inr_chain [simp]:
  "Inr y = attempt m w k \<longleftrightarrow> (\<exists>x. m = Inr x \<and> k x = Inr y)"
  "Inr z = need q e h \<longleftrightarrow> (\<exists>x. q = Some x \<and> h x = Inr z)"
  "Inr u = reject c f j \<longleftrightarrow> \<not> c \<and> j = Inr u"
  by (subst eq_commute; simp)+

lemma attempt_cong [cong]: "m = m' \<Longrightarrow> attempt m w k = attempt m' w k"
  by simp

lemma need_cong [cong]: "m = m' \<Longrightarrow> need m e k = need m' e k"
  by simp

lemma reject_cong [cong]: "c = c' \<Longrightarrow> reject c e k = reject c' e k"
  by simp

end
