(* ===== verification/Identity.thy ===== *)
theory Identity
  imports Prelude
begin

text \<open>
  The frozen vocabulary of \<open>contracts/identity.go\<close>: principals, resources, key purposes,
  scopes and their bindings, the decision lattice and the approval states. Go's string
  enumerations are open (any string can arrive in a decoded envelope or a policy document),
  so they are kept as strings with the source's constants; the approval states, which a
  column constraint closes, are a datatype.
\<close>

section \<open>Principals\<close>

type_synonym TenantID = uuid
type_synonym PrincipalKind = string
type_synonym NodeState = string

abbreviation PrincipalKindHuman :: PrincipalKind where "PrincipalKindHuman \<equiv> ''HUMAN''"
abbreviation PrincipalKindTagged :: PrincipalKind where "PrincipalKindTagged \<equiv> ''TAGGED''"
abbreviation PrincipalKindService :: PrincipalKind where "PrincipalKindService \<equiv> ''SERVICE''"
abbreviation PrincipalKindSubnetRouter :: PrincipalKind where "PrincipalKindSubnetRouter \<equiv> ''SUBNET_ROUTER''"
abbreviation PrincipalKindAppConnector :: PrincipalKind where "PrincipalKindAppConnector \<equiv> ''APP_CONNECTOR''"
abbreviation PrincipalKindUnknown :: PrincipalKind where "PrincipalKindUnknown \<equiv> ''UNKNOWN''"

abbreviation NodeStateOK :: NodeState where "NodeStateOK \<equiv> ''OK''"
abbreviation NodeStateExpired :: NodeState where "NodeStateExpired \<equiv> ''EXPIRED''"
abbreviation NodeStateDeleted :: NodeState where "NodeStateDeleted \<equiv> ''DELETED''"
abbreviation NodeStateKeyChanged :: NodeState where "NodeStateKeyChanged \<equiv> ''KEY_CHANGED''"

record OIDCIdentity =
  oid_Issuer :: string
  oid_Subject :: string
  oid_UserID :: string

record Principal =
  pr_TenantID :: TenantID
  pr_TailnetID :: string
  pr_SrcNodeID :: string
  pr_SrcNodeKeyEpoch :: int
  pr_Kind :: PrincipalKind
  pr_User :: "OIDCIdentity option"
  pr_NodeState :: NodeState
  pr_PostureVersion :: string

definition IsHuman :: "Principal \<Rightarrow> bool" where
  "IsHuman p \<longleftrightarrow>
     pr_Kind p = PrincipalKindHuman \<and>
     (case pr_User p of None \<Rightarrow> False | Some u \<Rightarrow> oid_Subject u \<noteq> []) \<and>
     pr_NodeState p = NodeStateOK"


section \<open>Resources\<close>

type_synonym Transport = string
type_synonym DeploymentMode = string

abbreviation TransportTCP :: Transport where "TransportTCP \<equiv> ''TCP''"

abbreviation ModeHTTPProxy :: DeploymentMode where "ModeHTTPProxy \<equiv> ''HTTP_PROXY''"
abbreviation ModeOpaqueTCP :: DeploymentMode where "ModeOpaqueTCP \<equiv> ''OPAQUE_TCP''"
abbreviation ModeTSSSH :: DeploymentMode where "ModeTSSSH \<equiv> ''TS_SSH''"
abbreviation ModeOpenSSH :: DeploymentMode where "ModeOpenSSH \<equiv> ''OPENSSH''"

record ResourceID =
  res_TenantID :: TenantID
  res_ProtectedNodeID :: string
  res_ServiceID :: string
  res_Port :: int
  res_Transport :: Transport
  res_DeploymentMode :: DeploymentMode

record DisplayLabel =
  dl_Name :: string
  dl_SourceHint :: string


section \<open>Keys\<close>

type_synonym KeyPurpose = string

abbreviation KeyPurposeDeviceAuth :: KeyPurpose where "KeyPurposeDeviceAuth \<equiv> ''device_auth''"
abbreviation KeyPurposeApprovalAuth :: KeyPurpose where "KeyPurposeApprovalAuth \<equiv> ''approval_auth''"
abbreviation KeyPurposeRequestSig :: KeyPurpose where "KeyPurposeRequestSig \<equiv> ''request_sig''"
abbreviation KeyPurposeGrantSig :: KeyPurpose where "KeyPurposeGrantSig \<equiv> ''grant_sig''"
abbreviation KeyPurposePolicySig :: KeyPurpose where "KeyPurposePolicySig \<equiv> ''policy_sig''"
abbreviation KeyPurposeAuditCheckpoint :: KeyPurpose where "KeyPurposeAuditCheckpoint \<equiv> ''audit_checkpoint_sig''"


section \<open>Scopes and bindings\<close>

type_synonym Scope = string

abbreviation ScopeRequest :: Scope where "ScopeRequest \<equiv> ''REQUEST''"
abbreviation ScopeConnection :: Scope where "ScopeConnection \<equiv> ''CONNECTION''"
abbreviation ScopeDuration :: Scope where "ScopeDuration \<equiv> ''DURATION''"
abbreviation ScopeSession :: Scope where "ScopeSession \<equiv> ''SESSION''"

record HTTPRequestBinding =
  hb_ProtectedNodeID :: string
  hb_SrcNodeID :: string
  hb_Method :: string
  hb_NormalizedAuthority :: string
  hb_PathPolicyID :: string
  hb_HTTPVersion :: string
  hb_RequestNonce :: bytes

record ConnectionBinding =
  cb_ConnectionID :: bytes

record SessionBinding =
  sb_SessionID :: bytes

record ScopeBinding =
  bnd_HTTPRequest :: "HTTPRequestBinding option"
  bnd_Connection :: "ConnectionBinding option"
  bnd_Session :: "SessionBinding option"

text \<open>The zero value of the struct: no binding at all.\<close>

definition emptyBinding :: ScopeBinding where
  "emptyBinding = \<lparr>bnd_HTTPRequest = None, bnd_Connection = None, bnd_Session = None\<rparr>"


section \<open>Decisions, sensitivity, approval states\<close>

type_synonym EnforcementDecision = string

abbreviation DecisionNotProtected :: EnforcementDecision where "DecisionNotProtected \<equiv> ''NOT_PROTECTED''"
abbreviation DecisionAllowWithoutStepUp :: EnforcementDecision where
  "DecisionAllowWithoutStepUp \<equiv> ''ALLOW_WITHOUT_STEP_UP''"
abbreviation DecisionRequireStepUp :: EnforcementDecision where "DecisionRequireStepUp \<equiv> ''REQUIRE_STEP_UP''"
abbreviation DecisionEnforceDeny :: EnforcementDecision where "DecisionEnforceDeny \<equiv> ''DENY''"

type_synonym SecurityLevel = string

abbreviation SecurityLevelStrongBox :: SecurityLevel where "SecurityLevelStrongBox \<equiv> ''STRONGBOX''"
abbreviation SecurityLevelTEE :: SecurityLevel where "SecurityLevelTEE \<equiv> ''TEE''"

type_synonym Sensitivity = string

abbreviation SensitivityStandard :: Sensitivity where "SensitivityStandard \<equiv> ''STANDARD''"
abbreviation SensitivityHigh :: Sensitivity where "SensitivityHigh \<equiv> ''HIGH''"
abbreviation SensitivityAdmin :: Sensitivity where "SensitivityAdmin \<equiv> ''ADMIN''"

datatype ApprovalState =
    ApprovalStatePending
  | ApprovalStateApproved
  | ApprovalStateGranted
  | ApprovalStateDenied
  | ApprovalStateExpired
  | ApprovalStateCancelled

fun IsTerminal :: "ApprovalState \<Rightarrow> bool" where
  "IsTerminal ApprovalStateDenied = True"
| "IsTerminal ApprovalStateExpired = True"
| "IsTerminal ApprovalStateCancelled = True"
| "IsTerminal _ = False"

type_synonym Decision = string

abbreviation DecisionApprove :: Decision where "DecisionApprove \<equiv> ''APPROVE''"
abbreviation DecisionDeny :: Decision where "DecisionDeny \<equiv> ''DENY''"


section \<open>Fresh identifiers\<close>

text \<open>
  \<open>NewNonce\<close> reads \<open>size\<close> bytes from the operating system's random source, which is an
  argument: what it returns for a request of that many bytes, or that it failed.
\<close>

datatype rand_error = RandReadFailed

definition NewNonce :: "(nat \<Rightarrow> bytes option) \<Rightarrow> nat \<Rightarrow> rand_error + bytes" where
  "NewNonce rand n = need (rand n) RandReadFailed Inr"

end
