(* ===== verification/Cose.thy ===== *)
theory Cose
  imports Identity
begin

text \<open>
  \<open>contracts/cose/cose.go\<close>: COSE\_Sign1 messages with Ed25519 over deterministic CBOR, and the
  low-S check for DER-encoded ECDSA signatures. The CBOR library is not code of the
  repository: its marshalling functions, one per Go type that reaches it, are fields of the
  parameter record \<open>cose_codec\<close>, together with whether the encoder and decoder modes could be
  built (\<open>encModeErr\<close>, \<open>decModeErr\<close>).
\<close>

section \<open>Data\<close>

abbreviation AlgorithmEdDSA :: int where "AlgorithmEdDSA \<equiv> - 8"

record Headers =
  hd_Algorithm :: int
  hd_KeyID :: string
  hd_Type :: string

text \<open>An unprotected header value is any CBOR item; it is kept as its encoding and never read.\<close>

record Sign1Message =
  msg_Protected :: Headers
  msg_Unprotected :: "(int \<times> bytes) list"
  msg_Payload :: bytes
  msg_Signature :: bytes

record sigStructure =
  sig_Context :: string
  sig_Protected :: bytes
  sig_ExternalAAD :: bytes
  sig_Payload :: bytes

record cose_codec =
  encModeOK :: bool
  decModeOK :: bool
  marshal_Headers :: "Headers \<Rightarrow> bytes option"
  marshal_sigStructure :: "sigStructure \<Rightarrow> bytes option"
  marshal_Sign1 :: "Sign1Message \<Rightarrow> bytes option"
  unmarshal_Sign1 :: "bytes \<Rightarrow> Sign1Message option"

datatype cose_error =
    EncoderInit
  | DecoderInit
  | MarshalFailed
  | UnmarshalFailed
  | MarshalProtected
  | MarshalSigStructure
  | MarshalProtectedForVerification
  | MarshalSigStructureForVerify
  | UnsupportedAlgorithm int
  | SignatureVerificationFailed
  | DeserializeFailed cose_error
  | MissingAlgorithm


section \<open>Canonical encoding\<close>

definition EncodeCanonical :: "bool \<Rightarrow> ('v \<Rightarrow> bytes option) \<Rightarrow> 'v \<Rightarrow> cose_error + bytes" where
  "EncodeCanonical modeOK marshal v =
     reject (\<not> modeOK) EncoderInit (need (marshal v) MarshalFailed Inr)"

definition DecodeCanonical :: "bool \<Rightarrow> (bytes \<Rightarrow> 'v option) \<Rightarrow> bytes \<Rightarrow> cose_error + 'v" where
  "DecodeCanonical modeOK unmarshal data =
     reject (\<not> modeOK) DecoderInit (need (unmarshal data) UnmarshalFailed Inr)"


section \<open>Signing and verification\<close>

definition mkHeaders :: "string \<Rightarrow> string \<Rightarrow> Headers" where
  "mkHeaders kid typ = \<lparr>hd_Algorithm = AlgorithmEdDSA, hd_KeyID = kid, hd_Type = typ\<rparr>"

definition mkSigStructure :: "bytes \<Rightarrow> bytes \<Rightarrow> bytes \<Rightarrow> sigStructure" where
  "mkSigStructure protectedBytes aad payload =
     \<lparr>sig_Context = ''Signature1'', sig_Protected = protectedBytes,
      sig_ExternalAAD = aad, sig_Payload = payload\<rparr>"

text \<open>A nil \<open>externalAAD\<close> becomes the empty slice; both are the empty list here.\<close>

definition Sign1 ::
  "prims \<Rightarrow> cose_codec \<Rightarrow> bytes \<Rightarrow> string \<Rightarrow> string \<Rightarrow> bytes \<Rightarrow> bytes \<Rightarrow> cose_error + Sign1Message" where
  "Sign1 P C signer kid typ payload externalAAD =
     reject (\<not> encModeOK C) EncoderInit (
     let headers = mkHeaders kid typ in
     need (marshal_Headers C headers) MarshalProtected (\<lambda>protectedBytes.
     need (marshal_sigStructure C (mkSigStructure protectedBytes externalAAD payload)) MarshalSigStructure
       (\<lambda>sigStructBytes.
     Inr \<lparr>msg_Protected = headers, msg_Unprotected = [], msg_Payload = payload,
          msg_Signature = ed25519_Sign P signer sigStructBytes\<rparr>)))"

definition BuildSigStructure ::
  "cose_codec \<Rightarrow> string \<Rightarrow> string \<Rightarrow> bytes \<Rightarrow> bytes \<Rightarrow> cose_error + bytes \<times> bytes \<times> Headers" where
  "BuildSigStructure C kid typ payload externalAAD =
     reject (\<not> encModeOK C) EncoderInit (
     let h = mkHeaders kid typ in
     need (marshal_Headers C h) MarshalProtected (\<lambda>protectedBytes.
     need (marshal_sigStructure C (mkSigStructure protectedBytes externalAAD payload)) MarshalSigStructure
       (\<lambda>sigStructureBytes.
     Inr (sigStructureBytes, protectedBytes, h))))"

definition Sign1WithSignature ::
  "cose_codec \<Rightarrow> string \<Rightarrow> string \<Rightarrow> bytes \<Rightarrow> bytes \<Rightarrow> bytes \<Rightarrow> cose_error + Sign1Message" where
  "Sign1WithSignature C kid typ payload externalAAD signature =
     reject (\<not> encModeOK C) EncoderInit (
     Inr \<lparr>msg_Protected = mkHeaders kid typ, msg_Unprotected = [], msg_Payload = payload,
          msg_Signature = signature\<rparr>)"

definition Verify1 :: "prims \<Rightarrow> cose_codec \<Rightarrow> Sign1Message \<Rightarrow> bytes \<Rightarrow> cose_error + bytes \<times> Headers" where
  "Verify1 P C msg pubKey =
     reject (hd_Algorithm (msg_Protected msg) \<noteq> AlgorithmEdDSA)
       (UnsupportedAlgorithm (hd_Algorithm (msg_Protected msg))) (
     reject (\<not> encModeOK C) EncoderInit (
     need (marshal_Headers C (msg_Protected msg)) MarshalProtectedForVerification (\<lambda>protectedBytes.
     need (marshal_sigStructure C (mkSigStructure protectedBytes [] (msg_Payload msg)))
       MarshalSigStructureForVerify (\<lambda>sigStructBytes.
     reject (\<not> ed25519_Verify P pubKey sigStructBytes (msg_Signature msg)) SignatureVerificationFailed (
     Inr (msg_Payload msg, msg_Protected msg))))))"

definition SerializeSign1 :: "cose_codec \<Rightarrow> Sign1Message \<Rightarrow> cose_error + bytes" where
  "SerializeSign1 C msg = EncodeCanonical (encModeOK C) (marshal_Sign1 C) msg"

definition DeserializeSign1 :: "cose_codec \<Rightarrow> bytes \<Rightarrow> cose_error + Sign1Message" where
  "DeserializeSign1 C data =
     attempt (DecodeCanonical (decModeOK C) (unmarshal_Sign1 C) data) DeserializeFailed (\<lambda>msg.
     if hd_Algorithm (msg_Protected msg) = 0 \<and> hd_KeyID (msg_Protected msg) = [] then Inr msg
     else reject (hd_Algorithm (msg_Protected msg) = 0) MissingAlgorithm (Inr msg))"


section \<open>Low-S check\<close>

definition normalizeBytes :: "bytes \<Rightarrow> nat \<Rightarrow> bytes" where
  "normalizeBytes b targetLen =
     (if targetLen \<le> length b then drop (length b - targetLen) b
      else replicate (targetLen - length b) 0 @ b)"

definition nHalf :: bytes where
  "nHalf =
    [0x7F, 0xFF, 0xFF, 0xFF, 0xFF, 0xFF, 0xFF, 0xFF,
     0xFF, 0xFF, 0xFF, 0xFF, 0xFF, 0xFF, 0xFF, 0xFF,
     0x5D, 0x57, 0x6E, 0x73, 0x57, 0xA4, 0x50, 0x1D,
     0xDF, 0xE9, 0x2F, 0x46, 0x68, 0x1B, 0x20, 0xA0]"

text \<open>The comparison loop of \<open>IsLowS\<close>, byte by byte; equal values count as low.\<close>

fun bytes_le :: "bytes \<Rightarrow> bytes \<Rightarrow> bool" where
  "bytes_le (x # xs) (y # ys) = (if x < y then True else if x > y then False else bytes_le xs ys)"
| "bytes_le _ _ = True"

definition IsLowS :: "bytes \<Rightarrow> bool" where
  "IsLowS sig =
    (if length sig < 2 then False
     else
       let pos0 = 2;
           pos1 = (if pos0 < length sig \<and> sig ! pos0 = 2
                   then if pos0 + 1 < length sig then pos0 + 1 + (1 + unat (sig ! (pos0 + 1))) else pos0 + 1
                   else pos0);
           (sLen, pos2) = (if pos1 < length sig \<and> sig ! pos1 = 2
                   then if pos1 + 1 < length sig then (unat (sig ! (pos1 + 1)), pos1 + 1 + 1) else (0, pos1 + 1)
                   else (0, pos1))
       in if sLen = 0 \<or> length sig < pos2 + sLen then False
          else bytes_le (normalizeBytes (take sLen (drop pos2 sig)) 32) nHalf)"


section \<open>Signatures verify, and only as what they were made for\<close>

lemmas cose_defs = Sign1_def BuildSigStructure_def Sign1WithSignature_def Verify1_def
  SerializeSign1_def DeserializeSign1_def EncodeCanonical_def DecodeCanonical_def

lemma mkHeaders_sel [simp]:
  "hd_Algorithm (mkHeaders kid typ) = AlgorithmEdDSA"
  "hd_KeyID (mkHeaders kid typ) = kid"
  "hd_Type (mkHeaders kid typ) = typ"
  by (simp_all add: mkHeaders_def)

lemma Sign1_fields:
  assumes "Sign1 P C signer kid typ payload aad = Inr m"
  shows "msg_Protected m = mkHeaders kid typ" and "msg_Payload m = payload"
  using assms by (auto simp: Sign1_def Let_def)

lemma Sign1_Verify1:
  assumes "Sign1 P C signer kid typ payload [] = Inr m" and "key_pair P pub signer"
  shows "Verify1 P C m pub = Inr (payload, mkHeaders kid typ)"
  using assms by (auto simp: Sign1_def Verify1_def Let_def key_pair_def)

lemma Verify1_fields:
  "Verify1 P C m pub = Inr (p, h) \<Longrightarrow> p = msg_Payload m \<and> h = msg_Protected m"
  by (auto simp: Verify1_def)

text \<open>What an accepted message is: the signature covers the payload and the protected headers.\<close>

definition signed_under :: "prims \<Rightarrow> cose_codec \<Rightarrow> bytes \<Rightarrow> Sign1Message \<Rightarrow> bool" where
  "signed_under P C pub m \<longleftrightarrow>
     (\<exists>pb sb. marshal_Headers C (msg_Protected m) = Some pb \<and>
        marshal_sigStructure C (mkSigStructure pb [] (msg_Payload m)) = Some sb \<and>
        ed25519_Verify P pub sb (msg_Signature m))"

lemma Verify1_accepts:
  "Verify1 P C m pub = Inr (p, h) \<longleftrightarrow>
     hd_Algorithm (msg_Protected m) = AlgorithmEdDSA \<and> encModeOK C \<and> signed_under P C pub m \<and>
     p = msg_Payload m \<and> h = msg_Protected m"
  by (auto simp: Verify1_def signed_under_def)

lemma Deserialize_accepts:
  "DeserializeSign1 C raw = Inr m \<longleftrightarrow>
     decModeOK C \<and> unmarshal_Sign1 C raw = Some m \<and>
     (hd_Algorithm (msg_Protected m) = 0 \<longrightarrow> hd_KeyID (msg_Protected m) = [])"
  by (auto simp: DeserializeSign1_def DecodeCanonical_def split: if_splits)

text \<open>
  The two signing paths of the repository build the same message: \<open>Sign1\<close> with a private key in
  hand, and \<open>BuildSigStructure\<close>, an external signature, \<open>Sign1WithSignature\<close>.
\<close>

lemma Sign1_split:
  "Sign1 P C signer kid typ payload aad =
     attempt (BuildSigStructure C kid typ payload aad) (\<lambda>e. e) (\<lambda>(sb, pb, h).
       Sign1WithSignature C kid typ payload aad (ed25519_Sign P signer sb))"
  by (simp add: cose_defs Let_def reject_def need_def attempt_def split: option.splits)


section \<open>What the low-S check computes\<close>

lemma bytes_le_iff: "length xs = length ys \<Longrightarrow> bytes_le xs ys \<longleftrightarrow> be_val xs \<le> be_val ys"
proof (induction xs ys rule: list_induct2)
  case Nil
  then show ?case by simp
next
  case (Cons x xs y ys)
  have lt: "uint a * 256 ^ length xs + be_val as < uint b * 256 ^ length xs + be_val bs"
    if "a < b" "length as = length xs" for a b :: byte and as bs
  proof -
    have "uint a + 1 \<le> uint b" using that(1) by (simp add: word_less_def)
    then have "(uint a + 1) * 256 ^ length xs \<le> uint b * 256 ^ length xs"
      by (rule mult_right_mono) simp
    moreover have "be_val as < 256 ^ length xs" using be_val_bound [of as] that(2) by simp
    ultimately show ?thesis using be_val_nonneg [of bs] unfolding distrib_right by linarith
  qed
  show ?case
  proof (cases x y rule: linorder_cases)
    case less
    with lt [of x y xs ys] Cons.hyps show ?thesis by simp
  next
    case equal
    with Cons show ?thesis by simp
  next
    case greater
    with lt [of y x ys xs] Cons.hyps show ?thesis by auto
  qed
qed

lemma length_normalizeBytes [simp]: "length (normalizeBytes b n) = n"
  by (simp add: normalizeBytes_def)

lemma be_val_replicate_0 [simp]: "be_val (replicate n 0) = 0"
  by (induction n) auto

lemma be_val_normalizeBytes: "be_val (normalizeBytes b n) = be_val b mod 256 ^ n"
proof (cases "n \<le> length b")
  case True
  let ?k = "length b - n"
  have "be_val b = be_val (take ?k b) * 256 ^ n + be_val (drop ?k b)"
    using be_val_append [of "take ?k b" "drop ?k b"] True by simp
  moreover have "0 \<le> be_val (drop ?k b)" "be_val (drop ?k b) < 256 ^ n"
    using be_val_nonneg [of "drop ?k b"] be_val_bound [of "drop ?k b"] True by simp_all
  ultimately have "be_val (drop ?k b) = be_val b mod 256 ^ n" by simp
  with True show ?thesis by (simp add: normalizeBytes_def)
next
  case False
  have "be_val b < 256 ^ length b" by (rule be_val_bound)
  also have "(256 :: int) ^ length b \<le> 256 ^ n" using False by simp
  finally show ?thesis using False be_val_nonneg [of b]
    by (simp add: normalizeBytes_def be_val_append)
qed

text \<open>A DER-encoded ECDSA signature with short-form lengths.\<close>

definition der_signature :: "byte \<Rightarrow> bytes \<Rightarrow> bytes \<Rightarrow> bytes \<Rightarrow> bytes" where
  "der_signature len r s rest =
     [0x30, len, 2, of_nat (length r)] @ r @ [2, of_nat (length s)] @ s @ rest"

lemma IsLowS_der:
  assumes "length r < 256" and "0 < length s" and "length s < 256"
  shows "IsLowS (der_signature len r s rest) = bytes_le (normalizeBytes s 32) nHalf"
proof -
  let ?sig = "der_signature len r s rest"
  have r: "unat (of_nat (length r) :: byte) = length r" and s: "unat (of_nat (length s) :: byte) = length s"
    using assms by (simp_all add: unat_of_nat)
  have n: "?sig ! 2 = 2" "?sig ! 3 = of_nat (length r)" "?sig ! (4 + length r) = 2"
     "?sig ! (5 + length r) = of_nat (length s)"
    by (simp_all add: der_signature_def nth_append eval_nat_numeral)
  have d: "take (length s) (drop (6 + length r) ?sig) = s"
    by (simp add: der_signature_def eval_nat_numeral)
  have l: "length ?sig = 6 + length r + length s + length rest" by (simp add: der_signature_def)
  show ?thesis using assms(2) by (simp add: IsLowS_def l Let_def n d r s)
qed


text \<open>
  on a DER signature with short-form lengths, \<open>IsLowS\<close> decides whether the integer S, read
  modulo \<open>2^256\<close>, is at most the 32-byte constant \<open>nHalf\<close> of the source.
\<close>

theorem IsLowS_decides:
  assumes "length r < 256" and "s \<noteq> []" and "length s < 256"
  shows "IsLowS (der_signature len r s rest) \<longleftrightarrow> be_val s mod 2 ^ 256 \<le> be_val nHalf"
proof -
  have "IsLowS (der_signature len r s rest) = bytes_le (normalizeBytes s 32) nHalf"
    using assms by (intro IsLowS_der) auto
  also have "\<dots> \<longleftrightarrow> be_val (normalizeBytes s 32) \<le> be_val nHalf"
    by (intro bytes_le_iff) (simp add: nHalf_def)
  finally show ?thesis by (simp add: be_val_normalizeBytes)
qed

theorem IsLowS_decides_witness:
  "IsLowS (der_signature 6 [1] [5] []) \<and> be_val [5] mod 2 ^ 256 \<le> be_val nHalf"
  using IsLowS_decides [of "[1]" "[5]" 6 "[]"] by (simp add: nHalf_def)

text \<open>The order of the P-256 group (FIPS 186-4, D.1.2.3), the curve of the Android keys.\<close>

definition p256_order :: int where
  "p256_order = 0xFFFFFFFF00000000FFFFFFFFFFFFFFFFBCE6FAADA7179E84F3B9CAC2FC632551"

text \<open>
  the constant is not half the P-256 order, which the comment beside it says: an S in the upper
  half of the P-256 group is accepted as low.
\<close>

theorem IsLowS_accepts_high_S:
  "IsLowS (der_signature 38 [1] nHalf []) \<and>
   p256_order div 2 < be_val nHalf \<and> be_val nHalf < p256_order"
proof -
  have "IsLowS (der_signature 38 [1] nHalf []) = bytes_le (normalizeBytes nHalf 32) nHalf"
    by (rule IsLowS_der) (simp_all add: nHalf_def)
  also have "\<dots>" by (simp add: bytes_le_iff nHalf_def normalizeBytes_def)
  finally show ?thesis by (simp add: nHalf_def p256_order_def)
qed

end
