(* ===== verification/Envelope.thy ===== *)
theory Envelope
  imports Cose
begin

unbundle bit_operations_syntax

text \<open>
  \<open>contracts/envelope.go\<close>: the signed approval request, the device's signed response and the
  access grant token. Calls of \<open>time.Now()\<close> are arguments, one per call the source makes.
\<close>

section \<open>Data\<close>

record InitiatingInfo =
  ii_SrcNodeID :: string
  ii_SrcNodeDisplay :: string
  ii_SrcNodeVerified :: bool
  ii_RequestingIP :: string
  ii_PostureVersion :: string

record RequestPayload =
  rp_Ver :: int
  rp_RequestID :: uuid
  rp_TenantID :: uuid
  rp_TailnetID :: string
  rp_IssuedAt :: gotime
  rp_ExpiresAt :: gotime
  rp_AudienceDeviceID :: uuid
  rp_Initiating :: InitiatingInfo
  rp_Resource :: ResourceID
  rp_ResourceDisplay :: DisplayLabel
  rp_Protocol :: string
  rp_SSHAccount :: string
  rp_PolicyVersion :: int
  rp_RuleID :: string
  rp_ScopeRequested :: Scope
  rp_Binding :: ScopeBinding
  rp_Challenge :: bytes
  rp_DisplayDigest :: bytes

record RequestEnvelope =
  re_Message :: Sign1Message
  re_Payload :: RequestPayload

record ApprovalResponse =
  ar_RequestID :: uuid
  ar_Decision :: Decision
  ar_DeviceID :: uuid
  ar_KeyID :: string
  ar_SignedAt :: gotime
  ar_DeviceCounter :: int
  ar_ChannelBinding :: bytes
  ar_ResponseNonce :: bytes
  ar_RequestHash :: bytes
  ar_Signature :: bytes

record AGTPayload =
  agt_Ver :: int
  agt_JTI :: uuid
  agt_TenantID :: uuid
  agt_TailnetID :: string
  agt_Subject :: OIDCIdentity
  agt_SrcNodeID :: string
  agt_SrcNodeKeyEpoch :: int
  agt_ApproverDeviceID :: uuid
  agt_ApprovalKeyID :: string
  agt_DeviceSecurityLevel :: string
  agt_ProtectedNodeID :: string
  agt_Resource :: ResourceID
  agt_Protocol :: string
  agt_DeploymentMode :: string
  agt_Scope :: Scope
  agt_Binding :: ScopeBinding
  agt_PolicyVersion :: int
  agt_RuleID :: string
  agt_AuthzEpoch :: int
  agt_IssuedAt :: gotime
  agt_NotBefore :: gotime
  agt_ExpiresAt :: gotime

record AccessGrantToken =
  tok_Message :: Sign1Message
  tok_Payload :: AGTPayload

text \<open>The CBOR library's functions at the payload types.\<close>

record env_codec =
  ec_cose :: cose_codec
  marshal_Request :: "RequestPayload \<Rightarrow> bytes option"
  unmarshal_Request :: "bytes \<Rightarrow> RequestPayload option"
  marshal_AGT :: "AGTPayload \<Rightarrow> bytes option"
  unmarshal_AGT :: "bytes \<Rightarrow> AGTPayload option"
  marshal_Binding :: "ScopeBinding \<Rightarrow> bytes option"
  unmarshal_Binding :: "bytes \<Rightarrow> ScopeBinding option"

datatype env_error =
    MarshalRequestPayload cose_error
  | SignRequestFailed cose_error
  | DeserializeRequest cose_error
  | VerifyRequestSignature cose_error
  | UnexpectedType string
  | DecodeRequestPayload cose_error
  | AudienceMismatch
  | TenantMismatch
  | RequestExpired
  | RequestIssuedInFuture
  | DisplayDigestMismatch
  | ResponseSignatureFailed | PublicKeyPanic "nat"
  | MarshalAGTPayload cose_error
  | SignAGT cose_error
  | DeserializeAGT cose_error
  | VerifyAGTSignature cose_error
  | UnexpectedAGTType string
  | DecodeAGTPayload cose_error
  | AGTNotYetValid
  | AGTExpired
  | AGTPolicyVersion int int
  | AGTAuthzEpoch int int
  | DeviceSecurityLevelInsufficient string Sensitivity


section \<open>Helpers\<close>

fun subtleXORBytes_loop :: "byte \<Rightarrow> bytes \<Rightarrow> bytes \<Rightarrow> byte" where
  "subtleXORBytes_loop diff (x # xs) (y # ys) = subtleXORBytes_loop (diff OR (x XOR y)) xs ys"
| "subtleXORBytes_loop diff _ _ = diff"

definition subtleXORBytes :: "bytes \<Rightarrow> bytes \<Rightarrow> byte" where
  "subtleXORBytes a b = subtleXORBytes_loop 0 a b"

definition hmacEqual :: "bytes \<Rightarrow> bytes \<Rightarrow> bool" where
  "hmacEqual a b \<longleftrightarrow> length a = length b \<and> subtleXORBytes a b = 0"

definition int64ToBytes :: "int \<Rightarrow> bytes" where
  "int64ToBytes i =
     [word_of_int (drop_bit 56 i), word_of_int (drop_bit 48 i),
      word_of_int (drop_bit 40 i), word_of_int (drop_bit 32 i),
      word_of_int (drop_bit 24 i), word_of_int (drop_bit 16 i),
      word_of_int (drop_bit 8 i), word_of_int i]"

text \<open>
  \<open>Time.MarshalBinary\<close> of the standard library on a UTC instant: version 1, seconds since the
  zero time, nanoseconds, and -1 for the UTC zone.
\<close>

definition time_MarshalBinary :: "gotime \<Rightarrow> bytes" where
  "time_MarshalBinary t = 1 # be_bytes 8 (t div second) @ be_bytes 4 (t mod second) @ [255, 255]"


section \<open>Approval requests\<close>

definition display_fields :: "prims \<Rightarrow> RequestPayload \<Rightarrow> string" where
  "display_fields P p =
     uuid_String P (rp_TenantID p)
     @ rp_TailnetID p
     @ ii_SrcNodeID (rp_Initiating p)
     @ ii_SrcNodeDisplay (rp_Initiating p)
     @ res_ProtectedNodeID (rp_Resource p)
     @ res_ServiceID (rp_Resource p)
     @ show_int (res_Port (rp_Resource p))
     @ res_Transport (rp_Resource p)
     @ res_DeploymentMode (rp_Resource p)
     @ dl_Name (rp_ResourceDisplay p)
     @ rp_Protocol p
     @ (if rp_SSHAccount p \<noteq> [] then rp_SSHAccount p else [])
     @ show_int (rp_PolicyVersion p)
     @ rp_RuleID p
     @ rp_ScopeRequested p
     @ show_int (unixSec (truncSecond (rp_IssuedAt p)))
     @ show_int (unixSec (truncSecond (rp_ExpiresAt p)))"

text \<open>An encoding error of the binding is dropped; nothing is hashed for it then.\<close>

definition ComputeDisplayDigest :: "prims \<Rightarrow> env_codec \<Rightarrow> RequestPayload \<Rightarrow> bytes" where
  "ComputeDisplayDigest P E p =
     sha256 P (str_bytes (display_fields P p) @
       (case EncodeCanonical (encModeOK (ec_cose E)) (marshal_Binding E) (rp_Binding p) of
          Inl e \<Rightarrow> [] | Inr b \<Rightarrow> b))"

definition PrepareRequestPayload ::
  "prims \<Rightarrow> env_codec \<Rightarrow> gotime \<Rightarrow> RequestPayload \<Rightarrow> env_error + bytes \<times> RequestPayload" where
  "PrepareRequestPayload P E now payload =
    (let p1 = payload\<lparr>rp_Ver := 2\<rparr>;
         p2 = (if isZero (rp_IssuedAt p1) then p1\<lparr>rp_IssuedAt := now\<rparr> else p1);
         p3 = (if isZero (rp_ExpiresAt p2) then p2\<lparr>rp_ExpiresAt := rp_IssuedAt p2 + 60 * second\<rparr> else p2);
         p4 = p3\<lparr>rp_DisplayDigest := ComputeDisplayDigest P E p3\<rparr>
     in attempt (EncodeCanonical (encModeOK (ec_cose E)) (marshal_Request E) p4) MarshalRequestPayload
          (\<lambda>payloadBytes. Inr (payloadBytes, p4)))"

definition NewRequestEnvelope ::
  "prims \<Rightarrow> env_codec \<Rightarrow> gotime \<Rightarrow> bytes \<Rightarrow> string \<Rightarrow> RequestPayload \<Rightarrow> env_error + RequestEnvelope" where
  "NewRequestEnvelope P E now signer kid payload =
     attempt (PrepareRequestPayload P E now payload) (\<lambda>e. e) (\<lambda>(payloadBytes, payload').
     attempt (Sign1 P (ec_cose E) signer kid ''dnivio-req-v2'' payloadBytes []) SignRequestFailed (\<lambda>msg.
     Inr \<lparr>re_Message = msg, re_Payload = payload'\<rparr>))"

text \<open>\<open>now1\<close> is read for the expiry check, \<open>now2\<close> for the check against a future issue time.\<close>

definition VerifyRequestEnvelope ::
  "prims \<Rightarrow> env_codec \<Rightarrow> gotime \<Rightarrow> gotime \<Rightarrow> bytes \<Rightarrow> bytes \<Rightarrow> uuid \<Rightarrow> uuid \<Rightarrow> env_error + RequestEnvelope" where
  "VerifyRequestEnvelope P E now1 now2 rawEnvelope trustRoot expectedDeviceID expectedTenant =
     attempt (DeserializeSign1 (ec_cose E) rawEnvelope) DeserializeRequest (\<lambda>msg.
     attempt (Verify1 P (ec_cose E) msg trustRoot) VerifyRequestSignature (\<lambda>(payloadBytes, headers).
     reject (hd_Type headers \<noteq> ''dnivio-req-v2'') (UnexpectedType (hd_Type headers)) (
     attempt (DecodeCanonical (decModeOK (ec_cose E)) (unmarshal_Request E) payloadBytes)
       DecodeRequestPayload (\<lambda>payload.
     reject (rp_AudienceDeviceID payload \<noteq> expectedDeviceID) AudienceMismatch (
     reject (rp_TenantID payload \<noteq> expectedTenant) TenantMismatch (
     reject (now1 > rp_ExpiresAt payload + 5 * second) RequestExpired (
     reject (now2 + 5 * second < rp_IssuedAt payload) RequestIssuedInFuture (
     reject (\<not> hmacEqual (rp_DisplayDigest payload) (ComputeDisplayDigest P E payload)) DisplayDigestMismatch (
     Inr \<lparr>re_Message = msg, re_Payload = payload\<rparr>)))))))))"


section \<open>Approval responses\<close>

text \<open>The bytes a response signs; the source builds them in both functions below.\<close>

definition approval_toSign :: "ApprovalResponse \<Rightarrow> bytes" where
  "approval_toSign resp =
     ar_RequestHash resp
     @ str_bytes (ar_Decision resp)
     @ uuid_bytes (ar_DeviceID resp)
     @ str_bytes (ar_KeyID resp)
     @ time_MarshalBinary (ar_SignedAt resp)
     @ int64ToBytes (ar_DeviceCounter resp)
     @ ar_ChannelBinding resp
     @ ar_ResponseNonce resp"

definition SignApprovalResponse :: "prims \<Rightarrow> gotime \<Rightarrow> bytes \<Rightarrow> ApprovalResponse \<Rightarrow> ApprovalResponse" where
  "SignApprovalResponse P now signer resp =
    (let r1 = resp\<lparr>ar_SignedAt := now\<rparr>
     in r1\<lparr>ar_Signature := ed25519_Sign P signer (approval_toSign r1)\<rparr>)"

text \<open>
  \<open>ed25519.Verify\<close> panics when the public key does not have 32 bytes. Nothing checks the keys that
  devices enrol, so the panic is a result of its own here; every other key the program verifies
  under is generated by the key manager or has its length checked when it is loaded.
\<close>

definition ed25519_PublicKeySize :: nat where
  "ed25519_PublicKeySize = 32"

definition VerifyApprovalResponse :: "prims \<Rightarrow> ApprovalResponse \<Rightarrow> bytes \<Rightarrow> env_error + unit" where
  "VerifyApprovalResponse P resp pubKey =
     reject (length pubKey \<noteq> ed25519_PublicKeySize) (PublicKeyPanic (length pubKey)) (
     reject (\<not> ed25519_Verify P pubKey (approval_toSign resp) (ar_Signature resp)) ResponseSignatureFailed (
     Inr ()))"


section \<open>Access grant tokens\<close>

definition PrepareAGTPayload ::
  "env_codec \<Rightarrow> gotime \<Rightarrow> AGTPayload \<Rightarrow> env_error + bytes \<times> AGTPayload" where
  "PrepareAGTPayload E now payload =
    (let p1 = payload\<lparr>agt_Ver := 2\<rparr>;
         p2 = (if isZero (agt_IssuedAt p1) then p1\<lparr>agt_IssuedAt := now\<rparr> else p1);
         p3 = (if isZero (agt_NotBefore p2) then p2\<lparr>agt_NotBefore := now\<rparr> else p2)
     in attempt (EncodeCanonical (encModeOK (ec_cose E)) (marshal_AGT E) p3) MarshalAGTPayload
          (\<lambda>payloadBytes. Inr (payloadBytes, p3)))"

definition NewAccessGrantToken ::
  "prims \<Rightarrow> env_codec \<Rightarrow> gotime \<Rightarrow> bytes \<Rightarrow> string \<Rightarrow> AGTPayload \<Rightarrow> env_error + AccessGrantToken" where
  "NewAccessGrantToken P E now signer kid payload =
     attempt (PrepareAGTPayload E now payload) (\<lambda>e. e) (\<lambda>(payloadBytes, payload').
     attempt (Sign1 P (ec_cose E) signer kid ''dnivio-agt-v2'' payloadBytes []) SignAGT (\<lambda>msg.
     Inr \<lparr>tok_Message = msg, tok_Payload = payload'\<rparr>))"

text \<open>The acceptance checks of a decoded grant, in the source's order.\<close>

definition agt_acceptance ::
  "gotime \<Rightarrow> int \<Rightarrow> int \<Rightarrow> Sensitivity \<Rightarrow> AGTPayload \<Rightarrow> env_error + AGTPayload" where
  "agt_acceptance now currentAuthzEpoch currentPolicyVersion currentSensitivity payload =
     reject (now < agt_NotBefore payload) AGTNotYetValid (
     reject (now > agt_ExpiresAt payload) AGTExpired (
     reject (agt_PolicyVersion payload < currentPolicyVersion)
       (AGTPolicyVersion (agt_PolicyVersion payload) currentPolicyVersion) (
     reject (agt_AuthzEpoch payload \<noteq> currentAuthzEpoch)
       (AGTAuthzEpoch (agt_AuthzEpoch payload) currentAuthzEpoch) (
     reject ((currentSensitivity = SensitivityHigh \<or> currentSensitivity = SensitivityAdmin)
             \<and> agt_DeviceSecurityLevel payload \<noteq> SecurityLevelStrongBox)
       (DeviceSecurityLevelInsufficient (agt_DeviceSecurityLevel payload) currentSensitivity) (
     Inr payload)))))"

definition VerifyAccessGrantToken ::
  "prims \<Rightarrow> env_codec \<Rightarrow> gotime \<Rightarrow> bytes \<Rightarrow> bytes \<Rightarrow> int \<Rightarrow> int \<Rightarrow> Sensitivity
     \<Rightarrow> env_error + AccessGrantToken" where
  "VerifyAccessGrantToken P E now rawAGT trustRoot currentAuthzEpoch currentPolicyVersion currentSensitivity =
     attempt (DeserializeSign1 (ec_cose E) rawAGT) DeserializeAGT (\<lambda>msg.
     attempt (Verify1 P (ec_cose E) msg trustRoot) VerifyAGTSignature (\<lambda>(payloadBytes, headers).
     reject (hd_Type headers \<noteq> ''dnivio-agt-v2'') (UnexpectedAGTType (hd_Type headers)) (
     attempt (DecodeCanonical (decModeOK (ec_cose E)) (unmarshal_AGT E) payloadBytes)
       DecodeAGTPayload (\<lambda>payload.
     attempt (agt_acceptance now currentAuthzEpoch currentPolicyVersion currentSensitivity payload)
       (\<lambda>e. e) (\<lambda>payload.
     Inr \<lparr>tok_Message = msg, tok_Payload = payload\<rparr>)))))"

definition MaxGrantTTL :: "Scope \<Rightarrow> Sensitivity \<Rightarrow> duration" where
  "MaxGrantTTL scope sensitivity =
    (if scope = ScopeRequest then 30 * second
     else if scope = ScopeConnection then 120 * second
     else if scope = ScopeDuration then
       (if sensitivity = SensitivityStandard then 15 * minute
        else if sensitivity = SensitivityHigh then 5 * minute
        else 0)
     else if scope = ScopeSession then
       (if sensitivity = SensitivityStandard then 8 * hour
        else if sensitivity = SensitivityHigh then 1 * hour
        else if sensitivity = SensitivityAdmin then 30 * minute
        else 0)
     else 0)"



section \<open>Byte-level facts\<close>

lemma or_eq_0_iff: "(a :: byte) OR b = 0 \<longleftrightarrow> a = 0 \<and> b = 0"
  by (auto simp: bit_eq_iff bit_simps)

lemma xor_eq_0_iff: "(a :: byte) XOR b = 0 \<longleftrightarrow> a = b"
  by (auto simp: bit_eq_iff bit_simps)

lemma subtleXORBytes_loop_0:
  "length a = length b \<Longrightarrow> subtleXORBytes_loop d a b = 0 \<longleftrightarrow> d = 0 \<and> a = b"
  by (induction a b arbitrary: d rule: list_induct2) (auto simp: or_eq_0_iff xor_eq_0_iff)

lemma hmacEqual_iff [simp]: "hmacEqual a b \<longleftrightarrow> a = b"
  by (auto simp: hmacEqual_def subtleXORBytes_def subtleXORBytes_loop_0)

lemma int64ToBytes_be_bytes: "int64ToBytes i = be_bytes 8 i"
  by (simp add: int64ToBytes_def drop_bit_eq_div eval_nat_numeral)

lemma length_int64ToBytes [simp]: "length (int64ToBytes i) = 8"
  by (simp add: int64ToBytes_be_bytes)

lemma length_time_MarshalBinary [simp]: "length (time_MarshalBinary t) = 15"
  by (simp add: time_MarshalBinary_def)


text \<open>Reading the eight bytes back as a signed 64-bit integer gives the argument.\<close>

lemma int64ToBytes_decode: "wrap64 (be_val (int64ToBytes i)) = wrap64 i"
proof -
  have "wrap64 (be_val (int64ToBytes i)) = (i mod 2 ^ 64 + 2 ^ 63) mod 2 ^ 64 - 2 ^ 63"
    by (simp add: wrap64_def int64ToBytes_be_bytes be_val_be_bytes)
  also have "\<dots> = wrap64 i" unfolding wrap64_def by (simp add: mod_add_left_eq)
  finally show ?thesis .
qed

lemma int64ToBytes_inj:
  assumes "inInt64 i" "inInt64 j" "int64ToBytes i = int64ToBytes j"
  shows "i = j"
proof -
  have "wrap64 i = wrap64 j" using int64ToBytes_decode [of i] int64ToBytes_decode [of j] assms(3) by metis
  then show ?thesis using assms(1,2) by (simp only: wrap64_id)
qed


section \<open>Access grant tokens: what is accepted\<close>

lemma agt_acceptance_Inr:
  "agt_acceptance now ep pv sens p = Inr q \<longleftrightarrow>
     q = p \<and> agt_NotBefore p \<le> now \<and> now \<le> agt_ExpiresAt p \<and> pv \<le> agt_PolicyVersion p \<and>
     agt_AuthzEpoch p = ep \<and>
     (if sens \<in> {SensitivityHigh, SensitivityAdmin}
      then agt_DeviceSecurityLevel p = SecurityLevelStrongBox else True)"
proof -
  have gate: "\<not> ((sens = h \<or> sens = a) \<and> lvl \<noteq> sb) \<longleftrightarrow> (if sens \<in> {h, a} then lvl = sb else True)"
    for h a lvl sb :: string
    by auto
  show ?thesis
    unfolding agt_acceptance_def reject_Inr sum.inject gate not_less not_not by (simp only: conj_ac eq_commute)
qed

lemma VerifyAccessGrantToken_Inr:
  "VerifyAccessGrantToken P E now raw root ep pv sens = Inr tok \<longleftrightarrow>
     DeserializeSign1 (ec_cose E) raw = Inr (tok_Message tok) \<and>
     hd_Algorithm (msg_Protected (tok_Message tok)) = AlgorithmEdDSA \<and>
     hd_Type (msg_Protected (tok_Message tok)) = ''dnivio-agt-v2'' \<and>
     encModeOK (ec_cose E) \<and> signed_under P (ec_cose E) root (tok_Message tok) \<and>
     unmarshal_AGT E (msg_Payload (tok_Message tok)) = Some (tok_Payload tok) \<and>
     agt_NotBefore (tok_Payload tok) \<le> now \<and> now \<le> agt_ExpiresAt (tok_Payload tok) \<and>
     pv \<le> agt_PolicyVersion (tok_Payload tok) \<and> agt_AuthzEpoch (tok_Payload tok) = ep \<and>
     (if sens \<in> {SensitivityHigh, SensitivityAdmin}
      then agt_DeviceSecurityLevel (tok_Payload tok) = SecurityLevelStrongBox else True)"
  (is "?l = ?r")
proof
  assume ?l
  then show ?r
    by (auto simp: VerifyAccessGrantToken_def Verify1_accepts agt_acceptance_Inr DecodeCanonical_def
        split: if_splits)
next
  assume r: ?r
  then have "decModeOK (ec_cose E)" by (simp add: Deserialize_accepts)
  with r show ?l
    by (cases tok) (auto simp: VerifyAccessGrantToken_def Verify1_accepts agt_acceptance_Inr
        DecodeCanonical_def intro!: exI)
qed

text \<open>
  C11: \<open>VerifyAccessGrantToken\<close> accepts a byte string exactly when it decodes to a COSE message with
  algorithm EdDSA and type \<open>dnivio-agt-v2\<close> whose signature under the trust root covers the headers
  and the payload, and the decoded payload passes the validity window, the policy version floor, the
  authorization epoch and, for HIGH and ADMIN resources, the check for a StrongBox device. These are
  all the checks there are: whose tenant, node, resource, protocol, subject, source node or binding the
  token names, and whether it was consumed, is not looked at here, although DR-GRANT-2 asks for it.
\<close>

theorem VerifyAccessGrantToken_accepts_iff:
  "VerifyAccessGrantToken P E now raw root ep pv sens = Inr tok \<longleftrightarrow>
     DeserializeSign1 (ec_cose E) raw = Inr (tok_Message tok) \<and>
     hd_Algorithm (msg_Protected (tok_Message tok)) = AlgorithmEdDSA \<and>
     hd_Type (msg_Protected (tok_Message tok)) = ''dnivio-agt-v2'' \<and>
     encModeOK (ec_cose E) \<and> signed_under P (ec_cose E) root (tok_Message tok) \<and>
     unmarshal_AGT E (msg_Payload (tok_Message tok)) = Some (tok_Payload tok) \<and>
     agt_NotBefore (tok_Payload tok) \<le> now \<and> now \<le> agt_ExpiresAt (tok_Payload tok) \<and>
     pv \<le> agt_PolicyVersion (tok_Payload tok) \<and> agt_AuthzEpoch (tok_Payload tok) = ep \<and>
     (if sens \<in> {SensitivityHigh, SensitivityAdmin}
      then agt_DeviceSecurityLevel (tok_Payload tok) = SecurityLevelStrongBox else True)"
  by (rule VerifyAccessGrantToken_Inr)

text \<open>What a grant's times become on the wire: the encoder is set to RFC 3339 with whole seconds.\<close>

definition agt_wire :: "AGTPayload \<Rightarrow> AGTPayload" where
  "agt_wire p = p\<lparr>agt_IssuedAt := truncSecond (agt_IssuedAt p),
                  agt_NotBefore := truncSecond (agt_NotBefore p),
                  agt_ExpiresAt := truncSecond (agt_ExpiresAt p)\<rparr>"

text \<open>A token as issued, serialized, and as the CBOR library decodes it at the other end.\<close>

definition agt_delivered :: "env_codec \<Rightarrow> AccessGrantToken \<Rightarrow> bytes \<Rightarrow> bool" where
  "agt_delivered E tok raw \<longleftrightarrow>
     SerializeSign1 (ec_cose E) (tok_Message tok) = Inr raw \<and> decModeOK (ec_cose E) \<and>
     unmarshal_Sign1 (ec_cose E) raw = Some (tok_Message tok) \<and>
     unmarshal_AGT E (msg_Payload (tok_Message tok)) = Some (agt_wire (tok_Payload tok))"

lemma NewAccessGrantToken_msg:
  assumes "NewAccessGrantToken P E now signer kid payload = Inr tok"
  obtains pb where "Sign1 P (ec_cose E) signer kid ''dnivio-agt-v2'' pb [] = Inr (tok_Message tok)"
    and "PrepareAGTPayload E now payload = Inr (pb, tok_Payload tok)"
  using assms by (auto simp: NewAccessGrantToken_def)

text \<open>
  C33: a grant signed by \<open>NewAccessGrantToken\<close>, serialized and delivered, is judged by
  \<open>VerifyAccessGrantToken\<close> under the matching public key on its acceptance checks alone, over the
  times cut to whole seconds that the encoding carries.
\<close>

theorem AGT_roundtrip:
  assumes new: "NewAccessGrantToken P E now0 signer kid payload = Inr tok"
    and keys: "key_pair P root signer"
    and wire: "agt_delivered E tok raw"
  shows "VerifyAccessGrantToken P E now raw root ep pv sens =
           attempt (agt_acceptance now ep pv sens (agt_wire (tok_Payload tok))) (\<lambda>e. e)
             (\<lambda>p. Inr \<lparr>tok_Message = tok_Message tok, tok_Payload = p\<rparr>)"
proof -
  obtain pb where s: "Sign1 P (ec_cose E) signer kid ''dnivio-agt-v2'' pb [] = Inr (tok_Message tok)"
    using new by (rule NewAccessGrantToken_msg)
  have h: "msg_Protected (tok_Message tok) = mkHeaders kid ''dnivio-agt-v2''"
      "msg_Payload (tok_Message tok) = pb"
    using Sign1_fields [OF s] by simp_all
  have d: "DeserializeSign1 (ec_cose E) raw = Inr (tok_Message tok)"
    using wire by (simp add: agt_delivered_def Deserialize_accepts h)
  have v: "Verify1 P (ec_cose E) (tok_Message tok) root = Inr (pb, mkHeaders kid ''dnivio-agt-v2'')"
    using Sign1_Verify1 [OF s keys] .
  show ?thesis
    using wire by (simp add: VerifyAccessGrantToken_def d v agt_delivered_def h DecodeCanonical_def)
qed

text \<open>A codec and a token on which the hypotheses hold.\<close>

definition demo_agt :: AGTPayload where
  "demo_agt =
     \<lparr>agt_Ver = 2, agt_JTI = 7, agt_TenantID = 1, agt_TailnetID = ''net'',
      agt_Subject = \<lparr>oid_Issuer = ''iss'', oid_Subject = ''sub'', oid_UserID = ''u''\<rparr>,
      agt_SrcNodeID = ''src'', agt_SrcNodeKeyEpoch = 1, agt_ApproverDeviceID = 9,
      agt_ApprovalKeyID = ''k'', agt_DeviceSecurityLevel = SecurityLevelStrongBox,
      agt_ProtectedNodeID = ''node'',
      agt_Resource = \<lparr>res_TenantID = 1, res_ProtectedNodeID = ''node'', res_ServiceID = ''svc'',
         res_Port = 22, res_Transport = TransportTCP, res_DeploymentMode = ModeOpenSSH\<rparr>,
      agt_Protocol = ''ssh'', agt_DeploymentMode = ModeOpenSSH, agt_Scope = ScopeConnection,
      agt_Binding = emptyBinding, agt_PolicyVersion = 3, agt_RuleID = ''r1'', agt_AuthzEpoch = 4,
      agt_IssuedAt = 100 * second, agt_NotBefore = 100 * second, agt_ExpiresAt = 200 * second\<rparr>"

definition demo_req :: RequestPayload where
  "demo_req =
     \<lparr>rp_Ver = 2, rp_RequestID = 5, rp_TenantID = 1, rp_TailnetID = ''net'',
      rp_IssuedAt = 100 * second, rp_ExpiresAt = 160 * second, rp_AudienceDeviceID = 9,
      rp_Initiating = \<lparr>ii_SrcNodeID = ''src'', ii_SrcNodeDisplay = ''laptop'', ii_SrcNodeVerified = True,
         ii_RequestingIP = [], ii_PostureVersion = []\<rparr>,
      rp_Resource = agt_Resource demo_agt,
      rp_ResourceDisplay = \<lparr>dl_Name = ''host'', dl_SourceHint = []\<rparr>,
      rp_Protocol = ''ssh'', rp_SSHAccount = [], rp_PolicyVersion = 3, rp_RuleID = ''r1'',
      rp_ScopeRequested = ScopeConnection, rp_Binding = emptyBinding, rp_Challenge = [],
      rp_DisplayDigest = []\<rparr>"

text \<open>A codec that knows one message and one payload of each kind.\<close>

definition demo_codec :: "string \<Rightarrow> RequestPayload \<Rightarrow> env_codec" where
  "demo_codec typ req =
     \<lparr>ec_cose =
        \<lparr>encModeOK = True, decModeOK = True, marshal_Headers = (\<lambda>h. Some [1]),
         marshal_sigStructure = (\<lambda>t. Some [2]), marshal_Sign1 = (\<lambda>m. Some [3]),
         unmarshal_Sign1 = (\<lambda>b. Some \<lparr>msg_Protected = mkHeaders ''kid'' typ, msg_Unprotected = [],
            msg_Payload = [4], msg_Signature = [8, 2]\<rparr>)\<rparr>,
      marshal_Request = (\<lambda>p. Some [4]), unmarshal_Request = (\<lambda>b. Some req),
      marshal_AGT = (\<lambda>p. Some [4]), unmarshal_AGT = (\<lambda>b. Some demo_agt),
      marshal_Binding = (\<lambda>b. Some [5]), unmarshal_Binding = (\<lambda>b. Some emptyBinding)\<rparr>"

lemmas demo_env_defs = demo_agt_def demo_req_def demo_codec_def

theorem AGT_roundtrip_witness:
  "NewAccessGrantToken demo_prims (demo_codec ''dnivio-agt-v2'' demo_req) (100 * second) [8] ''kid'' demo_agt =
     Inr \<lparr>tok_Message = \<lparr>msg_Protected = mkHeaders ''kid'' ''dnivio-agt-v2'', msg_Unprotected = [],
            msg_Payload = [4], msg_Signature = [8, 2]\<rparr>, tok_Payload = demo_agt\<rparr> \<and>
   VerifyAccessGrantToken demo_prims (demo_codec ''dnivio-agt-v2'' demo_req) (150 * second) [3] [8] 4 3
     SensitivityHigh =
     Inr \<lparr>tok_Message = \<lparr>msg_Protected = mkHeaders ''kid'' ''dnivio-agt-v2'', msg_Unprotected = [],
            msg_Payload = [4], msg_Signature = [8, 2]\<rparr>, tok_Payload = demo_agt\<rparr>"
  (is "?new = Inr ?tok \<and> ?ver = _")
proof -
  have n: "?new = Inr ?tok"
    by (simp add: NewAccessGrantToken_def PrepareAGTPayload_def cose_defs demo_env_defs isZero_def second_def)
  have d: "agt_delivered (demo_codec ''dnivio-agt-v2'' demo_req) ?tok [3]"
    by (simp add: agt_delivered_def cose_defs demo_env_defs agt_wire_def truncSecond_def second_def)
  have "agt_wire (tok_Payload ?tok) = demo_agt"
    by (simp add: demo_agt_def agt_wire_def truncSecond_def second_def)
  moreover have "agt_acceptance (150 * second) 4 3 SensitivityHigh demo_agt = Inr demo_agt"
    by (simp add: agt_acceptance_def demo_agt_def second_def)
  ultimately have "?ver = Inr ?tok" using AGT_roundtrip [OF n demo_key_pair d] by simp
  with n show ?thesis by simp
qed


section \<open>Approval requests: what is accepted\<close>

lemma VerifyRequestEnvelope_Inr:
  "VerifyRequestEnvelope P E now1 now2 raw root dev ten = Inr env \<longleftrightarrow>
     DeserializeSign1 (ec_cose E) raw = Inr (re_Message env) \<and>
     hd_Algorithm (msg_Protected (re_Message env)) = AlgorithmEdDSA \<and>
     hd_Type (msg_Protected (re_Message env)) = ''dnivio-req-v2'' \<and>
     encModeOK (ec_cose E) \<and> signed_under P (ec_cose E) root (re_Message env) \<and>
     unmarshal_Request E (msg_Payload (re_Message env)) = Some (re_Payload env) \<and>
     rp_AudienceDeviceID (re_Payload env) = dev \<and> rp_TenantID (re_Payload env) = ten \<and>
     now1 \<le> rp_ExpiresAt (re_Payload env) + 5 * second \<and>
     rp_IssuedAt (re_Payload env) \<le> now2 + 5 * second \<and>
     rp_DisplayDigest (re_Payload env) = ComputeDisplayDigest P E (re_Payload env)"
  (is "?l = ?r")
proof
  assume ?l
  then show ?r
    by (auto simp: VerifyRequestEnvelope_def Verify1_accepts DecodeCanonical_def)
next
  assume r: ?r
  then have "decModeOK (ec_cose E)" by (simp add: Deserialize_accepts)
  with r show ?l
    by (cases env) (auto simp: VerifyRequestEnvelope_def Verify1_accepts DecodeCanonical_def)
qed

text \<open>
  C19: \<open>VerifyRequestEnvelope\<close> accepts a byte string exactly when it decodes to an EdDSA message of
  type \<open>dnivio-req-v2\<close> signed under the trust root, whose payload names the expected device and
  tenant, lies in its validity window up to five seconds of clock skew on either side, and carries
  the digest of its own displayed fields. No more is checked: not the kid of the header, not that the
  encoding is canonical, not that the challenge is new, which DR-SIG-1 asks for.
\<close>

theorem VerifyRequestEnvelope_accepts_iff:
  "VerifyRequestEnvelope P E now1 now2 raw root dev ten = Inr env \<longleftrightarrow>
     DeserializeSign1 (ec_cose E) raw = Inr (re_Message env) \<and>
     hd_Algorithm (msg_Protected (re_Message env)) = AlgorithmEdDSA \<and>
     hd_Type (msg_Protected (re_Message env)) = ''dnivio-req-v2'' \<and>
     encModeOK (ec_cose E) \<and> signed_under P (ec_cose E) root (re_Message env) \<and>
     unmarshal_Request E (msg_Payload (re_Message env)) = Some (re_Payload env) \<and>
     rp_AudienceDeviceID (re_Payload env) = dev \<and> rp_TenantID (re_Payload env) = ten \<and>
     now1 \<le> rp_ExpiresAt (re_Payload env) + 5 * second \<and>
     rp_IssuedAt (re_Payload env) \<le> now2 + 5 * second \<and>
     rp_DisplayDigest (re_Payload env) = ComputeDisplayDigest P E (re_Payload env)"
  by (rule VerifyRequestEnvelope_Inr)

text \<open>
  an approval request can never be replayed as a grant, nor a grant as a request: no byte string
  is accepted by both verifiers, whatever keys, times and expectations either is called with.
\<close>

theorem request_grant_separation:
  "\<nexists>env tok. VerifyRequestEnvelope P E now1 now2 raw root dev ten = Inr env \<and>
     VerifyAccessGrantToken P E now raw root' ep pv sens = Inr tok"
  by (auto simp: VerifyRequestEnvelope_Inr VerifyAccessGrantToken_Inr)

section \<open>Approval requests: from the service to the device\<close>

definition request_wire :: "RequestPayload \<Rightarrow> RequestPayload" where
  "request_wire p = p\<lparr>rp_IssuedAt := truncSecond (rp_IssuedAt p),
                      rp_ExpiresAt := truncSecond (rp_ExpiresAt p)\<rparr>"

definition request_delivered :: "env_codec \<Rightarrow> RequestEnvelope \<Rightarrow> bytes \<Rightarrow> bool" where
  "request_delivered E env raw \<longleftrightarrow>
     SerializeSign1 (ec_cose E) (re_Message env) = Inr raw \<and> decModeOK (ec_cose E) \<and>
     unmarshal_Sign1 (ec_cose E) raw = Some (re_Message env) \<and>
     unmarshal_Request E (msg_Payload (re_Message env)) = Some (request_wire (re_Payload env))"

text \<open>The digest is taken over whole seconds, so it survives the encoding, and not over itself.\<close>

lemma ComputeDisplayDigest_wire [simp]:
  "ComputeDisplayDigest P E (request_wire p) = ComputeDisplayDigest P E p"
  by (simp add: ComputeDisplayDigest_def display_fields_def request_wire_def)

lemma ComputeDisplayDigest_digest [simp]:
  "ComputeDisplayDigest P E (p\<lparr>rp_DisplayDigest := d\<rparr>) = ComputeDisplayDigest P E p"
  by (simp add: ComputeDisplayDigest_def display_fields_def)

text \<open>What \<open>PrepareRequestPayload\<close> leaves in the payload it signs.\<close>

lemma PrepareRequestPayload_fields:
  assumes "PrepareRequestPayload P E now p = Inr (pb, q)"
  shows "rp_DisplayDigest q = ComputeDisplayDigest P E q"
    and "rp_AudienceDeviceID q = rp_AudienceDeviceID p" and "rp_TenantID q = rp_TenantID p"
    and "rp_IssuedAt q = (if isZero (rp_IssuedAt p) then now else rp_IssuedAt p)"
    and "rp_ExpiresAt q = (if isZero (rp_ExpiresAt p) then rp_IssuedAt q + 60 * second else rp_ExpiresAt p)"
  using assms by (auto simp: PrepareRequestPayload_def Let_def)

lemma NewRequestEnvelope_msg:
  assumes "NewRequestEnvelope P E now signer kid payload = Inr env"
  obtains pb where "Sign1 P (ec_cose E) signer kid ''dnivio-req-v2'' pb [] = Inr (re_Message env)"
    and "PrepareRequestPayload P E now payload = Inr (pb, re_Payload env)"
  using assms by (auto simp: NewRequestEnvelope_def)

text \<open>
  C40: a request signed by \<open>NewRequestEnvelope\<close> and delivered is accepted under the matching public key
  exactly by the device and the tenant it was addressed to, and exactly within its validity window
  widened by five seconds; the displayed-fields digest never rejects an honest request, although the
  encoding cuts the times to whole seconds.
\<close>

theorem request_roundtrip:
  assumes new: "NewRequestEnvelope P E now0 signer kid payload = Inr env"
    and keys: "key_pair P root signer"
    and wire: "request_delivered E env raw"
  shows "VerifyRequestEnvelope P E now1 now2 raw root dev ten =
           Inr \<lparr>re_Message = re_Message env, re_Payload = request_wire (re_Payload env)\<rparr> \<longleftrightarrow>
         rp_AudienceDeviceID payload = dev \<and> rp_TenantID payload = ten \<and>
         now1 \<le> truncSecond (rp_ExpiresAt (re_Payload env)) + 5 * second \<and>
         truncSecond (rp_IssuedAt (re_Payload env)) \<le> now2 + 5 * second"
proof -
  obtain pb where s: "Sign1 P (ec_cose E) signer kid ''dnivio-req-v2'' pb [] = Inr (re_Message env)"
    and q: "PrepareRequestPayload P E now0 payload = Inr (pb, re_Payload env)"
    using new by (rule NewRequestEnvelope_msg)
  have "Verify1 P (ec_cose E) (re_Message env) root = Inr (pb, mkHeaders kid ''dnivio-req-v2'')"
    using Sign1_Verify1 [OF s keys] .
  then have v: "encModeOK (ec_cose E)" "signed_under P (ec_cose E) root (re_Message env)"
      "msg_Protected (re_Message env) = mkHeaders kid ''dnivio-req-v2''"
    by (simp_all add: Verify1_accepts)
  have d: "DeserializeSign1 (ec_cose E) raw = Inr (re_Message env)"
    using wire v(3) by (simp add: request_delivered_def Deserialize_accepts)
  have w: "unmarshal_Request E (msg_Payload (re_Message env)) = Some (request_wire (re_Payload env))"
    using wire by (simp add: request_delivered_def)
  have f: "rp_DisplayDigest (request_wire p) = rp_DisplayDigest p"
    "rp_AudienceDeviceID (request_wire p) = rp_AudienceDeviceID p"
    "rp_TenantID (request_wire p) = rp_TenantID p"
    "rp_IssuedAt (request_wire p) = truncSecond (rp_IssuedAt p)"
    "rp_ExpiresAt (request_wire p) = truncSecond (rp_ExpiresAt p)" for p
    by (simp_all add: request_wire_def)
  note g = PrepareRequestPayload_fields(1-3) [OF q]
  show ?thesis
    by (simp add: VerifyRequestEnvelope_Inr d v w f g)
qed

definition demo_req_sent :: RequestPayload where
  "demo_req_sent =
     demo_req\<lparr>rp_DisplayDigest := ComputeDisplayDigest demo_prims (demo_codec ''dnivio-req-v2'' demo_req) demo_req\<rparr>"

definition demo_req_env :: RequestEnvelope where
  "demo_req_env =
     \<lparr>re_Message = \<lparr>msg_Protected = mkHeaders ''kid'' ''dnivio-req-v2'', msg_Unprotected = [],
        msg_Payload = [4], msg_Signature = [8, 2]\<rparr>, re_Payload = demo_req_sent\<rparr>"

lemma ComputeDisplayDigest_demo:
  "ComputeDisplayDigest P (demo_codec typ r) p = ComputeDisplayDigest P (demo_codec typ' r') p"
  by (simp add: ComputeDisplayDigest_def demo_codec_def EncodeCanonical_def)

lemma demo_req_env_issued:
  "NewRequestEnvelope demo_prims (demo_codec ''dnivio-req-v2'' demo_req_sent) (100 * second) [8] ''kid'' demo_req
     = Inr demo_req_env"
proof -
  let ?E = "demo_codec ''dnivio-req-v2'' demo_req_sent"
  have d: "ComputeDisplayDigest demo_prims ?E demo_req
      = ComputeDisplayDigest demo_prims (demo_codec ''dnivio-req-v2'' demo_req) demo_req"
    by (rule ComputeDisplayDigest_demo)
  have z: "\<not> isZero (rp_IssuedAt demo_req)" "\<not> isZero (rp_ExpiresAt demo_req)"
      "demo_req\<lparr>rp_Ver := 2\<rparr> = demo_req"
    by (simp_all add: demo_req_def isZero_def second_def)
  have e: "EncodeCanonical (encModeOK (ec_cose ?E)) (marshal_Request ?E) p = Inr [4]" for p
    by (simp add: EncodeCanonical_def demo_codec_def)
  have "PrepareRequestPayload demo_prims ?E (100 * second) demo_req = Inr ([4], demo_req_sent)"
    by (simp add: PrepareRequestPayload_def Let_def z d e flip: demo_req_sent_def)
  moreover have "Sign1 demo_prims (ec_cose ?E) [8] ''kid'' ''dnivio-req-v2'' [4] [] = Inr (re_Message demo_req_env)"
    by (simp add: Sign1_def demo_codec_def demo_req_env_def)
  ultimately show ?thesis by (simp add: NewRequestEnvelope_def demo_req_env_def)
qed

lemma request_wire_demo [simp]: "request_wire demo_req_sent = demo_req_sent"
  by (simp add: request_wire_def demo_req_sent_def demo_req_def truncSecond_def second_def)

theorem request_roundtrip_witness:
  "VerifyRequestEnvelope demo_prims (demo_codec ''dnivio-req-v2'' demo_req_sent) (164 * second) (96 * second)
     [3] [8] 9 1 = Inr demo_req_env"
proof -
  let ?E = "demo_codec ''dnivio-req-v2'' demo_req_sent"
  have d: "request_delivered ?E demo_req_env [3]"
    by (simp add: request_delivered_def demo_req_env_def) (simp add: cose_defs demo_codec_def)
  have "rp_AudienceDeviceID demo_req = 9" "rp_TenantID demo_req = 1"
    "truncSecond (rp_ExpiresAt (re_Payload demo_req_env)) = 160 * second"
    "truncSecond (rp_IssuedAt (re_Payload demo_req_env)) = 100 * second"
    by (simp_all add: demo_req_env_def demo_req_sent_def demo_req_def truncSecond_def second_def)
  moreover have "\<lparr>re_Message = re_Message demo_req_env, re_Payload = request_wire (re_Payload demo_req_env)\<rparr>
      = demo_req_env"
    by (simp add: demo_req_env_def)
  ultimately show ?thesis
    using request_roundtrip [OF demo_req_env_issued demo_key_pair d, of "164 * second" "96 * second" 9 1]
    by (simp add: second_def)
qed

text \<open>
  the displayed-fields digest does not separate its fields: moving characters from the end of
  the tailnet name to the front of the requesting node's name leaves the digest unchanged, so two
  requests that show different names to the approver can carry the same digest.
\<close>

theorem display_digest_ambiguous:
  "ComputeDisplayDigest P E
     (p\<lparr>rp_TailnetID := a @ b, rp_Initiating := (rp_Initiating p)\<lparr>ii_SrcNodeID := c\<rparr>\<rparr>) =
   ComputeDisplayDigest P E
     (p\<lparr>rp_TailnetID := a, rp_Initiating := (rp_Initiating p)\<lparr>ii_SrcNodeID := b @ c\<rparr>\<rparr>)"
  by (simp add: ComputeDisplayDigest_def display_fields_def)


section \<open>Approval responses\<close>

lemma SignApprovalResponse_fields:
  "approval_toSign (SignApprovalResponse P now signer resp) = approval_toSign (resp\<lparr>ar_SignedAt := now\<rparr>)"
  "ar_Signature (SignApprovalResponse P now signer resp) =
     ed25519_Sign P signer (approval_toSign (resp\<lparr>ar_SignedAt := now\<rparr>))"
  by (simp_all add: SignApprovalResponse_def approval_toSign_def)

text \<open>
  what \<open>SignApprovalResponse\<close> signs, \<open>VerifyApprovalResponse\<close> accepts under the matching
  public key, and any response it accepts carries a signature over exactly the signed fields.
\<close>

theorem approval_response_roundtrip:
  assumes "key_pair P pub signer" and "length pub = 32"
  shows "VerifyApprovalResponse P (SignApprovalResponse P now signer resp) pub = Inr ()"
  using assms by (simp add: VerifyApprovalResponse_def ed25519_PublicKeySize_def SignApprovalResponse_fields key_pair_def)

theorem approval_response_roundtrip_witness:
  "VerifyApprovalResponse demo_prims
     (SignApprovalResponse demo_prims 5 (replicate 32 1) \<lparr>ar_RequestID = 1, ar_Decision = DecisionApprove, ar_DeviceID = 2,
        ar_KeyID = ''k'', ar_SignedAt = 0, ar_DeviceCounter = 3, ar_ChannelBinding = [], ar_ResponseNonce = [],
        ar_RequestHash = [], ar_Signature = []\<rparr>) (replicate 32 1) = Inr ()"
  by (rule approval_response_roundtrip [OF demo_key_pair]) simp

text \<open>The eight bytes of a counter or of a timestamp's seconds have a fixed length, so fields of
  fixed length can be cut off one by one.\<close>

lemma time_MarshalBinary_inj:
  assumes "time_MarshalBinary t = time_MarshalBinary u" and "0 \<le> t" "0 \<le> u"
    and "t div second < 2 ^ 64" "u div second < 2 ^ 64"
  shows "t = u"
proof -
  have s: "be_bytes 8 (t div second) = be_bytes 8 (u div second)"
    and n: "be_bytes 4 (t mod second) = be_bytes 4 (u mod second)"
    using assms(1) by (simp_all add: time_MarshalBinary_def)
  have "t div second = u div second"
    using s by (rule be_bytes_inj) (use assms in \<open>simp_all add: second_def\<close>)
  moreover have b: "0 \<le> x mod second" "x mod second < 256 ^ 4" for x :: int
    using pos_mod_bound [of second x] pos_mod_sign [of second x] by (simp_all add: second_def)
  then have "t mod second = u mod second"
    using n by (intro be_bytes_inj [of 4]) simp_all
  ultimately show ?thesis by (metis div_mod_decomp_int)
qed

lemma decision_prefix:
  assumes "d \<in> {DecisionApprove, DecisionDeny}" "d' \<in> {DecisionApprove, DecisionDeny}"
    and "str_bytes d @ xs = str_bytes d' @ ys"
  shows "d = d' \<and> xs = ys"
  using assms by (auto simp: str_bytes_def)

text \<open>
  the bytes a response signs determine the request hash, the decision and the device, and, for
  key identifiers of equal length, also the key identifier, the signing time and the device counter.
  A signature over one decision for one request hash is therefore never a signature over another.
\<close>

theorem approval_toSign_determines:
  assumes "length (ar_RequestHash r) = 32" "length (ar_RequestHash r') = 32"
    and "ar_Decision r \<in> {DecisionApprove, DecisionDeny}" "ar_Decision r' \<in> {DecisionApprove, DecisionDeny}"
    and "inInt64 (ar_DeviceCounter r)" "inInt64 (ar_DeviceCounter r')"
    and "0 \<le> ar_SignedAt r" "0 \<le> ar_SignedAt r'"
    and "ar_SignedAt r div second < 2 ^ 64" "ar_SignedAt r' div second < 2 ^ 64"
    and same: "approval_toSign r = approval_toSign r'"
  shows "ar_RequestHash r = ar_RequestHash r' \<and> ar_Decision r = ar_Decision r' \<and> ar_DeviceID r = ar_DeviceID r' \<and>
     (if length (ar_KeyID r) = length (ar_KeyID r')
      then str_bytes (ar_KeyID r) = str_bytes (ar_KeyID r') \<and> ar_SignedAt r = ar_SignedAt r' \<and>
           ar_DeviceCounter r = ar_DeviceCounter r'
      else True)"
proof -
  let ?tail = "\<lambda>r. str_bytes (ar_KeyID r) @ time_MarshalBinary (ar_SignedAt r) @
    int64ToBytes (ar_DeviceCounter r) @ ar_ChannelBinding r @ ar_ResponseNonce r"
  have h: "ar_RequestHash r = ar_RequestHash r'"
    and "str_bytes (ar_Decision r) @ uuid_bytes (ar_DeviceID r) @ ?tail r
      = str_bytes (ar_Decision r') @ uuid_bytes (ar_DeviceID r') @ ?tail r'"
    using same assms(1,2) by (simp_all add: approval_toSign_def)
  with decision_prefix [OF assms(3,4)] have d: "ar_Decision r = ar_Decision r'"
    and "uuid_bytes (ar_DeviceID r) @ ?tail r = uuid_bytes (ar_DeviceID r') @ ?tail r'" by blast+
  then have u: "ar_DeviceID r = ar_DeviceID r'" and t: "?tail r = ?tail r'" by simp_all
  have k: "str_bytes (ar_KeyID r) = str_bytes (ar_KeyID r') \<and>
      time_MarshalBinary (ar_SignedAt r) = time_MarshalBinary (ar_SignedAt r') \<and>
      int64ToBytes (ar_DeviceCounter r) = int64ToBytes (ar_DeviceCounter r')"
    if "length (ar_KeyID r) = length (ar_KeyID r')"
    using t that by simp
  show ?thesis
    using h d u k time_MarshalBinary_inj [of "ar_SignedAt r" "ar_SignedAt r'"]
      int64ToBytes_inj [of "ar_DeviceCounter r" "ar_DeviceCounter r'"] assms(5-10)
    by auto
qed

definition demo_response :: ApprovalResponse where
  "demo_response =
     \<lparr>ar_RequestID = 1, ar_Decision = DecisionApprove, ar_DeviceID = 2, ar_KeyID = ''k'', ar_SignedAt = 0,
      ar_DeviceCounter = 3, ar_ChannelBinding = [], ar_ResponseNonce = [], ar_RequestHash = replicate 32 0,
      ar_Signature = []\<rparr>"

theorem approval_toSign_determines_witness:
  "ar_RequestHash demo_response = replicate 32 0 \<and> ar_Decision demo_response = DecisionApprove \<and>
   ar_DeviceID demo_response = ar_DeviceID (demo_response\<lparr>ar_RequestID := 7\<rparr>)"
  using approval_toSign_determines [of demo_response "demo_response\<lparr>ar_RequestID := 7\<rparr>"]
  by (simp add: demo_response_def approval_toSign_def inInt64_def)

text \<open>
  the signature of a response does not cover the request it names: a response to one request
  verifies unchanged with the identifier of any other request.
\<close>

theorem approval_response_request_swap:
  "VerifyApprovalResponse P (resp\<lparr>ar_RequestID := other\<rparr>) pub = VerifyApprovalResponse P resp pub"
  by (simp add: VerifyApprovalResponse_def reject_def approval_toSign_def)

end
