(* ===== verification/KeyManager.thy ===== *)
theory KeyManager
  imports Envelope
begin

text \<open>
  \<open>service/internal/crypto/keymanager.go\<close>: the signing keys of the service, their rotation and the
  root signature over them, the in-memory signer and envelope encrypter, and the loading of the root
  key and signature from files. The signing backend is an interface of the source; it is the parameter
  record \<open>Signer\<close> over a state of its own, with its contract as the locale \<open>signing_backend\<close>, and
  the in-memory signer is its instance. Key pairs, UUIDs and instants that a call reads are arguments.
  A set of kids is the set of keys of the Go map, whose values are only ever \<open>true\<close>.
\<close>

section \<open>Data\<close>

type_synonym KeyPurpose = string

abbreviation PurposeRequestSig :: KeyPurpose where "PurposeRequestSig \<equiv> ''request_sig''"
abbreviation PurposeGrantSig :: KeyPurpose where "PurposeGrantSig \<equiv> ''grant_sig''"
abbreviation PurposePolicySig :: KeyPurpose where "PurposePolicySig \<equiv> ''policy_sig''"
abbreviation PurposeAuditCheckpoint :: KeyPurpose where "PurposeAuditCheckpoint \<equiv> ''audit_checkpoint_sig''"

definition AllPurposes :: "KeyPurpose list" where
  "AllPurposes = [PurposeRequestSig, PurposeGrantSig, PurposePolicySig, PurposeAuditCheckpoint]"

record KeyVersion =
  kv_Kid :: string
  kv_Purpose :: KeyPurpose
  kv_PubKey :: bytes
  kv_CreatedAt :: gotime
  kv_ActivatedAt :: "gotime option"
  kv_RetiredAt :: "gotime option"

definition IsActive :: "gotime \<Rightarrow> KeyVersion \<Rightarrow> bool" where
  "IsActive now kv =
     (if kv_ActivatedAt kv = None then False
      else case kv_RetiredAt kv of Some r \<Rightarrow> \<not> now > r | None \<Rightarrow> True)"

record ActiveKeySet =
  ks_Keys :: "KeyPurpose \<rightharpoonup> KeyVersion"
  ks_RootSig :: bytes
  ks_IssuedAt :: gotime

record RootTrustAnchor =
  ra_PubKey :: bytes
  ra_Fingerprint :: string

text \<open>\<open>UuidPanic\<close> is the panic of \<open>uuid.Must\<close>, which no caller turns into an error of its own.\<close>

datatype key_error =
    UnknownKid string
  | EntropyFailed
  | UuidPanic
  | GenerateKeyFailed KeyPurpose key_error
  | NoActiveKeySet
  | InvalidRootSignature
  | NoActiveKey KeyPurpose
  | SignFailed KeyPurpose key_error
  | KidNotAllowed string
  | PubKeyLookup string key_error
  | SignatureInvalid string
  | VaultRequired
  | VaultNotImplemented
  | PathRequired
  | FileUnreadable string
  | HexDecode string
  | PubKeySize nat string
  | RootKeyGeneration
  | RootPubKeyRequired
  | RootSigRequired
  | CipherInit
  | NonceFailed
  | CiphertextTooShort
  | OpenFailed
  | PreparePayload env_error
  | BuildSigStructureFailed cose_error
  | AssembleSign1 cose_error
  | SerializeFailed cose_error

text \<open>What generating one key reads: the key pair (public, private), the UUID and the clock.\<close>

record key_env =
  ke_pair :: "(bytes \<times> bytes) option"
  ke_uuid :: "uuid option"
  ke_now :: gotime

record 's Signer =
  sg_Sign :: "'s \<Rightarrow> string \<Rightarrow> bytes \<Rightarrow> key_error + bytes"
  sg_GetPubKey :: "'s \<Rightarrow> string \<Rightarrow> key_error + bytes"
  sg_GenerateKey :: "key_env \<Rightarrow> KeyPurpose \<Rightarrow> 's \<Rightarrow> (key_error + string \<times> bytes) \<times> 's"

record 's KeyManager =
  km_signer :: 's
  km_activeKeys :: "ActiveKeySet option"
  km_rootPubKey :: bytes
  km_allowedKids :: "string set"
  km_overlapKids :: "string set"


section \<open>The key manager\<close>

definition NewKeyManager :: "'s \<Rightarrow> bytes \<Rightarrow> 's KeyManager" where
  "NewKeyManager signer rootPubKey =
     \<lparr>km_signer = signer, km_activeKeys = None, km_rootPubKey = rootPubKey,
      km_allowedKids = {}, km_overlapKids = {}\<rparr>"

definition generateError :: "KeyPurpose \<Rightarrow> key_error \<Rightarrow> key_error" where
  "generateError purpose e = (if e = UuidPanic then UuidPanic else GenerateKeyFailed purpose e)"

definition freshVersion :: "gotime \<Rightarrow> string \<Rightarrow> KeyPurpose \<Rightarrow> bytes \<Rightarrow> KeyVersion" where
  "freshVersion now kid purpose pubKey =
     \<lparr>kv_Kid = kid, kv_Purpose = purpose, kv_PubKey = pubKey, kv_CreatedAt = now,
      kv_ActivatedAt = Some now, kv_RetiredAt = None\<rparr>"

lemma freshVersion_sel [simp]:
  "kv_Kid (freshVersion now kid purpose pub) = kid" "kv_PubKey (freshVersion now kid purpose pub) = pub"
  "kv_ActivatedAt (freshVersion now kid purpose pub) = Some now" "kv_RetiredAt (freshVersion now kid purpose pub) = None"
  "IsActive t (freshVersion now kid purpose pub)"
  by (simp_all add: freshVersion_def IsActive_def)

text \<open>The loop over the purposes; a failure leaves the keys and kids made so far.\<close>

fun initLoop ::
  "'s Signer \<Rightarrow> (KeyPurpose \<Rightarrow> key_env) \<Rightarrow> KeyPurpose list \<Rightarrow> ActiveKeySet \<Rightarrow> 's KeyManager
     \<Rightarrow> (key_error + ActiveKeySet) \<times> 's KeyManager" where
  "initLoop S env [] keySet km = (Inr keySet, km)"
| "initLoop S env (purpose # rest) keySet km =
    (case sg_GenerateKey S (env purpose) purpose (km_signer km) of
       (Inl e, sg) \<Rightarrow> (Inl (generateError purpose e), km\<lparr>km_signer := sg\<rparr>)
     | (Inr (kid, pubKey), sg) \<Rightarrow>
         initLoop S env rest
           (keySet\<lparr>ks_Keys := (ks_Keys keySet)(purpose \<mapsto> freshVersion (ke_now (env purpose)) kid purpose pubKey)\<rparr>)
           (km\<lparr>km_signer := sg, km_allowedKids := insert kid (km_allowedKids km)\<rparr>))"

definition Initialize ::
  "'s Signer \<Rightarrow> gotime \<Rightarrow> (KeyPurpose \<Rightarrow> key_env) \<Rightarrow> 's KeyManager
     \<Rightarrow> (key_error + ActiveKeySet) \<times> 's KeyManager" where
  "Initialize S now env km =
    (case initLoop S env AllPurposes \<lparr>ks_Keys = Map.empty, ks_RootSig = [], ks_IssuedAt = now\<rparr> km of
       (Inl e, km') \<Rightarrow> (Inl e, km')
     | (Inr keySet, km') \<Rightarrow> (Inr keySet, km'\<lparr>km_activeKeys := Some keySet\<rparr>))"

definition buildPubKeySetForSigning :: "prims \<Rightarrow> ActiveKeySet \<Rightarrow> bytes" where
  "buildPubKeySetForSigning P keySet =
     sha256 P (concat (map (\<lambda>purpose. case ks_Keys keySet purpose of
         Some kv \<Rightarrow> str_bytes (kv_Kid kv) @ kv_PubKey kv @ str_bytes purpose
       | None \<Rightarrow> []) AllPurposes))"

definition SignKeySet :: "prims \<Rightarrow> bytes \<Rightarrow> ActiveKeySet \<Rightarrow> bytes" where
  "SignKeySet P rootPriv keySet = ed25519_Sign P rootPriv (buildPubKeySetForSigning P keySet)"

definition VerifyKeySetSignature :: "prims \<Rightarrow> bytes \<Rightarrow> ActiveKeySet \<Rightarrow> bytes \<Rightarrow> bool" where
  "VerifyKeySetSignature P rootPub keySet sig =
     ed25519_Verify P rootPub (buildPubKeySetForSigning P keySet) sig"

definition verifyRootSig :: "prims \<Rightarrow> 's KeyManager \<Rightarrow> bytes \<Rightarrow> ActiveKeySet \<Rightarrow> key_error + unit" where
  "verifyRootSig P km sig keySet =
     reject (\<not> ed25519_Verify P (km_rootPubKey km) (buildPubKeySetForSigning P keySet) sig)
       InvalidRootSignature (Inr ())"

definition SetRootSignature :: "prims \<Rightarrow> bytes \<Rightarrow> 's KeyManager \<Rightarrow> (key_error + unit) \<times> 's KeyManager" where
  "SetRootSignature P keySetSig km =
    (case km_activeKeys km of
       None \<Rightarrow> (Inl NoActiveKeySet, km)
     | Some ks \<Rightarrow>
         (case verifyRootSig P km keySetSig ks of
            Inl e \<Rightarrow> (Inl e, km)
          | Inr _ \<Rightarrow> (Inr (), km\<lparr>km_activeKeys := Some (ks\<lparr>ks_RootSig := keySetSig\<rparr>)\<rparr>)))"

text \<open>The lookup that signing and \<open>GetPubKey\<close> share: the key of the purpose, if it is in use.\<close>

definition activeKey :: "gotime \<Rightarrow> KeyPurpose \<Rightarrow> 's KeyManager \<Rightarrow> key_error + KeyVersion" where
  "activeKey now purpose km =
     need (km_activeKeys km) NoActiveKeySet (\<lambda>ks.
     need (ks_Keys ks purpose) (NoActiveKey purpose) (\<lambda>kv.
     reject (\<not> IsActive now kv) (NoActiveKey purpose) (Inr kv)))"

definition SignWithPurpose ::
  "'s Signer \<Rightarrow> gotime \<Rightarrow> KeyPurpose \<Rightarrow> bytes \<Rightarrow> 's KeyManager \<Rightarrow> key_error + bytes \<times> string" where
  "SignWithPurpose S now purpose message km =
     attempt (activeKey now purpose km) (\<lambda>e. e) (\<lambda>kv.
     attempt (sg_Sign S (km_signer km) (kv_Kid kv) message) (SignFailed purpose) (\<lambda>sig.
     Inr (sig, kv_Kid kv)))"

definition GetPubKey :: "gotime \<Rightarrow> KeyPurpose \<Rightarrow> 's KeyManager \<Rightarrow> key_error + bytes \<times> string" where
  "GetPubKey now purpose km =
     attempt (activeKey now purpose km) (\<lambda>e. e) (\<lambda>kv. Inr (kv_PubKey kv, kv_Kid kv))"

definition VerifySignature ::
  "prims \<Rightarrow> 's Signer \<Rightarrow> string \<Rightarrow> bytes \<Rightarrow> bytes \<Rightarrow> 's KeyManager \<Rightarrow> key_error + unit" where
  "VerifySignature P S kid message signature km =
     reject (kid \<notin> km_allowedKids km) (KidNotAllowed kid) (
     attempt (sg_GetPubKey S (km_signer km) kid) (PubKeyLookup kid) (\<lambda>pubKey.
     reject (\<not> ed25519_Verify P pubKey message signature) (SignatureInvalid kid) (Inr ())))"

definition IsAllowedKid :: "string \<Rightarrow> 's KeyManager \<Rightarrow> bool" where
  "IsAllowedKid kid km \<longleftrightarrow> kid \<in> km_allowedKids km"

text \<open>
  The retired version is no longer in the set once the new one has replaced it, so its \<open>RetiredAt\<close>
  reaches only those who kept a pointer to it.
\<close>

definition RotateKey ::
  "'s Signer \<Rightarrow> key_env \<Rightarrow> KeyPurpose \<Rightarrow> 's KeyManager \<Rightarrow> (key_error + string) \<times> 's KeyManager" where
  "RotateKey S env purpose km =
    (case km_activeKeys km of
       None \<Rightarrow> (Inl NoActiveKeySet, km)
     | Some ks \<Rightarrow>
        (case sg_GenerateKey S env purpose (km_signer km) of
           (Inl e, sg) \<Rightarrow> (Inl (generateError purpose e), km\<lparr>km_signer := sg\<rparr>)
         | (Inr (newKid, pubKey), sg) \<Rightarrow>
            (Inr newKid,
             km\<lparr>km_signer := sg,
                km_overlapKids := (case ks_Keys ks purpose of
                    Some oldKV \<Rightarrow> insert (kv_Kid oldKV) (km_overlapKids km) | None \<Rightarrow> km_overlapKids km),
                km_activeKeys := Some (ks\<lparr>ks_Keys := (ks_Keys ks)(purpose \<mapsto>
                    freshVersion (ke_now env) newKid purpose pubKey)\<rparr>),
                km_allowedKids := insert newKid (km_allowedKids km)\<rparr>)))"

text \<open>\<open>clock\<close> is what the loop's own \<open>time.Now()\<close> reads when it reaches a kid.\<close>

definition RetireOverlapKeys ::
  "gotime \<Rightarrow> (string \<Rightarrow> gotime) \<Rightarrow> duration \<Rightarrow> 's KeyManager \<Rightarrow> 's KeyManager" where
  "RetireOverlapKeys now clock maxGrantTTL km =
    (let cutoff = now + wrap64 (- maxGrantTTL);
         removed = {kid \<in> km_overlapKids km. \<not> clock kid > cutoff}
     in km\<lparr>km_overlapKids := km_overlapKids km - removed, km_allowedKids := km_allowedKids km - removed\<rparr>)"

definition GetActiveKeySet :: "'s KeyManager \<Rightarrow> ActiveKeySet option" where
  "GetActiveKeySet km = km_activeKeys km"

definition NewRootKey :: "prims \<Rightarrow> (bytes \<times> bytes) option \<Rightarrow> key_error + bytes \<times> bytes \<times> string" where
  "NewRootKey P rnd =
     need rnd RootKeyGeneration (\<lambda>(pub, priv). Inr (pub, priv, hex_bytes (sha256 P pub)))"


section \<open>The in-memory signer\<close>

record InMemorySigner =
  ims_keys :: "string \<rightharpoonup> bytes"
  ims_pubKeys :: "string \<rightharpoonup> bytes"

definition NewInMemorySigner :: InMemorySigner where
  "NewInMemorySigner = \<lparr>ims_keys = Map.empty, ims_pubKeys = Map.empty\<rparr>"

definition inMemory_Sign :: "prims \<Rightarrow> InMemorySigner \<Rightarrow> string \<Rightarrow> bytes \<Rightarrow> key_error + bytes" where
  "inMemory_Sign P s kid message =
     need (ims_keys s kid) (UnknownKid kid) (\<lambda>priv. Inr (ed25519_Sign P priv message))"

definition inMemory_GetPubKey :: "InMemorySigner \<Rightarrow> string \<Rightarrow> key_error + bytes" where
  "inMemory_GetPubKey s kid = need (ims_pubKeys s kid) (UnknownKid kid) Inr"

definition newKid :: "prims \<Rightarrow> KeyPurpose \<Rightarrow> uuid \<Rightarrow> string" where
  "newKid P purpose u = purpose @ ''-'' @ take 8 (uuid_String P u)"

definition inMemory_GenerateKey ::
  "prims \<Rightarrow> key_env \<Rightarrow> KeyPurpose \<Rightarrow> InMemorySigner \<Rightarrow> (key_error + string \<times> bytes) \<times> InMemorySigner" where
  "inMemory_GenerateKey P env purpose s =
    (case ke_pair env of
       None \<Rightarrow> (Inl EntropyFailed, s)
     | Some (pub, priv) \<Rightarrow>
        (case ke_uuid env of
           None \<Rightarrow> (Inl UuidPanic, s)
         | Some u \<Rightarrow>
             (Inr (newKid P purpose u, pub),
              s\<lparr>ims_keys := (ims_keys s)(newKid P purpose u \<mapsto> priv),
                ims_pubKeys := (ims_pubKeys s)(newKid P purpose u \<mapsto> pub)\<rparr>)))"

definition inMemorySigner :: "prims \<Rightarrow> InMemorySigner Signer" where
  "inMemorySigner P =
     \<lparr>sg_Sign = inMemory_Sign P, sg_GetPubKey = inMemory_GetPubKey, sg_GenerateKey = inMemory_GenerateKey P\<rparr>"

definition NewSignerForMode :: "bool \<Rightarrow> string \<Rightarrow> key_error + InMemorySigner" where
  "NewSignerForMode devMode vaultAddr =
     (if devMode then Inr NewInMemorySigner
      else reject (vaultAddr = []) VaultRequired (Inl VaultNotImplemented))"


section \<open>The in-memory envelope encrypter\<close>

record InMemoryEncrypter =
  ie_keys :: "uuid \<rightharpoonup> bytes"

text \<open>The random bytes a call may read: the data key of a new tenant and the nonce.\<close>

record enc_env =
  ee_key :: "bytes option"
  ee_nonce :: "bytes option"

definition NewInMemoryEncrypter :: InMemoryEncrypter where
  "NewInMemoryEncrypter = \<lparr>ie_keys = Map.empty\<rparr>"

definition getOrCreateKey ::
  "enc_env \<Rightarrow> uuid \<Rightarrow> InMemoryEncrypter \<Rightarrow> (key_error + bytes) \<times> InMemoryEncrypter" where
  "getOrCreateKey env tenantID e =
    (case ie_keys e tenantID of
       Some key \<Rightarrow> (Inr key, e)
     | None \<Rightarrow>
        (case ee_key env of
           None \<Rightarrow> (Inl EntropyFailed, e)
         | Some key \<Rightarrow> (Inr key, e\<lparr>ie_keys := (ie_keys e)(tenantID \<mapsto> key)\<rparr>)))"

definition sealTenant :: "aead \<Rightarrow> enc_env \<Rightarrow> bytes \<Rightarrow> bytes \<Rightarrow> key_error + bytes" where
  "sealTenant A env plaintext key =
     reject (\<not> aesKeyOK key) CipherInit (
     need (ee_nonce env) NonceFailed (\<lambda>nonce.
     Inr (nonce @ gcm_Seal A key nonce plaintext)))"

definition openTenant :: "aead \<Rightarrow> bytes \<Rightarrow> bytes \<Rightarrow> key_error + bytes" where
  "openTenant A ciphertext key =
     reject (\<not> aesKeyOK key) CipherInit (
     reject (length ciphertext < nonceSize) CiphertextTooShort (
     need (gcm_Open A key (take nonceSize ciphertext) (drop nonceSize ciphertext)) OpenFailed Inr))"

definition Encrypt ::
  "aead \<Rightarrow> enc_env \<Rightarrow> uuid \<Rightarrow> bytes \<Rightarrow> InMemoryEncrypter \<Rightarrow> (key_error + bytes) \<times> InMemoryEncrypter" where
  "Encrypt A env tenantID plaintext e =
    (case getOrCreateKey env tenantID e of
       (Inl x, e') \<Rightarrow> (Inl x, e')
     | (Inr key, e') \<Rightarrow> (sealTenant A env plaintext key, e'))"

definition Decrypt ::
  "aead \<Rightarrow> enc_env \<Rightarrow> uuid \<Rightarrow> bytes \<Rightarrow> InMemoryEncrypter \<Rightarrow> (key_error + bytes) \<times> InMemoryEncrypter" where
  "Decrypt A env tenantID ciphertext e =
    (case getOrCreateKey env tenantID e of
       (Inl x, e') \<Rightarrow> (Inl x, e')
     | (Inr key, e') \<Rightarrow> (openTenant A ciphertext key, e'))"

definition NewEncrypterForMode :: "bool \<Rightarrow> string \<Rightarrow> key_error + InMemoryEncrypter" where
  "NewEncrypterForMode devMode vaultAddr =
     (if devMode then Inr NewInMemoryEncrypter
      else reject (vaultAddr = []) VaultRequired (Inl VaultNotImplemented))"

definition InitCrypto :: "bool \<Rightarrow> string \<Rightarrow> key_error + InMemorySigner \<times> InMemoryEncrypter" where
  "InitCrypto devMode vaultAddr =
     attempt (NewSignerForMode devMode vaultAddr) (\<lambda>e. e) (\<lambda>signer.
     attempt (NewEncrypterForMode devMode vaultAddr) (\<lambda>e. e) (\<lambda>enc.
     Inr (signer, enc)))"


section \<open>Root key and root signature files\<close>

text \<open>
  \<open>strings.TrimSpace\<close>: the UTF-8 encodings of the code points with the property White Space are cut
  from both ends.
\<close>

definition isSpaceSeq :: "bytes \<Rightarrow> bool" where
  "isSpaceSeq bs \<longleftrightarrow>
     bs \<in> {[9], [10], [11], [12], [13], [32], [0xC2, 0x85], [0xC2, 0xA0], [0xE1, 0x9A, 0x80],
           [0xE2, 0x80, 0xA8], [0xE2, 0x80, 0xA9], [0xE2, 0x80, 0xAF], [0xE2, 0x81, 0x9F], [0xE3, 0x80, 0x80]} \<or>
     (length bs = 3 \<and> take 2 bs = [0xE2, 0x80] \<and> 0x80 \<le> bs ! 2 \<and> bs ! 2 \<le> 0x8A)"

definition spacePrefix :: "bytes \<Rightarrow> nat" where
  "spacePrefix bs = (case find (\<lambda>n. isSpaceSeq (take n bs)) [1, 2, 3] of Some n \<Rightarrow> n | None \<Rightarrow> 0)"

definition spaceSuffix :: "bytes \<Rightarrow> nat" where
  "spaceSuffix bs =
     (case find (\<lambda>n. n \<le> length bs \<and> isSpaceSeq (drop (length bs - n) bs)) [1, 2, 3] of Some n \<Rightarrow> n | None \<Rightarrow> 0)"

lemma not_isSpaceSeq_Nil [simp]: "\<not> isSpaceSeq []"
  by (simp add: isSpaceSeq_def)

function trimLeft :: "bytes \<Rightarrow> bytes" where
  "trimLeft bs = (if bs = [] \<or> spacePrefix bs = 0 then bs else trimLeft (drop (spacePrefix bs) bs))"
  by pat_completeness auto
termination by (relation "measure length") auto

function trimRight :: "bytes \<Rightarrow> bytes" where
  "trimRight bs =
     (if bs = [] \<or> spaceSuffix bs = 0 then bs else trimRight (take (length bs - spaceSuffix bs) bs))"
  by pat_completeness auto
termination by (relation "measure length") auto

declare trimLeft.simps [simp del] trimRight.simps [simp del]

definition TrimSpace :: "bytes \<Rightarrow> bytes" where
  "TrimSpace bs = trimRight (trimLeft bs)"

text \<open>\<open>hex.DecodeString\<close>: pairs of digits in either case.\<close>

definition hexVal :: "byte \<Rightarrow> nat option" where
  "hexVal c =
     (if 48 \<le> unat c \<and> unat c \<le> 57 then Some (unat c - 48)
      else if 97 \<le> unat c \<and> unat c \<le> 102 then Some (unat c - 87)
      else if 65 \<le> unat c \<and> unat c \<le> 70 then Some (unat c - 55)
      else None)"

fun hexDecode :: "bytes \<Rightarrow> bytes option" where
  "hexDecode [] = Some []"
| "hexDecode [x] = None"
| "hexDecode (x # y # rest) =
    (case (hexVal x, hexVal y, hexDecode rest) of
       (Some h, Some l, Some bs) \<Rightarrow> Some (of_nat (16 * h + l) # bs)
     | _ \<Rightarrow> None)"

definition PublicKeySize :: nat where
  "PublicKeySize = 32"

definition LoadRootPubKey :: "prims \<Rightarrow> (string \<Rightarrow> bytes option) \<Rightarrow> string \<Rightarrow> key_error + bytes \<times> string" where
  "LoadRootPubKey P readFile path =
     reject (path = []) PathRequired (
     need (readFile path) (FileUnreadable path) (\<lambda>hexBytes.
     need (hexDecode (TrimSpace hexBytes)) (HexDecode path) (\<lambda>keyBytes.
     reject (length keyBytes \<noteq> PublicKeySize) (PubKeySize (length keyBytes) path) (
     Inr (keyBytes, hex_bytes (sha256 P keyBytes))))))"

definition LoadRootSignature ::
  "prims \<Rightarrow> (string \<Rightarrow> bytes option) \<Rightarrow> string \<Rightarrow> 's KeyManager \<Rightarrow> (key_error + unit) \<times> 's KeyManager" where
  "LoadRootSignature P readFile sigPath km =
     (if sigPath = [] then (Inl PathRequired, km)
      else case readFile sigPath of
        None \<Rightarrow> (Inl (FileUnreadable sigPath), km)
      | Some sig \<Rightarrow> SetRootSignature P sig km)"

section \<open>The contract of a signing backend\<close>

text \<open>
  What the manager relies on: a backend signs with the key whose public half it reports, generating a
  key makes it usable at once, touches no other kid, and gives it a kid that tells its purpose.
  \<open>ok\<close> is the backend's invariant and \<open>good\<close> what is asked of the entropy.
\<close>

locale signing_backend =
  fixes P :: prims and S :: "'s Signer" and ok :: "'s \<Rightarrow> bool" and good :: "key_env \<Rightarrow> bool"
    and owns :: "KeyPurpose \<Rightarrow> string \<Rightarrow> bool"
  assumes sign_verifies:
      "\<lbrakk>ok s; sg_Sign S s kid m = Inr sig\<rbrakk>
         \<Longrightarrow> \<exists>pub. sg_GetPubKey S s kid = Inr pub \<and> ed25519_Verify P pub m sig"
    and known_signs: "\<lbrakk>ok s; sg_GetPubKey S s kid = Inr pub\<rbrakk> \<Longrightarrow> \<exists>sig. sg_Sign S s kid m = Inr sig"
    and generate_ok: "\<lbrakk>ok s; good env; sg_GenerateKey S env p s = (r, s')\<rbrakk> \<Longrightarrow> ok s'"
    and generate_fails: "sg_GenerateKey S env p s = (Inl e, s') \<Longrightarrow> s' = s"
    and generate_known: "sg_GenerateKey S env p s = (Inr (kid, pub), s') \<Longrightarrow> sg_GetPubKey S s' kid = Inr pub"
    and generate_frame:
      "\<lbrakk>sg_GenerateKey S env p s = (Inr (kid, pub), s'); kid' \<noteq> kid\<rbrakk>
         \<Longrightarrow> sg_GetPubKey S s' kid' = sg_GetPubKey S s kid'"
    and generate_owned: "\<lbrakk>good env; sg_GenerateKey S env p s = (Inr (kid, pub), s')\<rbrakk> \<Longrightarrow> owns p kid"
    and owner_unique: "\<lbrakk>owns p kid; owns q kid\<rbrakk> \<Longrightarrow> p = q"

text \<open>The calls that change a manager after its start, and a sequence of them with the kids it generates.\<close>

datatype km_op =
    OpRotate key_env KeyPurpose
  | OpRetire gotime "string \<Rightarrow> gotime" duration
  | OpRootSig bytes

fun kmDo :: "prims \<Rightarrow> 's Signer \<Rightarrow> km_op \<Rightarrow> 's KeyManager \<Rightarrow> 's KeyManager \<times> string list" where
  "kmDo P S (OpRotate env p) km =
    (case RotateKey S env p km of (Inl e, km') \<Rightarrow> (km', []) | (Inr kid, km') \<Rightarrow> (km', [kid]))"
| "kmDo P S (OpRetire now clock ttl) km = (RetireOverlapKeys now clock ttl km, [])"
| "kmDo P S (OpRootSig sig) km = (snd (SetRootSignature P sig km), [])"

fun kmRun :: "prims \<Rightarrow> 's Signer \<Rightarrow> km_op list \<Rightarrow> 's KeyManager \<Rightarrow> 's KeyManager \<times> string list" where
  "kmRun P S [] km = (km, [])"
| "kmRun P S (opn # ops) km =
    (case kmDo P S opn km of (km1, ks1) \<Rightarrow> case kmRun P S ops km1 of (km2, ks2) \<Rightarrow> (km2, ks1 @ ks2))"

text \<open>A retirement reads a clock that does not run backwards and is given a positive lifetime.\<close>

definition opOK :: "(key_env \<Rightarrow> bool) \<Rightarrow> km_op \<Rightarrow> bool" where
  "opOK good opn =
    (case opn of
       OpRotate env p \<Rightarrow> good env
     | OpRetire now clock ttl \<Rightarrow> 0 < ttl \<and> inInt64 ttl \<and> (\<forall>kid. now \<le> clock kid)
     | OpRootSig sig \<Rightarrow> True)"

lemma RetireOverlapKeys_id:
  assumes "0 < ttl" "inInt64 ttl" "\<And>kid. now \<le> clock kid"
  shows "RetireOverlapKeys now clock ttl km = km"
proof -
  have "wrap64 (- ttl) = - ttl" using assms(1,2) by (simp add: inInt64_def)
  moreover have "\<not> clock kid \<le> now - ttl" for kid using assms(3) [of kid] assms(1) by linarith
  ultimately show ?thesis by (simp add: RetireOverlapKeys_def Let_def not_less)
qed

lemma SetRootSignature_frame:
  "SetRootSignature P sig km = (r, km') \<Longrightarrow>
     km_signer km' = km_signer km \<and> km_allowedKids km' = km_allowedKids km \<and>
     km_overlapKids km' = km_overlapKids km \<and>
     map_option ks_Keys (km_activeKeys km') = map_option ks_Keys (km_activeKeys km)"
  by (auto simp: SetRootSignature_def split: option.splits sum.splits)

context signing_backend
begin

text \<open>Every key of the active set is allowed, known to the backend under its public key, and bears its purpose's kid.\<close>

definition kmInv :: "'s KeyManager \<Rightarrow> bool" where
  "kmInv km \<longleftrightarrow>
     ok (km_signer km) \<and>
     (\<forall>ks p kv. km_activeKeys km = Some ks \<and> ks_Keys ks p = Some kv \<longrightarrow>
        kv_Kid kv \<in> km_allowedKids km \<and> sg_GetPubKey S (km_signer km) (kv_Kid kv) = Inr (kv_PubKey kv) \<and>
        owns p (kv_Kid kv))"

lemma VerifySignature_Inr:
  "VerifySignature P S kid m sig km = Inr () \<longleftrightarrow>
     kid \<in> km_allowedKids km \<and>
     (\<exists>pub. sg_GetPubKey S (km_signer km) kid = Inr pub \<and> ed25519_Verify P pub m sig)"
  by (auto simp: VerifySignature_def)

lemma signed_verifies:
  assumes "kmInv km" and "SignWithPurpose S now p m km = Inr (sig, kid)"
  shows "VerifySignature P S kid m sig km = Inr ()"
proof -
  obtain ks kv where k: "km_activeKeys km = Some ks" "ks_Keys ks p = Some kv" "kid = kv_Kid kv"
      "sg_Sign S (km_signer km) kid m = Inr sig"
    using assms(2) by (auto simp: SignWithPurpose_def activeKey_def)
  with assms(1) sign_verifies [of "km_signer km" kid m sig] show ?thesis
    unfolding VerifySignature_Inr kmInv_def by blast
qed

text \<open>The signature is one of the key that \<open>GetPubKey\<close> reports for the purpose.\<close>

lemma signed_under_reported_key:
  assumes "kmInv km" and "SignWithPurpose S now p m km = Inr (sig, kid)"
  shows "\<exists>pub. GetPubKey now p km = Inr (pub, kid) \<and> ed25519_Verify P pub m sig"
proof -
  obtain ks kv where k: "km_activeKeys km = Some ks" "ks_Keys ks p = Some kv" "kid = kv_Kid kv"
      "IsActive now kv" "sg_Sign S (km_signer km) kid m = Inr sig"
    using assms(2) by (auto simp: SignWithPurpose_def activeKey_def)
  have "sg_GetPubKey S (km_signer km) kid = Inr (kv_PubKey kv)"
    using assms(1) k(1-3) unfolding kmInv_def by blast
  moreover obtain pub where "sg_GetPubKey S (km_signer km) kid = Inr pub" "ed25519_Verify P pub m sig"
    using assms(1) k(5) sign_verifies [of "km_signer km" kid m sig] unfolding kmInv_def by blast
  ultimately show ?thesis using k by (simp add: GetPubKey_def activeKey_def)
qed

lemma active_signs:
  assumes "kmInv km" and "GetPubKey now p km = Inr (pub, kid)"
  shows "\<exists>sig. SignWithPurpose S now p m km = Inr (sig, kid)"
proof -
  obtain ks kv where k: "km_activeKeys km = Some ks" "ks_Keys ks p = Some kv" "kid = kv_Kid kv" "IsActive now kv"
    using assms(2) by (auto simp: GetPubKey_def activeKey_def)
  then obtain sig where "sg_Sign S (km_signer km) kid m = Inr sig"
    using assms(1) known_signs [of "km_signer km" kid "kv_PubKey kv" m] unfolding kmInv_def by blast
  with k show ?thesis by (simp add: SignWithPurpose_def activeKey_def)
qed

text \<open>Adding a generated key keeps the invariant: the other purposes' kids differ from the new one.\<close>

lemma kmInv_generate:
  assumes inv: "kmInv km" and "good env" and gen: "sg_GenerateKey S env p (km_signer km) = (Inr (kid, pub), sg)"
    and act: "\<And>ks' q kv. \<lbrakk>km_activeKeys km' = Some ks'; ks_Keys ks' q = Some kv\<rbrakk> \<Longrightarrow>
        q = p \<and> kv_Kid kv = kid \<and> kv_PubKey kv = pub \<or>
        q \<noteq> p \<and> (\<exists>ks. km_activeKeys km = Some ks \<and> ks_Keys ks q = Some kv)"
    and rest: "km_signer km' = sg" "km_allowedKids km' = insert kid (km_allowedKids km)"
  shows "kmInv km'"
proof -
  have "ok sg" using inv assms(2) gen generate_ok unfolding kmInv_def by blast
  moreover have own: "owns p kid" using assms(2) gen by (rule generate_owned)
  have "kv_Kid kv \<in> insert kid (km_allowedKids km) \<and> sg_GetPubKey S sg (kv_Kid kv) = Inr (kv_PubKey kv) \<and> owns q (kv_Kid kv)"
    if a: "km_activeKeys km' = Some ks'" "ks_Keys ks' q = Some kv" for ks' q kv
    using act [OF a]
  proof (elim disjE conjE exE)
    assume "q = p" "kv_Kid kv = kid" "kv_PubKey kv = pub"
    then show ?thesis using own generate_known [OF gen] by simp
  next
    fix ks assume q: "q \<noteq> p" "km_activeKeys km = Some ks" "ks_Keys ks q = Some kv"
    then have i: "kv_Kid kv \<in> km_allowedKids km"
        "sg_GetPubKey S (km_signer km) (kv_Kid kv) = Inr (kv_PubKey kv)" "owns q (kv_Kid kv)"
      using inv unfolding kmInv_def by blast+
    then have "kv_Kid kv \<noteq> kid" using own q(1) owner_unique by blast
    with i show ?thesis by (simp add: generate_frame [OF gen])
  qed
  ultimately show ?thesis unfolding kmInv_def rest by blast
qed

lemma kmInv_RotateKey:
  assumes "kmInv km" "good env" "RotateKey S env p km = (r, km')"
  shows "kmInv km'"
proof (cases "km_activeKeys km")
  case (Some ks)
  obtain r0 sg where g: "sg_GenerateKey S env p (km_signer km) = (r0, sg)" by fastforce
  show ?thesis
  proof (cases r0)
    case (Inl e)
    with g generate_fails [of env p "km_signer km" e sg] assms Some show ?thesis
      by (auto simp: RotateKey_def)
  next
    case (Inr kp)
    obtain kid pub where [simp]: "kp = (kid, pub)" by fastforce
    have g': "sg_GenerateKey S env p (km_signer km) = (Inr (kid, pub), sg)" using g Inr by simp
    show ?thesis
      by (rule kmInv_generate [OF assms(1,2) g'])
        (use assms(3) Some g' in \<open>auto simp: RotateKey_def freshVersion_sel split: if_splits\<close>)
  qed
qed (use assms in \<open>auto simp: RotateKey_def\<close>)

lemma kmInv_cong:
  assumes "kmInv km" "km_signer km' = km_signer km" "km_allowedKids km' = km_allowedKids km"
    "map_option ks_Keys (km_activeKeys km') = map_option ks_Keys (km_activeKeys km)"
  shows "kmInv km'"
  using assms unfolding kmInv_def by (cases "km_activeKeys km"; cases "km_activeKeys km'") auto

lemma kmInv_do: "\<lbrakk>kmInv km; opOK good opn; kmDo P S opn km = (km', ks)\<rbrakk> \<Longrightarrow> kmInv km'"
proof (cases opn)
  case (OpRotate env p)
  assume "kmInv km" "opOK good opn" "kmDo P S opn km = (km', ks)"
  with OpRotate kmInv_RotateKey [of km env p] show ?thesis
    by (auto simp: opOK_def split: prod.splits sum.splits)
next
  case (OpRetire now clock ttl)
  assume "kmInv km" "opOK good opn" "kmDo P S opn km = (km', ks)"
  with OpRetire show ?thesis by (auto simp: opOK_def RetireOverlapKeys_id)
next
  case (OpRootSig sig)
  assume a: "kmInv km" "opOK good opn" "kmDo P S opn km = (km', ks)"
  obtain r where "SetRootSignature P sig km = (r, km')" using a(3) OpRootSig by (cases "SetRootSignature P sig km") auto
  then show ?thesis using SetRootSignature_frame [of P sig km r km'] kmInv_cong [OF a(1)] by simp
qed

lemma kmInv_run: "\<lbrakk>kmInv km; \<forall>opn \<in> set ops. opOK good opn; kmRun P S ops km = (km', ks)\<rbrakk> \<Longrightarrow> kmInv km'"
  by (induction ops arbitrary: km km' ks) (auto split: prod.splits dest: kmInv_do)

text \<open>A signature that verifies keeps verifying while no generated key takes its kid.\<close>

lemma verifies_do:
  assumes "VerifySignature P S kid m sig km = Inr ()" and "opOK good opn"
    and "kmDo P S opn km = (km', ks)" and "kid \<notin> set ks"
  shows "VerifySignature P S kid m sig km' = Inr ()"
proof (cases opn)
  case (OpRotate env p)
  show ?thesis
  proof (cases "km_activeKeys km")
    case None
    with assms(1,3) OpRotate show ?thesis by (simp add: RotateKey_def)
  next
    case (Some ks0)
    obtain r0 sg where g: "sg_GenerateKey S env p (km_signer km) = (r0, sg)" by fastforce
    show ?thesis
    proof (cases r0)
      case (Inl e)
      then have "sg = km_signer km" using g generate_fails by blast
      with assms(1,3) OpRotate Some g Inl show ?thesis by (auto simp: RotateKey_def)
    next
      case (Inr kp)
      obtain kid' pub where kp: "kp = (kid', pub)" by fastforce
      have g': "sg_GenerateKey S env p (km_signer km) = (Inr (kid', pub), sg)" using g Inr kp by simp
      have k: "km_signer km' = sg" "km_allowedKids km' = insert kid' (km_allowedKids km)" "kid \<noteq> kid'"
        using assms(3,4) OpRotate Some g' by (auto simp: RotateKey_def)
      show ?thesis
        using assms(1) generate_frame [OF g' k(3)] unfolding VerifySignature_Inr k(1,2) by auto
    qed
  qed
next
  case (OpRetire now clock ttl)
  with assms show ?thesis by (auto simp: opOK_def RetireOverlapKeys_id)
next
  case (OpRootSig sig')
  then obtain r where "SetRootSignature P sig' km = (r, km')"
    using assms(3) by (cases "SetRootSignature P sig' km") auto
  then have "km_signer km' = km_signer km" "km_allowedKids km' = km_allowedKids km"
    using SetRootSignature_frame by blast+
  with assms(1) show ?thesis unfolding VerifySignature_Inr by simp
qed

lemma verifies_run:
  "\<lbrakk>VerifySignature P S kid m sig km = Inr (); \<forall>opn \<in> set ops. opOK good opn;
    kmRun P S ops km = (km', ks); kid \<notin> set ks\<rbrakk> \<Longrightarrow> VerifySignature P S kid m sig km' = Inr ()"
proof (induction ops arbitrary: km km' ks)
  case (Cons opn ops)
  obtain km1 ks1 km2 ks2 where r: "kmDo P S opn km = (km1, ks1)" "kmRun P S ops km1 = (km2, ks2)" by fastforce
  have ks: "km' = km2" "ks = ks1 @ ks2" using Cons.prems(3) r by simp_all
  have "VerifySignature P S kid m sig km1 = Inr ()"
    by (rule verifies_do [OF Cons.prems(1) _ r(1)]) (use Cons.prems(2,4) ks in auto)
  from Cons.IH [OF this _ r(2)] show ?case using Cons.prems(2,4) ks by simp
qed simp

text \<open>A purpose with a key in use keeps one.\<close>

definition hasKey :: "KeyPurpose \<Rightarrow> 's KeyManager \<Rightarrow> bool" where
  "hasKey p km \<longleftrightarrow>
     (\<exists>ks kv. km_activeKeys km = Some ks \<and> ks_Keys ks p = Some kv \<and> kv_ActivatedAt kv \<noteq> None \<and> kv_RetiredAt kv = None)"

lemma hasKey_GetPubKey: "hasKey p km \<Longrightarrow> \<exists>pub kid. GetPubKey t p km = Inr (pub, kid)"
  by (fastforce simp: hasKey_def GetPubKey_def activeKey_def IsActive_def)

lemma hasKey_do: "\<lbrakk>hasKey p km; kmDo P S opn km = (km', ks)\<rbrakk> \<Longrightarrow> hasKey p km'"
  by (cases opn)
    (auto simp: hasKey_def RotateKey_def RetireOverlapKeys_def SetRootSignature_def Let_def
      split: prod.splits sum.splits option.splits)

lemma hasKey_run: "\<lbrakk>hasKey p km; kmRun P S ops km = (km', ks)\<rbrakk> \<Longrightarrow> hasKey p km'"
  by (induction ops arbitrary: km km' ks) (auto split: prod.splits dest: hasKey_do)

text \<open>Initialization fills the set purpose by purpose.\<close>

lemma kmInv_initLoop:
  "\<lbrakk>initLoop S env ps ks km = (r, km'); \<forall>p \<in> set ps. good (env p); kmInv (km\<lparr>km_activeKeys := Some ks\<rparr>)\<rbrakk> \<Longrightarrow>
     case r of Inl e \<Rightarrow> True | Inr ks' \<Rightarrow> kmInv (km'\<lparr>km_activeKeys := Some ks'\<rparr>) \<and>
       (\<forall>p \<in> set ps. \<exists>kv. ks_Keys ks' p = Some kv \<and> kv_ActivatedAt kv \<noteq> None \<and> kv_RetiredAt kv = None) \<and>
       (\<forall>p. p \<notin> set ps \<longrightarrow> ks_Keys ks' p = ks_Keys ks p)"
proof (induction ps arbitrary: ks km)
  case (Cons p ps)
  obtain r0 sg where g: "sg_GenerateKey S (env p) p (km_signer km) = (r0, sg)" by fastforce
  show ?case
  proof (cases r0)
    case (Inl e)
    with g Cons.prems(1) show ?thesis by auto
  next
    case (Inr kp)
    obtain kid pub where kp: "kp = (kid, pub)" by fastforce
    let ?kv = "freshVersion (ke_now (env p)) kid p pub"
    let ?ks = "ks\<lparr>ks_Keys := (ks_Keys ks)(p \<mapsto> ?kv)\<rparr>"
    let ?km = "km\<lparr>km_signer := sg, km_allowedKids := insert kid (km_allowedKids km)\<rparr>"
    have g': "sg_GenerateKey S (env p) p (km_signer (km\<lparr>km_activeKeys := Some ks\<rparr>)) = (Inr (kid, pub), sg)"
      using g Inr kp by simp
    have "kmInv (?km\<lparr>km_activeKeys := Some ?ks\<rparr>)"
      by (rule kmInv_generate [OF Cons.prems(3) _ g'])
        (use Cons.prems(2) in \<open>auto split: if_splits\<close>)
    moreover have "initLoop S env ps ?ks ?km = (r, km')" using Cons.prems(1) g Inr kp by simp
    ultimately have ih: "case r of Inl e \<Rightarrow> True | Inr ks' \<Rightarrow> kmInv (km'\<lparr>km_activeKeys := Some ks'\<rparr>) \<and>
        (\<forall>q \<in> set ps. \<exists>kv. ks_Keys ks' q = Some kv \<and> kv_ActivatedAt kv \<noteq> None \<and> kv_RetiredAt kv = None) \<and>
        (\<forall>q. q \<notin> set ps \<longrightarrow> ks_Keys ks' q = ks_Keys ?ks q)"
      using Cons.IH Cons.prems(2) by auto
    show ?thesis
    proof (cases r)
      case (Inr ks')
      have "\<exists>kv. ks_Keys ks' p = Some kv \<and> kv_ActivatedAt kv \<noteq> None \<and> kv_RetiredAt kv = None"
        using ih Inr by (cases "p \<in> set ps") simp_all
      with ih Inr show ?thesis by auto
    qed simp
  qed
qed auto

lemma Initialize_inv:
  assumes "Initialize S now env (NewKeyManager sg root) = (Inr ks, km)" and "ok sg"
    and "\<forall>p \<in> set AllPurposes. good (env p)"
  shows "kmInv km" "\<And>p. p \<in> set AllPurposes \<Longrightarrow> hasKey p km"
proof -
  let ?ks = "\<lparr>ks_Keys = Map.empty, ks_RootSig = [], ks_IssuedAt = now\<rparr>"
  obtain r km0 where l: "initLoop S env AllPurposes ?ks (NewKeyManager sg root) = (r, km0)" by fastforce
  have i: "kmInv ((NewKeyManager sg root)\<lparr>km_activeKeys := Some ?ks\<rparr>)"
    using assms(2) by (simp add: kmInv_def NewKeyManager_def)
  have r: "r = Inr ks" "km = km0\<lparr>km_activeKeys := Some ks\<rparr>"
    using assms(1) l by (auto simp: Initialize_def split: sum.splits)
  have f: "kmInv (km0\<lparr>km_activeKeys := Some ks\<rparr>) \<and>
      (\<forall>p \<in> set AllPurposes. \<exists>kv. ks_Keys ks p = Some kv \<and> kv_ActivatedAt kv \<noteq> None \<and> kv_RetiredAt kv = None)"
    using kmInv_initLoop [OF l assms(3) i] r by simp
  then show "kmInv km" using r by simp
  show "hasKey p km" if "p \<in> set AllPurposes" for p
    using f that r by (auto simp: hasKey_def)
qed

end


section \<open>The in-memory signer keeps the contract\<close>

fun halvesMatch :: "prims \<Rightarrow> bytes option \<Rightarrow> bytes option \<Rightarrow> bool" where
  "halvesMatch P None None = True"
| "halvesMatch P (Some priv) (Some pub) = key_pair P pub priv"
| "halvesMatch P _ _ = False"

definition ims_ok :: "prims \<Rightarrow> InMemorySigner \<Rightarrow> bool" where
  "ims_ok P s \<longleftrightarrow> (\<forall>kid. halvesMatch P (ims_keys s kid) (ims_pubKeys s kid))"

lemma ims_ok_cases:
  assumes "ims_ok P s"
  obtains "ims_keys s kid = None" "ims_pubKeys s kid = None"
  | priv pub where "ims_keys s kid = Some priv" "ims_pubKeys s kid = Some pub" "key_pair P pub priv"
  using assms [unfolded ims_ok_def, THEN spec [of _ kid]] by (cases rule: halvesMatch.elims(2)) auto

text \<open>\<open>ed25519.GenerateKey\<close> returns a matching pair; the text of a UUID has 36 characters.\<close>

definition goodEntropy :: "prims \<Rightarrow> key_env \<Rightarrow> bool" where
  "goodEntropy P env \<longleftrightarrow>
     (case ke_pair env of Some (pub, priv) \<Rightarrow> key_pair P pub priv | None \<Rightarrow> True) \<and>
     (case ke_uuid env of Some u \<Rightarrow> length (uuid_String P u) = 36 | None \<Rightarrow> True)"

definition kidOfPurpose :: "KeyPurpose \<Rightarrow> string \<Rightarrow> bool" where
  "kidOfPurpose p kid \<longleftrightarrow> take (length kid - 9) kid = p \<and> 9 \<le> length kid"

lemma inMemory_generate:
  "inMemory_GenerateKey P env p s = (Inr (kid, pub), s') \<longleftrightarrow>
     (\<exists>priv u. ke_pair env = Some (pub, priv) \<and> ke_uuid env = Some u \<and> kid = newKid P p u \<and>
        s' = s\<lparr>ims_keys := (ims_keys s)(kid \<mapsto> priv), ims_pubKeys := (ims_pubKeys s)(kid \<mapsto> pub)\<rparr>)"
  by (auto simp: inMemory_GenerateKey_def split: option.splits)

lemma inMemorySigner_sel [simp]:
  "sg_Sign (inMemorySigner P) = inMemory_Sign P"
  "sg_GetPubKey (inMemorySigner P) = inMemory_GetPubKey"
  "sg_GenerateKey (inMemorySigner P) = inMemory_GenerateKey P"
  by (simp_all add: inMemorySigner_def)

lemma ims_ok_generate:
  assumes "ims_ok P s" "goodEntropy P env" "inMemory_GenerateKey P env p s = (r, s')"
  shows "ims_ok P s'"
proof (cases r)
  case (Inl e)
  with assms show ?thesis by (auto simp: inMemory_GenerateKey_def split: option.splits)
next
  case (Inr kp)
  with assms show ?thesis
    by (cases kp) (auto simp: inMemory_generate ims_ok_def goodEntropy_def split: if_splits)
qed

interpretation ims: signing_backend P "inMemorySigner P" "ims_ok P" "goodEntropy P" kidOfPurpose for P
proof
  show "\<exists>pub. sg_GetPubKey (inMemorySigner P) s kid = Inr pub \<and> ed25519_Verify P pub m sig"
    if "ims_ok P s" "sg_Sign (inMemorySigner P) s kid m = Inr sig" for s kid m sig
    by (rule ims_ok_cases [OF that(1), of kid])
      (use that(2) in \<open>auto simp: inMemory_Sign_def inMemory_GetPubKey_def key_pair_def\<close>)
  show "\<exists>sig. sg_Sign (inMemorySigner P) s kid m = Inr sig"
    if "ims_ok P s" "sg_GetPubKey (inMemorySigner P) s kid = Inr pub" for s kid pub m
    by (rule ims_ok_cases [OF that(1), of kid])
      (use that(2) in \<open>auto simp: inMemory_Sign_def inMemory_GetPubKey_def\<close>)
  show "ims_ok P s'" if "ims_ok P s" "goodEntropy P env" "sg_GenerateKey (inMemorySigner P) env p s = (r, s')"
    for s env p r s'
    using that ims_ok_generate [of P s env p r s'] by simp
  show "s' = s" if "sg_GenerateKey (inMemorySigner P) env p s = (Inl e, s')" for env p s e s'
    using that by (auto simp: inMemory_GenerateKey_def split: option.splits)
  show "sg_GetPubKey (inMemorySigner P) s' kid = Inr pub"
    if "sg_GenerateKey (inMemorySigner P) env p s = (Inr (kid, pub), s')" for env p s kid pub s'
    using that by (auto simp: inMemory_generate inMemory_GetPubKey_def)
  show "sg_GetPubKey (inMemorySigner P) s' kid' = sg_GetPubKey (inMemorySigner P) s kid'"
    if "sg_GenerateKey (inMemorySigner P) env p s = (Inr (kid, pub), s')" "kid' \<noteq> kid" for env p s kid pub s' kid'
    using that by (auto simp: inMemory_generate inMemory_GetPubKey_def need_def)
  show "kidOfPurpose p kid"
    if "goodEntropy P env" "sg_GenerateKey (inMemorySigner P) env p s = (Inr (kid, pub), s')" for env p s kid pub s'
    using that by (auto simp: inMemory_generate kidOfPurpose_def newKid_def goodEntropy_def)
  show "p = q" if "kidOfPurpose p kid" "kidOfPurpose q kid" for p q kid
    using that by (simp add: kidOfPurpose_def)
qed

lemma ims_ok_new [simp]: "ims_ok P NewInMemorySigner"
  by (simp add: ims_ok_def NewInMemorySigner_def)

text \<open>With entropy for every purpose the in-memory signer never fails.\<close>

lemma initLoop_succeeds:
  "(\<And>p. p \<in> set ps \<Longrightarrow> ke_pair (env p) \<noteq> None \<and> ke_uuid (env p) \<noteq> None) \<Longrightarrow>
     \<exists>ks' km'. initLoop (inMemorySigner P) env ps ks km = (Inr ks', km')"
proof (induction ps arbitrary: ks km)
  case (Cons p ps)
  obtain pub priv u where "ke_pair (env p) = Some (pub, priv)" "ke_uuid (env p) = Some u"
    using Cons.prems [of p] by auto
  then show ?case using Cons by (simp add: inMemory_GenerateKey_def)
qed simp


section \<open>Properties of the key manager\<close>

text \<open>
  A key manager on the in-memory signer that is given entropy for every purpose starts; after any
  sequence of rotations, retirements and root signatures it signs for each purpose, and the signature
  verifies under the kid returned with it and under the public key that \<open>GetPubKey\<close> reports.
\<close>

theorem started_manager_signs:
  assumes "\<forall>p \<in> set AllPurposes. goodEntropy P (env p) \<and> ke_pair (env p) \<noteq> None \<and> ke_uuid (env p) \<noteq> None"
    and "\<forall>opn \<in> set ops. opOK (goodEntropy P) opn" and "purpose \<in> set AllPurposes"
  shows "\<exists>ks km0 pub kid sig.
    Initialize (inMemorySigner P) t0 env (NewKeyManager NewInMemorySigner root) = (Inr ks, km0) \<and>
    (let km = fst (kmRun P (inMemorySigner P) ops km0) in
       GetPubKey t purpose km = Inr (pub, kid) \<and>
       SignWithPurpose (inMemorySigner P) t purpose m km = Inr (sig, kid) \<and>
       VerifySignature P (inMemorySigner P) kid m sig km = Inr () \<and> ed25519_Verify P pub m sig)"
proof -
  obtain ks km0 where i: "Initialize (inMemorySigner P) t0 env (NewKeyManager NewInMemorySigner root) = (Inr ks, km0)"
    using initLoop_succeeds [of AllPurposes env P "\<lparr>ks_Keys = Map.empty, ks_RootSig = [], ks_IssuedAt = t0\<rparr>"
        "NewKeyManager NewInMemorySigner root"] assms(1)
    by (auto simp: Initialize_def)
  have g: "\<forall>p \<in> set AllPurposes. goodEntropy P (env p)" using assms(1) by blast
  obtain km kids where r: "kmRun P (inMemorySigner P) ops km0 = (km, kids)" by fastforce
  have inv: "ims.kmInv P km"
    using ims.kmInv_run [OF ims.Initialize_inv(1) [OF i ims_ok_new g] assms(2) r] .
  obtain pub kid where k: "GetPubKey t purpose km = Inr (pub, kid)"
    using ims.hasKey_GetPubKey [OF ims.hasKey_run [OF ims.Initialize_inv(2) [OF i ims_ok_new g assms(3)] r]] by blast
  obtain sig where s: "SignWithPurpose (inMemorySigner P) t purpose m km = Inr (sig, kid)"
    using ims.active_signs [OF inv k] by blast
  show ?thesis
    using i r k s ims.signed_verifies [OF inv s] ims.signed_under_reported_key [OF inv s] by auto
qed

text \<open>The calls of a manager that retires nothing; a key is generated as a pair that fits.\<close>

definition rotationOp :: "prims \<Rightarrow> km_op \<Rightarrow> bool" where
  "rotationOp P opn = (case opn of OpRotate env p \<Rightarrow> goodEntropy P env | OpRetire t clock ttl \<Rightarrow> False | OpRootSig sig \<Rightarrow> True)"

text \<open>
  C32: The overlap window opens: while no key is retired, a signature that a started manager made still
  verifies after any number of rotations and root signatures, provided that key generation delivers
  matching pairs and that no key generated since was given the same kid. (That the window is meant to
  close and does not is a matter of retirement, below.)
\<close>

theorem rotation_keeps_signatures:
  assumes "Initialize (inMemorySigner P) t0 env (NewKeyManager NewInMemorySigner root) = (Inr ks, km0)"
    and "\<forall>p \<in> set AllPurposes. goodEntropy P (env p)"
    and "list_all (rotationOp P) (before @ after)"
    and "kmRun P (inMemorySigner P) before km0 = (km1, kids1)"
    and "SignWithPurpose (inMemorySigner P) t purpose m km1 = Inr (sig, kid)"
    and "kmRun P (inMemorySigner P) after km1 = (km2, kids2)" and "kid \<notin> set kids2"
  shows "VerifySignature P (inMemorySigner P) kid m sig km2 = Inr ()"
proof -
  have ok: "\<forall>opn \<in> set (before @ after). opOK (goodEntropy P) opn"
    using assms(3) by (auto simp: list_all_iff opOK_def rotationOp_def split: km_op.splits)
  then have "ims.kmInv P km1"
    using ims.kmInv_run [OF ims.Initialize_inv(1) [OF assms(1) ims_ok_new assms(2)] _ assms(4)] by simp
  from ims.verifies_run [OF ims.signed_verifies [OF this assms(5)] _ assms(6,7)] ok show ?thesis by simp
qed

text \<open>
  A rotation that generates the kid of the key it replaces leaves only the new key under it: a
  signature of the old key is then judged by the new public key, although the kid stays allowed. The
  kid carries the first eight characters of a version 7 UUID, the upper bits of its timestamp, so two
  keys of a purpose made within about a minute share it.
\<close>

theorem rotation_with_same_kid:
  assumes "km_activeKeys km = Some ks" and "ke_pair env = Some (pub, priv)" and "ke_uuid env = Some u"
    and "take 8 (uuid_String P u) = take 8 (uuid_String P v)"
  shows "VerifySignature P (inMemorySigner P) (newKid P purpose v) m sig
           (snd (RotateKey (inMemorySigner P) env purpose km)) =
         (if ed25519_Verify P pub m sig then Inr () else Inl (SignatureInvalid (newKid P purpose v)))"
proof -
  have "newKid P purpose u = newKid P purpose v" using assms(4) by (simp add: newKid_def)
  then show ?thesis
    using assms by (simp add: RotateKey_def inMemory_GenerateKey_def VerifySignature_def inMemory_GetPubKey_def reject_def)
qed

text \<open>
  What a successful rotation does: the purpose's key is the new one and is used at once, its old
  kid enters the overlap window and stays allowed, the other purposes keep their keys, and the root
  signature is kept although it was made over the old set.
\<close>

theorem RotateKey_effect:
  assumes "RotateKey S env purpose km = (Inr kid, km')"
  shows "\<exists>ks pub sg. km_activeKeys km = Some ks \<and>
    sg_GenerateKey S env purpose (km_signer km) = (Inr (kid, pub), sg) \<and> km_signer km' = sg \<and>
    GetPubKey t purpose km' = Inr (pub, kid) \<and>
    (\<forall>kv. ks_Keys ks purpose = Some kv \<longrightarrow> kv_Kid kv \<in> km_overlapKids km') \<and>
    km_allowedKids km' = insert kid (km_allowedKids km) \<and>
    (\<forall>q. q \<noteq> purpose \<longrightarrow> GetPubKey t q km' = GetPubKey t q km) \<and>
    map_option ks_RootSig (km_activeKeys km') = Some (ks_RootSig ks)"
proof -
  obtain ks pub sg where k: "km_activeKeys km = Some ks"
      "sg_GenerateKey S env purpose (km_signer km) = (Inr (kid, pub), sg)"
    using assms by (auto simp: RotateKey_def split: option.splits prod.splits sum.splits)
  with assms show ?thesis
    by (auto simp: RotateKey_def GetPubKey_def activeKey_def need_def)
qed

text \<open>
  Retirement with a positive lifetime, on a clock that does not run backwards, removes nothing:
  a rotated key stays in the overlap window and in the allowlist for ever.
\<close>

theorem RetireOverlapKeys_keeps_all:
  assumes "0 < maxGrantTTL" "inInt64 maxGrantTTL" "\<And>kid. now \<le> clock kid"
  shows "RetireOverlapKeys now clock maxGrantTTL km = km"
  using assms by (rule RetireOverlapKeys_id)

text \<open>
  A root signature is recorded exactly when it verifies under the manager's root key over the
  current key set; otherwise nothing changes.
\<close>

theorem SetRootSignature_trusted:
  "SetRootSignature P sig km =
    (case km_activeKeys km of
       None \<Rightarrow> (Inl NoActiveKeySet, km)
     | Some ks \<Rightarrow>
        if VerifyKeySetSignature P (km_rootPubKey km) ks sig
        then (Inr (), km\<lparr>km_activeKeys := Some (ks\<lparr>ks_RootSig := sig\<rparr>)\<rparr>)
        else (Inl InvalidRootSignature, km))"
  by (auto simp: SetRootSignature_def verifyRootSig_def VerifyKeySetSignature_def reject_def split: option.splits)


section \<open>Properties of the envelope encrypter\<close>

text \<open>A tenant's data key never changes once it exists.\<close>

lemma getOrCreateKey_known:
  "getOrCreateKey env T e = (Inr key, e') \<Longrightarrow> ie_keys e' T = Some key"
  by (auto simp: getOrCreateKey_def split: option.splits)

lemma getOrCreateKey_keeps:
  "ie_keys e T = Some key \<Longrightarrow> ie_keys (snd (getOrCreateKey env U e)) T = Some key"
  by (auto simp: getOrCreateKey_def split: option.splits)

lemma snd_Encrypt: "snd (Encrypt A env T m e) = snd (getOrCreateKey env T e)"
  by (auto simp: Encrypt_def split: prod.splits sum.splits)

lemma snd_Decrypt: "snd (Decrypt A env T c e) = snd (getOrCreateKey env T e)"
  by (auto simp: Decrypt_def split: prod.splits sum.splits)

datatype enc_op = OpEncrypt enc_env uuid bytes | OpDecrypt enc_env uuid bytes

fun encDo :: "aead \<Rightarrow> InMemoryEncrypter \<Rightarrow> enc_op \<Rightarrow> InMemoryEncrypter" where
  "encDo A e (OpEncrypt env T m) = snd (Encrypt A env T m e)"
| "encDo A e (OpDecrypt env T c) = snd (Decrypt A env T c e)"

lemma encRun_keeps: "ie_keys e T = Some key \<Longrightarrow> ie_keys (foldl (encDo A) e ops) T = Some key"
proof (induction ops arbitrary: e)
  case (Cons opn ops)
  then show ?case by (cases opn) (simp_all add: snd_Encrypt snd_Decrypt getOrCreateKey_keeps)
qed simp

text \<open>
  What \<open>Encrypt\<close> made for a tenant \<open>Decrypt\<close> opens for that tenant, after any calls for any
  tenants in between, in the same process.
\<close>

theorem Encrypt_Decrypt_roundtrip:
  assumes "aead_opens A" and "\<And>n. ee_nonce env = Some n \<Longrightarrow> length n = nonceSize"
    and "Encrypt A env T m e = (Inr c, e')"
  shows "fst (Decrypt A env' T c (foldl (encDo A) e' ops)) = Inr m"
proof -
  obtain key where k: "getOrCreateKey env T e = (Inr key, e')" "sealTenant A env m key = Inr c"
    using assms(3) by (auto simp: Encrypt_def split: prod.splits sum.splits)
  obtain n where n: "ee_nonce env = Some n" "c = n @ gcm_Seal A key n m" "aesKeyOK key"
    using k(2) by (auto simp: sealTenant_def)
  have "ie_keys (foldl (encDo A) e' ops) T = Some key"
    using encRun_keeps [OF getOrCreateKey_known [OF k(1)]] .
  then show ?thesis
    using n assms(1) assms(2) [OF n(1)]
    by (simp add: Decrypt_def getOrCreateKey_def openTenant_def aead_opens_def)
qed

section \<open>Reading the root key\<close>

definition asciiSpace :: "byte \<Rightarrow> bool" where
  "asciiSpace b \<longleftrightarrow> b \<in> {9, 10, 11, 12, 13, 32}"

definition hexDigits :: "byte set" where
  "hexDigits = {48, 49, 50, 51, 52, 53, 54, 55, 56, 57, 97, 98, 99, 100, 101, 102}"

lemma hexDigits_small: "b \<in> hexDigits \<Longrightarrow> unat b < 128"
  unfolding hexDigits_def by (elim insertE emptyE) simp_all

lemma spaceSeq_ends:
  assumes "isSpaceSeq bs"
  shows "hd bs \<notin> hexDigits" "last bs \<notin> hexDigits"
proof -
  have "hd bs \<notin> hexDigits \<and> last bs \<notin> hexDigits"
  proof (cases "length bs = 3 \<and> take 2 bs = [0xE2, 0x80] \<and> 0x80 \<le> bs ! 2 \<and> bs ! 2 \<le> 0x8A")
    case True
    then obtain x where x: "bs = [0xE2, 0x80, x]" "0x80 \<le> x" by (auto simp: length_Suc_conv numeral_eq_Suc)
    have "128 \<le> unat x" using x(2) by (simp add: word_le_nat_alt)
    then have "x \<notin> hexDigits" using hexDigits_small [of x] by linarith
    with x show ?thesis by (simp add: hexDigits_def)
  next
    case False
    with assms have "bs \<in> {[9], [10], [11], [12], [13], [32], [0xC2, 0x85], [0xC2, 0xA0], [0xE1, 0x9A, 0x80],
        [0xE2, 0x80, 0xA8], [0xE2, 0x80, 0xA9], [0xE2, 0x80, 0xAF], [0xE2, 0x81, 0x9F], [0xE3, 0x80, 0x80]}"
      unfolding isSpaceSeq_def by blast
    then show ?thesis by (elim insertE emptyE) (simp_all add: hexDigits_def)
  qed
  then show "hd bs \<notin> hexDigits" "last bs \<notin> hexDigits" by simp_all
qed

lemma isSpaceSeq_single: "isSpaceSeq [b] \<longleftrightarrow> asciiSpace b"
  by (simp add: isSpaceSeq_def asciiSpace_def)

lemma trimLeft_space: "asciiSpace b \<Longrightarrow> trimLeft (b # bs) = trimLeft bs"
  by (subst trimLeft.simps) (simp add: spacePrefix_def isSpaceSeq_single)

lemma trimRight_space: "asciiSpace b \<Longrightarrow> trimRight (bs @ [b]) = trimRight bs"
  by (subst trimRight.simps) (simp add: spaceSuffix_def isSpaceSeq_single)

lemma trimLeft_digit:
  assumes "bs = [] \<or> hd bs \<in> hexDigits"
  shows "trimLeft bs = bs"
proof -
  have "\<not> isSpaceSeq (take n bs)" for n
    using spaceSeq_ends(1) [of "take n bs"] assms by (cases n; cases bs) auto
  then have "spacePrefix bs = 0" by (simp add: spacePrefix_def)
  then show ?thesis by (subst trimLeft.simps) simp
qed

lemma trimRight_digit:
  assumes "bs = [] \<or> last bs \<in> hexDigits"
  shows "trimRight bs = bs"
proof -
  have "\<not> isSpaceSeq (drop (length bs - n) bs)" for n
    using spaceSeq_ends(2) [of "drop (length bs - n) bs"] assms
    by (cases "length bs - n < length bs") (auto simp: last_drop)
  then have "spaceSuffix bs = 0" by (simp add: spaceSuffix_def)
  then show ?thesis by (subst trimRight.simps) simp
qed

lemma TrimSpace_padded:
  assumes "list_all asciiSpace pre" "list_all asciiSpace post" "set bs \<subseteq> hexDigits"
  shows "TrimSpace (pre @ bs @ post) = bs"
proof -
  have r: "trimRight (bs @ post) = bs" if "list_all asciiSpace post" for post
    using that
  proof (induction post rule: rev_induct)
    case Nil
    have "bs = [] \<or> last bs \<in> hexDigits" using assms(3) by (cases "bs = []") (auto dest: last_in_set)
    then show ?case by (simp add: trimRight_digit)
  next
    case (snoc b post)
    then show ?case using trimRight_space [of b "bs @ post"] by simp
  qed
  have l: "trimRight (trimLeft (bs @ post)) = bs" if "list_all asciiSpace post" for post
    using that
  proof (cases bs)
    case Nil
    have "trimLeft post = []" if "list_all asciiSpace post" for post
      using that by (induction post) (simp_all add: trimLeft_space trimLeft_digit)
    with Nil \<open>list_all asciiSpace post\<close> show ?thesis by (simp add: trimRight_digit)
  next
    case (Cons x xs)
    with assms(3) have "trimLeft (bs @ post) = bs @ post" by (intro trimLeft_digit) simp
    with r that show ?thesis by simp
  qed
  have "trimLeft (pre @ ys) = trimLeft ys" for ys
    using assms(1) by (induction pre) (simp_all add: trimLeft_space)
  with l [OF assms(2)] show ?thesis by (simp add: TrimSpace_def)
qed

lemma hex_char_table:
  "list_all (\<lambda>n. hexVal (of_char (hex_char n)) = Some n \<and> (of_char (hex_char n) :: byte) \<in> hexDigits) [0..<16]"
  by code_simp

lemma hex_char_byte:
  assumes "n < 16"
  shows "hexVal (of_char (hex_char n)) = Some n" "(of_char (hex_char n) :: byte) \<in> hexDigits"
proof -
  have "hexVal (of_char (hex_char n)) = Some n \<and> (of_char (hex_char n) :: byte) \<in> hexDigits"
    using hex_char_table assms by (simp add: list_all_iff)
  then show "hexVal (of_char (hex_char n)) = Some n" "(of_char (hex_char n) :: byte) \<in> hexDigits" by simp_all
qed

lemma hexDecode_hex: "hexDecode (str_bytes (hex_bytes bs)) = Some bs"
proof (induction bs)
  case (Cons b bs)
  have "unat b < 256" using unsigned_less [of b] by simp
  then have "unat b div 16 < 16" "unat b mod 16 < 16" by auto
  then have "hexDecode (str_bytes (hex_bytes (b # bs))) =
      (case hexDecode (str_bytes (hex_bytes bs)) of
         Some r \<Rightarrow> Some (of_nat (16 * (unat b div 16) + unat b mod 16) # r) | None \<Rightarrow> None)"
    by (simp add: hex_bytes_def hex_byte_def str_bytes_def hex_char_byte split: option.splits)
  moreover have "16 * (unat b div 16) + unat b mod 16 = unat b" by simp
  ultimately show ?case using Cons by simp
qed (simp add: hex_bytes_def)

lemma hex_bytes_digits: "set (str_bytes (hex_bytes bs)) \<subseteq> hexDigits"
proof (induction bs)
  case (Cons b bs)
  have "unat b < 256" using unsigned_less [of b] by simp
  then have "unat b div 16 < 16" "unat b mod 16 < 16" by auto
  with Cons show ?case by (simp add: hex_bytes_def hex_byte_def str_bytes_def hex_char_byte)
qed (simp add: hex_bytes_def)

text \<open>
  A file with the hexadecimal text of a 32-byte key, with any white space around it, loads as that
  key with its fingerprint.
\<close>

theorem LoadRootPubKey_roundtrip:
  assumes "readFile path = Some (pre @ str_bytes (hex_bytes key) @ post)" and "path \<noteq> []"
    and "length key = PublicKeySize" and "list_all asciiSpace pre" and "list_all asciiSpace post"
  shows "LoadRootPubKey P readFile path = Inr (key, hex_bytes (sha256 P key))"
  using assms by (simp add: LoadRootPubKey_def TrimSpace_padded hex_bytes_digits hexDecode_hex)


section \<open>Concrete runs\<close>

text \<open>UUID texts of 36 characters that differ for the identifiers 1 and 2, and entropy that is available.\<close>

definition demo_key_prims :: prims where
  "demo_key_prims = demo_prims\<lparr>uuid_String := (\<lambda>u. replicate 36 (if u = 1 then CHR ''a'' else CHR ''b''))\<rparr>"

definition demo_key_env :: "uuid \<Rightarrow> byte \<Rightarrow> key_env" where
  "demo_key_env u k = \<lparr>ke_pair = Some ([k], [k]), ke_uuid = Some u, ke_now = 0\<rparr>"

lemma demo_entropy: "goodEntropy demo_key_prims (demo_key_env u k)"
  by (simp add: goodEntropy_def demo_key_env_def demo_key_prims_def key_pair_def)

text \<open>The set and the manager that the start with this entropy gives.\<close>

definition demo_start :: "(key_error + ActiveKeySet) \<times> InMemorySigner KeyManager" where
  "demo_start = Initialize (inMemorySigner demo_key_prims) 0 (\<lambda>p. demo_key_env 1 1) (NewKeyManager NewInMemorySigner [9])"

lemma demo_started: "\<exists>ks km. demo_start = (Inr ks, km)"
  unfolding demo_start_def
  using initLoop_succeeds [of AllPurposes "\<lambda>p. demo_key_env 1 1" demo_key_prims
      "\<lparr>ks_Keys = Map.empty, ks_RootSig = [], ks_IssuedAt = 0\<rparr>" "NewKeyManager NewInMemorySigner [9]"]
  by (auto simp: Initialize_def demo_key_env_def)

theorem started_manager_signs_witness:
  "\<exists>ks km0 pub kid sig.
    Initialize (inMemorySigner demo_key_prims) 0 (\<lambda>p. demo_key_env 1 1) (NewKeyManager NewInMemorySigner [9]) = (Inr ks, km0) \<and>
    (let km = fst (kmRun demo_key_prims (inMemorySigner demo_key_prims)
                     [OpRotate (demo_key_env 2 2) PurposeGrantSig, OpRetire 5 (\<lambda>k. 6) second] km0) in
       GetPubKey 7 PurposeGrantSig km = Inr (pub, kid) \<and>
       SignWithPurpose (inMemorySigner demo_key_prims) 7 PurposeGrantSig [3] km = Inr (sig, kid) \<and>
       VerifySignature demo_key_prims (inMemorySigner demo_key_prims) kid [3] sig km = Inr () \<and>
       ed25519_Verify demo_key_prims pub [3] sig)"
  by (rule started_manager_signs)
    (auto simp: demo_entropy opOK_def second_def inInt64_def AllPurposes_def, simp_all add: demo_key_env_def)

theorem RotateKey_effect_witness:
  "\<exists>ks pub sg. km_activeKeys (snd demo_start) = Some ks \<and>
     sg_GenerateKey (inMemorySigner demo_key_prims) (demo_key_env 2 2) PurposeGrantSig (km_signer (snd demo_start))
       = (Inr (newKid demo_key_prims PurposeGrantSig 2, pub), sg) \<and>
     GetPubKey 7 PurposeGrantSig (snd (RotateKey (inMemorySigner demo_key_prims) (demo_key_env 2 2) PurposeGrantSig (snd demo_start)))
       = Inr (pub, newKid demo_key_prims PurposeGrantSig 2)"
proof -
  obtain ks km where k: "demo_start = (Inr ks, km)" using demo_started by blast
  then have "km_activeKeys km = Some ks"
    unfolding demo_start_def by (auto simp: Initialize_def split: prod.splits sum.splits)
  then have "\<exists>km'. RotateKey (inMemorySigner demo_key_prims) (demo_key_env 2 2) PurposeGrantSig km
      = (Inr (newKid demo_key_prims PurposeGrantSig 2), km')"
    by (simp add: RotateKey_def inMemory_GenerateKey_def demo_key_env_def)
  then obtain km' where "RotateKey (inMemorySigner demo_key_prims) (demo_key_env 2 2) PurposeGrantSig (snd demo_start)
      = (Inr (newKid demo_key_prims PurposeGrantSig 2), km')"
    unfolding k snd_conv by blast
  from RotateKey_effect [OF this, of 7] this show ?thesis by auto
qed

theorem RetireOverlapKeys_keeps_all_witness:
  "RetireOverlapKeys 5 (\<lambda>k. 6) (8 * hour) (snd demo_start) = snd demo_start"
  by (rule RetireOverlapKeys_keeps_all) (simp_all add: time_defs inInt64_def)

theorem rotation_with_same_kid_witness:
  "VerifySignature demo_key_prims (inMemorySigner demo_key_prims) (newKid demo_key_prims PurposeGrantSig 2) [3] [0, 3]
     (snd (RotateKey (inMemorySigner demo_key_prims) (demo_key_env 4 1) PurposeGrantSig
        (NewKeyManager NewInMemorySigner [9] \<lparr>km_activeKeys := Some \<lparr>ks_Keys = Map.empty, ks_RootSig = [], ks_IssuedAt = 0\<rparr>\<rparr>)))
   = Inl (SignatureInvalid (newKid demo_key_prims PurposeGrantSig 2))"
  by (subst rotation_with_same_kid [where u = 4])
    (simp_all add: demo_key_env_def demo_key_prims_def NewKeyManager_def, simp)

theorem Encrypt_Decrypt_roundtrip_witness:
  "fst (Decrypt demo_aead \<lparr>ee_key = None, ee_nonce = None\<rparr> 1 (replicate 12 4 @ gcm_Seal demo_aead (replicate 32 7) (replicate 12 4) [1, 2])
     (foldl (encDo demo_aead) \<lparr>ie_keys = [1 \<mapsto> replicate 32 7]\<rparr> [OpEncrypt \<lparr>ee_key = Some [], ee_nonce = None\<rparr> 2 []])) = Inr [1, 2]"
  by (rule Encrypt_Decrypt_roundtrip [where env = "\<lparr>ee_key = Some (replicate 32 7), ee_nonce = Some (replicate 12 4)\<rparr>"
        and e = NewInMemoryEncrypter])
    (simp_all add: Encrypt_def getOrCreateKey_def NewInMemoryEncrypter_def sealTenant_def aesKeyOK_def nonceSize_def)

theorem LoadRootPubKey_roundtrip_witness:
  "LoadRootPubKey demo_prims (\<lambda>p. Some ([32] @ str_bytes (hex_bytes (replicate 32 7)) @ [13, 10])) ''root.hex''
     = Inr (replicate 32 7, hex_bytes (replicate 32 7))"
  using LoadRootPubKey_roundtrip [of "\<lambda>p. Some ([32] @ str_bytes (hex_bytes (replicate 32 7)) @ [13, 10])" "''root.hex''"
      "[32]" "replicate 32 7" "[13, 10]" demo_prims]
  by (simp add: asciiSpace_def PublicKeySize_def)

lemma demo_start_grant_key:
  assumes "demo_start = (Inr ks, km)"
  shows "SignWithPurpose (inMemorySigner demo_key_prims) 7 PurposeGrantSig [3] km
           = Inr ([1, 3], newKid demo_key_prims PurposeGrantSig 1)"
    and "km_activeKeys km = Some ks"
  using assms
  by (auto simp: demo_start_def Initialize_def AllPurposes_def inMemory_GenerateKey_def demo_key_env_def
      NewKeyManager_def NewInMemorySigner_def SignWithPurpose_def activeKey_def inMemory_Sign_def newKid_def
      demo_key_prims_def)

lemma demo_kids_differ: "newKid demo_key_prims PurposeGrantSig 1 \<noteq> newKid demo_key_prims PurposeGrantSig 2"
  by (simp add: newKid_def demo_key_prims_def)

theorem rotation_keeps_signatures_witness:
  "\<exists>ks km0. demo_start = (Inr ks, km0) \<and>
     VerifySignature demo_key_prims (inMemorySigner demo_key_prims) (newKid demo_key_prims PurposeGrantSig 1) [3] [1, 3]
       (fst (kmRun demo_key_prims (inMemorySigner demo_key_prims) [OpRotate (demo_key_env 2 2) PurposeGrantSig] km0)) = Inr ()"
proof -
  obtain ks km0 where k: "demo_start = (Inr ks, km0)" using demo_started by blast
  have i: "Initialize (inMemorySigner demo_key_prims) 0 (\<lambda>p. demo_key_env 1 1) (NewKeyManager NewInMemorySigner [9]) = (Inr ks, km0)"
    using k by (simp add: demo_start_def)
  obtain km2 kids where r: "kmRun demo_key_prims (inMemorySigner demo_key_prims) [OpRotate (demo_key_env 2 2) PurposeGrantSig] km0
      = (km2, kids)" by fastforce
  then have "kids = [newKid demo_key_prims PurposeGrantSig 2]"
    using demo_start_grant_key(2) [OF k] by (auto simp: RotateKey_def inMemory_GenerateKey_def demo_key_env_def)
  then have n: "newKid demo_key_prims PurposeGrantSig 1 \<notin> set kids" using demo_kids_differ by simp
  have "VerifySignature demo_key_prims (inMemorySigner demo_key_prims) (newKid demo_key_prims PurposeGrantSig 1) [3] [1, 3] km2 = Inr ()"
    by (rule rotation_keeps_signatures [OF i _ _ _ demo_start_grant_key(1) [OF k] r n, of "[]"])
      (simp_all add: demo_entropy rotationOp_def)
  then have "VerifySignature demo_key_prims (inMemorySigner demo_key_prims) (newKid demo_key_prims PurposeGrantSig 1) [3] [1, 3]
      (fst (kmRun demo_key_prims (inMemorySigner demo_key_prims) [OpRotate (demo_key_env 2 2) PurposeGrantSig] km0)) = Inr ()"
    unfolding r fst_conv .
  with k show ?thesis by blast
qed

end
