(* ===== verification/WireCodec.thy ===== *)
theory WireCodec
  imports Envelope "HOL-Library.Countable"
begin

text \<open>
  A codec that keeps the law the CBOR library documents: what it marshals, it unmarshals to the same
  value, grants with their times cut to whole seconds. Theorems that assume the law are instantiated
  with it. A value is numbered through the tuple of its fields and written as that many bytes.
\<close>

section \<open>Records as tuples\<close>

instance word :: (len) countable
  by (rule countable_classI [of unat]) (simp add: word_unat_eq_iff)

instance char :: countable
  by (rule countable_classI [of "of_char :: char \<Rightarrow> nat"]) simp

definition tupleOIDC :: "OIDCIdentity \<Rightarrow> string \<times> string \<times> string" where
  "tupleOIDC x = (oid_Issuer x, oid_Subject x, oid_UserID x)"

definition untupleOIDC :: "string \<times> string \<times> string \<Rightarrow> OIDCIdentity" where
  "untupleOIDC = (\<lambda>(a, b, c). \<lparr>oid_Issuer = a, oid_Subject = b, oid_UserID = c\<rparr>)"

lemma untupleOIDC [simp]: "untupleOIDC (tupleOIDC x) = x"
  by (cases x) (simp add: tupleOIDC_def untupleOIDC_def)

definition tupleResource :: "ResourceID \<Rightarrow> uuid \<times> string \<times> string \<times> int \<times> string \<times> string" where
  "tupleResource x = (res_TenantID x, res_ProtectedNodeID x, res_ServiceID x, res_Port x, res_Transport x, res_DeploymentMode x)"

definition untupleResource :: "uuid \<times> string \<times> string \<times> int \<times> string \<times> string \<Rightarrow> ResourceID" where
  "untupleResource = (\<lambda>(a, b, c, d, e, f). \<lparr>res_TenantID = a, res_ProtectedNodeID = b, res_ServiceID = c, res_Port = d,
     res_Transport = e, res_DeploymentMode = f\<rparr>)"

lemma untupleResource [simp]: "untupleResource (tupleResource x) = x"
  by (cases x) (simp add: tupleResource_def untupleResource_def)

type_synonym http_tuple = "string \<times> string \<times> string \<times> string \<times> string \<times> string \<times> bytes"

definition tupleHTTP :: "HTTPRequestBinding \<Rightarrow> http_tuple" where
  "tupleHTTP x = (hb_ProtectedNodeID x, hb_SrcNodeID x, hb_Method x, hb_NormalizedAuthority x, hb_PathPolicyID x,
     hb_HTTPVersion x, hb_RequestNonce x)"

definition untupleHTTP :: "http_tuple \<Rightarrow> HTTPRequestBinding" where
  "untupleHTTP = (\<lambda>(a, b, c, d, e, f, g). \<lparr>hb_ProtectedNodeID = a, hb_SrcNodeID = b, hb_Method = c,
     hb_NormalizedAuthority = d, hb_PathPolicyID = e, hb_HTTPVersion = f, hb_RequestNonce = g\<rparr>)"

lemma untupleHTTP [simp]: "untupleHTTP (tupleHTTP x) = x"
  by (cases x) (simp add: tupleHTTP_def untupleHTTP_def)

type_synonym binding_tuple = "http_tuple option \<times> bytes option \<times> bytes option"

definition tupleBinding :: "ScopeBinding \<Rightarrow> binding_tuple" where
  "tupleBinding x = (map_option tupleHTTP (bnd_HTTPRequest x), map_option cb_ConnectionID (bnd_Connection x),
     map_option sb_SessionID (bnd_Session x))"

definition untupleBinding :: "binding_tuple \<Rightarrow> ScopeBinding" where
  "untupleBinding = (\<lambda>(a, b, c). \<lparr>bnd_HTTPRequest = map_option untupleHTTP a,
     bnd_Connection = map_option (\<lambda>n. \<lparr>cb_ConnectionID = n\<rparr>) b, bnd_Session = map_option (\<lambda>n. \<lparr>sb_SessionID = n\<rparr>) c\<rparr>)"

lemma binding_eta [simp]: "\<lparr>cb_ConnectionID = cb_ConnectionID c\<rparr> = c" "\<lparr>sb_SessionID = sb_SessionID d\<rparr> = d"
  by (cases c, simp, cases d, simp)

lemma untupleBinding [simp]: "untupleBinding (tupleBinding x) = x"
  by (cases x) (simp add: tupleBinding_def untupleBinding_def option.map_comp comp_def option.map_ident)

type_synonym agt_tuple =
  "(int \<times> uuid \<times> uuid \<times> string \<times> (string \<times> string \<times> string) \<times> string \<times> int \<times> uuid \<times> string \<times> string \<times> string)
   \<times> (uuid \<times> string \<times> string \<times> int \<times> string \<times> string) \<times> string \<times> string \<times> string \<times> binding_tuple \<times> int \<times> string \<times> int
   \<times> int \<times> int \<times> int"

definition tupleAGT :: "AGTPayload \<Rightarrow> agt_tuple" where
  "tupleAGT x =
     ((agt_Ver x, agt_JTI x, agt_TenantID x, agt_TailnetID x, tupleOIDC (agt_Subject x), agt_SrcNodeID x,
       agt_SrcNodeKeyEpoch x, agt_ApproverDeviceID x, agt_ApprovalKeyID x, agt_DeviceSecurityLevel x, agt_ProtectedNodeID x),
      tupleResource (agt_Resource x), agt_Protocol x, agt_DeploymentMode x, agt_Scope x, tupleBinding (agt_Binding x),
      agt_PolicyVersion x, agt_RuleID x, agt_AuthzEpoch x, agt_IssuedAt x, agt_NotBefore x, agt_ExpiresAt x)"

definition untupleAGT :: "agt_tuple \<Rightarrow> AGTPayload" where
  "untupleAGT = (\<lambda>((a, b, c, d, e, f, g, h, i, j, k), l, m, n, q, r, s, t, u, v, w, x).
     \<lparr>agt_Ver = a, agt_JTI = b, agt_TenantID = c, agt_TailnetID = d, agt_Subject = untupleOIDC e, agt_SrcNodeID = f,
      agt_SrcNodeKeyEpoch = g, agt_ApproverDeviceID = h, agt_ApprovalKeyID = i, agt_DeviceSecurityLevel = j,
      agt_ProtectedNodeID = k, agt_Resource = untupleResource l, agt_Protocol = m, agt_DeploymentMode = n, agt_Scope = q,
      agt_Binding = untupleBinding r, agt_PolicyVersion = s, agt_RuleID = t, agt_AuthzEpoch = u, agt_IssuedAt = v,
      agt_NotBefore = w, agt_ExpiresAt = x\<rparr>)"

lemma untupleAGT [simp]: "untupleAGT (tupleAGT x) = x"
  by (cases x) (simp add: tupleAGT_def untupleAGT_def)

type_synonym sign1_tuple = "(int \<times> string \<times> string) \<times> (int \<times> bytes) list \<times> bytes \<times> bytes"

definition tupleSign1 :: "Sign1Message \<Rightarrow> sign1_tuple" where
  "tupleSign1 x =
     ((hd_Algorithm (msg_Protected x), hd_KeyID (msg_Protected x), hd_Type (msg_Protected x)), msg_Unprotected x,
      msg_Payload x, msg_Signature x)"

definition untupleSign1 :: "sign1_tuple \<Rightarrow> Sign1Message" where
  "untupleSign1 = (\<lambda>((a, b, c), d, e, f). \<lparr>msg_Protected = \<lparr>hd_Algorithm = a, hd_KeyID = b, hd_Type = c\<rparr>,
     msg_Unprotected = d, msg_Payload = e, msg_Signature = f\<rparr>)"

lemma untupleSign1 [simp]: "untupleSign1 (tupleSign1 x) = x"
  by (cases x) (simp add: tupleSign1_def untupleSign1_def)


section \<open>The codec\<close>

definition unary :: "'a :: countable \<Rightarrow> bytes" where
  "unary x = replicate (to_nat x) 0"

definition wire_codec :: env_codec where
  "wire_codec =
     \<lparr>ec_cose =
        \<lparr>encModeOK = True, decModeOK = True,
         marshal_Headers = (\<lambda>h. Some [1]), marshal_sigStructure = (\<lambda>t. Some [2]),
         marshal_Sign1 = (\<lambda>m. Some (unary (tupleSign1 m))),
         unmarshal_Sign1 = (\<lambda>b. Some (untupleSign1 (from_nat (length b))))\<rparr>,
      marshal_Request = (\<lambda>p. Some [4]), unmarshal_Request = (\<lambda>b. None),
      marshal_AGT = (\<lambda>p. Some (unary (tupleAGT (agt_wire p)))),
      unmarshal_AGT = (\<lambda>b. Some (untupleAGT (from_nat (length b)))),
      marshal_Binding = (\<lambda>b. Some (unary (tupleBinding b))),
      unmarshal_Binding = (\<lambda>b. Some (untupleBinding (from_nat (length b))))\<rparr>"

text \<open>The law: messages and grants come back as they were written.\<close>

definition cborLawful :: "env_codec \<Rightarrow> bool" where
  "cborLawful E \<longleftrightarrow> decModeOK (ec_cose E) \<and>
     (\<forall>m b. marshal_Sign1 (ec_cose E) m = Some b \<longrightarrow> unmarshal_Sign1 (ec_cose E) b = Some m) \<and>
     (\<forall>p b. marshal_AGT E p = Some b \<longrightarrow> unmarshal_AGT E b = Some (agt_wire p))"

lemma wire_codec_lawful: "cborLawful wire_codec"
  by (simp add: cborLawful_def wire_codec_def unary_def)

end
