(* ===== verification/Database.thy ===== *)
theory Database
  imports Envelope
begin

text \<open>
  The PostgreSQL database of the Approval Service, from
  \<open>service/migrations/001_initial_schema.up.sql\<close>: one record of tables, each a list of rows with
  the columns the service reads or writes; the SQL functions and the trigger of the migration; and
  transactions. Row-level security is left out: no Go code sets \<open>app.current_tenant_id\<close>, so the
  model is of a connection that the policies do not restrict. Timestamps are kept exactly.

  PostgreSQL itself is not code of the repository. What depends on it is in the parameter record
  \<open>pg\<close>: what a \<open>jsonb\<close> column stores for given input (\<open>None\<close>: rejected), whether a string is an
  \<open>inet\<close> or a \<open>uuid\<close>, the text of a timestamp's epoch, whether \<open>FOR UPDATE\<close> is accepted on an aggregate, and,
  of the driver (none is in the repository), whether a nil byte slice is passed as NULL.
  A call's \<open>svc_env\<close> says which statements fail from outside, how its commit ends, and what the
  clocks, the UUID generator and the random source return, each by the label of the use.
\<close>

section \<open>Tables\<close>

record user_row =
  u_tenant :: uuid
  u_id :: uuid
  u_issuer :: string
  u_subject :: string

record device_row =
  dv_tenant :: uuid
  dv_id :: uuid
  dv_user :: uuid
  dv_device_auth_pub :: bytes
  dv_approval_auth_pub :: bytes
  dv_attestation :: bytes
  dv_security_level :: SecurityLevel
  dv_counter :: int
  dv_state :: string
  dv_revoked_at :: "gotime option"

record node_row =
  n_tenant :: uuid
  n_id :: uuid
  n_ts_stable_node_id :: string
  n_tailnet_id :: string
  n_cert_serial :: string
  n_cert_state :: string
  n_node_key_epoch :: int

record resource_row =
  r_tenant :: uuid
  r_id :: uuid
  r_protected_node_id :: uuid
  r_service_id :: string
  r_port :: int
  r_transport :: Transport
  r_deployment_mode :: DeploymentMode
  r_sensitivity :: Sensitivity
  r_display_label :: "string option"

record policy_row =
  p_tenant :: uuid
  p_version :: int
  p_epoch :: int
  p_document :: bytes
  p_prev_hash :: bytes
  p_signature :: bytes
  p_kid :: string
  p_not_before :: gotime
  p_expires_at :: gotime
  p_min_daemon_version :: string
  p_issued_by :: "uuid option"

record request_row =
  q_id :: uuid
  q_tenant :: uuid
  q_user :: uuid
  q_device :: "uuid option"
  q_node :: uuid
  q_src_node_id :: string
  q_requesting_ip :: string
  q_resource :: uuid
  q_protocol :: string
  q_ssh_account :: string
  q_scope :: Scope
  q_binding :: bytes
  q_challenge :: bytes
  q_envelope :: bytes
  q_envelope_sig :: bytes
  q_policy_version :: int
  q_rule_id :: string
  q_state :: ApprovalState
  q_state_version :: int
  q_response_decision :: "Decision option"
  q_response_sig :: bytes
  q_response_key_id :: string
  q_device_counter :: "int option"
  q_response_nonce :: bytes
  q_poll_cap_hash :: bytes
  q_redeem_cap_hash :: bytes
  q_expires_at :: gotime
  q_decided_at :: "gotime option"

record grant_row =
  g_jti :: uuid
  g_tenant :: uuid
  g_request :: uuid
  g_user :: uuid
  g_src_node_id :: string
  g_src_node_key_epoch :: int
  g_device :: uuid
  g_node :: uuid
  g_resource :: uuid
  g_protocol :: string
  g_scope :: Scope
  g_binding :: bytes
  g_policy_version :: int
  g_authz_epoch :: int
  g_device_security_level :: string
  g_agt_bytes :: bytes
  g_kid :: string
  g_iat :: gotime
  g_nbf :: gotime
  g_expires_at :: gotime
  g_consumed_at :: "gotime option"

record session_row =
  s_id :: uuid
  s_tenant :: uuid
  s_grant_jti :: uuid
  s_device :: uuid
  s_node :: uuid
  s_closed_at :: "gotime option"

record revocation_row =
  v_tenant :: uuid
  v_seq :: int
  v_kind :: string
  v_target :: string
  v_created_at :: gotime

record outbox_row =
  o_tenant :: uuid
  o_seq :: int
  o_consumer :: string
  o_message_id :: uuid
  o_payload :: bytes
  o_acked_at :: "gotime option"
  o_created_at :: gotime

record inbox_row =
  i_tenant :: uuid
  i_consumer :: string
  i_message_id :: uuid

record cursor_row =
  cur_tenant :: uuid
  cur_consumer :: string
  cur_last_acked_seq :: int
  cur_lease_owner :: "uuid option"
  cur_lease_fence :: int
  cur_lease_expires_at :: "gotime option"

record head_row =
  h_tenant :: uuid
  h_last_seq :: int
  h_last_hash :: bytes

text \<open>The columns that \<open>InsertTx\<close> fills in after \<open>insert_audit_event\<close> has created the row.\<close>

record audit_details =
  d_producer_seq :: "int option"
  d_user :: "uuid option"
  d_device :: "uuid option"
  d_src_node_id :: "string option"
  d_node :: "uuid option"
  d_resource :: "uuid option"
  d_protocol :: "string option"
  d_result :: "string option"
  d_request :: "uuid option"
  d_rule_id :: "string option"
  d_policy_version :: "int option"
  d_correlation_id :: "uuid option"
  d_producer_signature :: bytes

record audit_row =
  a_tenant :: uuid
  a_seq :: int
  a_event_type :: string
  a_producer :: string
  a_payload :: "bytes option"
  a_occurred_at :: gotime
  a_prev_hash :: bytes
  a_row_hash :: bytes
  a_details :: audit_details

record db =
  tenants :: "uuid list"
  users :: "user_row list"
  devices :: "device_row list"
  nodes :: "node_row list"
  resources :: "resource_row list"
  policies :: "policy_row list"
  approval_requests :: "request_row list"
  grants :: "grant_row list"
  active_sessions :: "session_row list"
  revocations :: "revocation_row list"
  outbox :: "outbox_row list"
  inbox :: "inbox_row list"
  consumer_cursors :: "cursor_row list"
  audit_heads :: "head_row list"
  audit_events :: "audit_row list"

definition emptyDb :: db where
  "emptyDb =
     \<lparr>tenants = [], users = [], devices = [], nodes = [], resources = [], policies = [],
      approval_requests = [], grants = [], active_sessions = [], revocations = [], outbox = [],
      inbox = [], consumer_cursors = [], audit_heads = [], audit_events = []\<rparr>"

definition noDetails :: audit_details where
  "noDetails =
     \<lparr>d_producer_seq = None, d_user = None, d_device = None, d_src_node_id = None, d_node = None,
      d_resource = None, d_protocol = None, d_result = None, d_request = None, d_rule_id = None,
      d_policy_version = None, d_correlation_id = None, d_producer_signature = []\<rparr>"


section \<open>PostgreSQL and the environment of a call\<close>

record pg =
  jsonb_in :: "bytes \<Rightarrow> bytes option"
  inet_ok :: "string \<Rightarrow> bool"
  epoch_text :: "gotime \<Rightarrow> string"
  aggregate_for_update :: bool
  nil_is_null :: bool
  uuid_in :: "string \<Rightarrow> uuid option"

text \<open>A byte slice as the driver passes it: \<open>None\<close> is the nil slice on the left, NULL on the right.\<close>

definition sqlBytes :: "pg \<Rightarrow> bytes option \<Rightarrow> bytes option" where
  "sqlBytes G b = (case b of None \<Rightarrow> if nil_is_null G then None else Some [] | Some x \<Rightarrow> Some x)"

datatype commit_outcome = CommitOk | CommitFailed | CommitLost

text \<open>\<open>CommitLost\<close>: the commit took effect but its confirmation did not arrive.\<close>

record svc_env =
  fault :: "string \<Rightarrow> bool"
  commitAs :: commit_outcome
  pgNow :: gotime
  clock :: "string \<Rightarrow> gotime"
  newUUID :: "string \<Rightarrow> uuid"
  osRand :: "nat \<Rightarrow> bytes option"

datatype sql_error =
    ConnectionFault
  | TxAborted
  | NoRows
  | CheckViolation string
  | ForeignKeyViolation string
  | NotNullViolation string
  | UniqueViolation string
  | OutOfRange
  | InvalidJson
  | InvalidInet
  | InvalidUuid
  | AggregateForUpdate
  | RequestNotFound
  | StateVersionConflict int int
  | InvalidStateTransition ApprovalState ApprovalState
  | ScopeProhibited
  | GrantTTLExceeded Scope


section \<open>Transactions\<close>

text \<open>
  An error of a statement aborts the transaction: every later statement fails, and its commit rolls
  back. A query that finds no row (\<open>sql.ErrNoRows\<close>) is not an error of the statement.
\<close>

record tx =
  tx_db :: db
  tx_aborted :: bool

type_synonym 'a txm = "tx \<Rightarrow> (sql_error + 'a) \<times> tx"

definition beginTx :: "db \<Rightarrow> tx" where
  "beginTx s = \<lparr>tx_db = s, tx_aborted = False\<rparr>"

definition exec :: "svc_env \<Rightarrow> string \<Rightarrow> (db \<Rightarrow> sql_error + 'a \<times> db) \<Rightarrow> 'a txm" where
  "exec env label f t =
     (if tx_aborted t then (Inl TxAborted, t)
      else if fault env label then (Inl ConnectionFault, t\<lparr>tx_aborted := True\<rparr>)
      else case f (tx_db t) of
             Inl e \<Rightarrow> (Inl e, t\<lparr>tx_aborted := True\<rparr>)
           | Inr (x, s) \<Rightarrow> (Inr x, t\<lparr>tx_db := s\<rparr>))"

definition query :: "svc_env \<Rightarrow> string \<Rightarrow> (db \<Rightarrow> 'a option) \<Rightarrow> 'a txm" where
  "query env label f t =
     (if tx_aborted t then (Inl TxAborted, t)
      else if fault env label then (Inl ConnectionFault, t\<lparr>tx_aborted := True\<rparr>)
      else case f (tx_db t) of None \<Rightarrow> (Inl NoRows, t) | Some x \<Rightarrow> (Inr x, t))"

text \<open>The database after \<open>tx.Commit()\<close>, and whether it returned an error.\<close>

definition commitTx :: "svc_env \<Rightarrow> db \<Rightarrow> tx \<Rightarrow> (sql_error + unit) \<times> db" where
  "commitTx env s0 t =
     (if tx_aborted t then (Inl TxAborted, s0)
      else case commitAs env of
             CommitOk \<Rightarrow> (Inr (), tx_db t)
           | CommitFailed \<Rightarrow> (Inl ConnectionFault, s0)
           | CommitLost \<Rightarrow> (Inl ConnectionFault, tx_db t))"

text \<open>
  Sequencing: \<open>step m w k\<close> runs a statement or a body and returns from the function on its error, wrapped by
  \<open>w\<close>; \<open>ignoring m k\<close> drops the result, as the calls without an error check do.
\<close>

definition step ::
  "(tx \<Rightarrow> ('x + 'a) \<times> tx) \<Rightarrow> ('x \<Rightarrow> 'e) \<Rightarrow> ('a \<Rightarrow> tx \<Rightarrow> ('e + 'b) \<times> tx) \<Rightarrow> tx \<Rightarrow> ('e + 'b) \<times> tx" where
  "step m w k t = (case m t of (Inl e, t') \<Rightarrow> (Inl (w e), t') | (Inr x, t') \<Rightarrow> k x t')"

definition ignoring :: "(tx \<Rightarrow> 'r \<times> tx) \<Rightarrow> (tx \<Rightarrow> ('e + 'b) \<times> tx) \<Rightarrow> tx \<Rightarrow> ('e + 'b) \<times> tx" where
  "ignoring m k t = k (snd (m t))"

text \<open>\<open>UPDATE \<dots> WHERE\<close> on a table.\<close>

definition updateWhere :: "('r \<Rightarrow> bool) \<Rightarrow> ('r \<Rightarrow> 'r) \<Rightarrow> 'r list \<Rightarrow> 'r list" where
  "updateWhere Q f rows = map (\<lambda>r. if Q r then f r else r) rows"

text \<open>\<open>COALESCE(MAX(seq), d)\<close>.\<close>

definition maxOr :: "int \<Rightarrow> int list \<Rightarrow> int" where
  "maxOr d xs = (if xs = [] then d else Max (set xs))"

text \<open>A \<open>bigint\<close> result.\<close>

definition bigint :: "int \<Rightarrow> sql_error + int" where
  "bigint x = reject (\<not> inInt64 x) OutOfRange (Inr x)"


section \<open>Functions of the migration\<close>

definition isRequest :: "uuid \<Rightarrow> uuid \<Rightarrow> request_row \<Rightarrow> bool" where
  "isRequest tenant rid q \<longleftrightarrow> q_tenant q = tenant \<and> q_id q = rid"

definition findRequest :: "uuid \<Rightarrow> uuid \<Rightarrow> db \<Rightarrow> request_row option" where
  "findRequest tenant rid s = find (isRequest tenant rid) (approval_requests s)"

fun validTransition :: "ApprovalState \<Rightarrow> ApprovalState \<Rightarrow> bool" where
  "validTransition ApprovalStatePending new =
     (new \<in> {ApprovalStateApproved, ApprovalStateDenied, ApprovalStateExpired, ApprovalStateCancelled})"
| "validTransition ApprovalStateApproved new = (new = ApprovalStateGranted)"
| "validTransition _ new = False"

definition transition_approval_request ::
  "gotime \<Rightarrow> uuid \<Rightarrow> uuid \<Rightarrow> ApprovalState \<Rightarrow> int \<Rightarrow> db \<Rightarrow> sql_error + bool \<times> db" where
  "transition_approval_request nw p_tenant_id p_request_id p_new_state p_expected_version s =
     need (findRequest p_tenant_id p_request_id s) RequestNotFound (\<lambda>q.
     reject (q_state_version q \<noteq> p_expected_version)
       (StateVersionConflict p_expected_version (q_state_version q)) (
     reject (\<not> validTransition (q_state q) p_new_state) (InvalidStateTransition (q_state q) p_new_state) (
     Inr (True, s\<lparr>approval_requests := updateWhere (isRequest p_tenant_id p_request_id)
            (\<lambda>r. r\<lparr>q_state := p_new_state, q_state_version := q_state_version q + 1,
                   q_decided_at :=
                     (if p_new_state \<in> {ApprovalStateApproved, ApprovalStateDenied, ApprovalStateExpired,
                                        ApprovalStateCancelled}
                      then Some nw else q_decided_at r)\<rparr>) (approval_requests s)\<rparr>))))"

definition isGrant :: "uuid \<Rightarrow> uuid \<Rightarrow> grant_row \<Rightarrow> bool" where
  "isGrant tenant jti g \<longleftrightarrow> g_tenant g = tenant \<and> g_jti g = jti"

definition consume_grant :: "uuid \<Rightarrow> uuid \<Rightarrow> gotime \<Rightarrow> db \<Rightarrow> bool \<times> db" where
  "consume_grant p_tenant_id p_jti p_now s =
     (case find (isGrant p_tenant_id p_jti) (grants s) of
        None \<Rightarrow> (False, s)
      | Some g \<Rightarrow>
          (if g_consumed_at g \<noteq> None then (False, s)
           else if p_now > g_expires_at g then (False, s)
           else
             (let hit = (\<lambda>r. isGrant p_tenant_id p_jti r \<and> g_consumed_at r = None)
              in (list_ex hit (grants s),
                  s\<lparr>grants := updateWhere hit (\<lambda>r. r\<lparr>g_consumed_at := Some p_now\<rparr>) (grants s)\<rparr>))))"

definition advance_device_counter :: "uuid \<Rightarrow> uuid \<Rightarrow> int \<Rightarrow> db \<Rightarrow> bool \<times> db" where
  "advance_device_counter p_tenant_id p_device_id p_received_counter s =
     (let hit = (\<lambda>d. dv_tenant d = p_tenant_id \<and> dv_id d = p_device_id \<and> dv_counter d < p_received_counter)
      in (list_ex hit (devices s),
          s\<lparr>devices := updateWhere hit (\<lambda>d. d\<lparr>dv_counter := p_received_counter\<rparr>) (devices s)\<rparr>))"

definition audit_row_hash :: "prims \<Rightarrow> pg \<Rightarrow> gotime \<Rightarrow> bytes \<Rightarrow> int \<Rightarrow> string \<Rightarrow> bytes" where
  "audit_row_hash P G nw last_hash seq event_type =
     sha256 P (last_hash @ int64ToBytes seq @ str_bytes event_type @ str_bytes (epoch_text G nw))"

definition findHead :: "uuid \<Rightarrow> db \<Rightarrow> head_row option" where
  "findHead tenant s = find (\<lambda>h. h_tenant h = tenant) (audit_heads s)"

text \<open>
  The audit head of the tenant is created on its first event, for which the tenant must exist.
\<close>

definition ensureHead :: "uuid \<Rightarrow> db \<Rightarrow> sql_error + int \<times> bytes \<times> db" where
  "ensureHead p_tenant_id s =
     (case findHead p_tenant_id s of
        Some h \<Rightarrow> Inr (h_last_seq h, h_last_hash h, s)
      | None \<Rightarrow>
          reject (p_tenant_id \<notin> set (tenants s)) (ForeignKeyViolation ''audit_heads'') (
          Inr (0, [0], s\<lparr>audit_heads := audit_heads s @
                [\<lparr>h_tenant = p_tenant_id, h_last_seq = 0, h_last_hash = [0]\<rparr>]\<rparr>)))"

text \<open>
  The event's row violates the primary key if its sequence number is taken.
\<close>

definition insert_audit_event ::
  "prims \<Rightarrow> pg \<Rightarrow> gotime \<Rightarrow> uuid \<Rightarrow> string \<Rightarrow> string \<Rightarrow> bytes option \<Rightarrow> db \<Rightarrow> sql_error + int \<times> db" where
  "insert_audit_event P G nw p_tenant_id p_event_type p_producer p_data s =
     attempt (case p_data of None \<Rightarrow> Inr None | Some d \<Rightarrow> need (jsonb_in G d) InvalidJson (\<lambda>j. Inr (Some j)))
       (\<lambda>e. e) (\<lambda>payload.
     attempt (ensureHead p_tenant_id s) (\<lambda>e. e) (\<lambda>(v_last_seq, v_last_hash, s1).
     attempt (bigint (v_last_seq + 1)) (\<lambda>e. e) (\<lambda>v_new_seq.
     reject (p_producer \<noteq> ''service'' \<and> p_producer \<noteq> ''daemon'') (CheckViolation ''producer'') (
     reject (list_ex (\<lambda>a. a_tenant a = p_tenant_id \<and> a_seq a = v_new_seq) (audit_events s1))
       (UniqueViolation ''audit_events'') (
     let v_row_hash = audit_row_hash P G nw v_last_hash v_new_seq p_event_type in
     Inr (v_new_seq,
       s1\<lparr>audit_events := audit_events s1 @
            [\<lparr>a_tenant = p_tenant_id, a_seq = v_new_seq, a_event_type = p_event_type, a_producer = p_producer,
              a_payload = payload, a_occurred_at = nw, a_prev_hash = v_last_hash, a_row_hash = v_row_hash,
              a_details = noDetails\<rparr>],
          audit_heads := updateWhere (\<lambda>h. h_tenant h = p_tenant_id)
            (\<lambda>h. h\<lparr>h_last_seq := v_new_seq, h_last_hash := v_row_hash\<rparr>) (audit_heads s1)\<rparr>))))))"

definition grant_max_seconds :: "Scope \<Rightarrow> Sensitivity option \<Rightarrow> int" where
  "grant_max_seconds scope v_sensitivity =
    (if scope = ''REQUEST'' then 30
     else if scope = ''CONNECTION'' then 120
     else if scope = ''DURATION'' then
       (if v_sensitivity = Some ''STANDARD'' then 900
        else if v_sensitivity = Some ''HIGH'' then 300
        else 0)
     else if scope = ''SESSION'' then
       (if v_sensitivity = Some ''STANDARD'' then 28800
        else if v_sensitivity = Some ''HIGH'' then 3600
        else if v_sensitivity = Some ''ADMIN'' then 1800
        else 0)
     else 0)"

definition findResource :: "uuid \<Rightarrow> uuid \<Rightarrow> db \<Rightarrow> resource_row option" where
  "findResource tenant rid s = find (\<lambda>r. r_tenant r = tenant \<and> r_id r = rid) (resources s)"

definition validate_grant_ttl :: "grant_row \<Rightarrow> db \<Rightarrow> sql_error + unit" where
  "validate_grant_ttl new s =
    (let v_max_seconds = grant_max_seconds (g_scope new)
           (map_option r_sensitivity (findResource (g_tenant new) (g_resource new) s))
     in reject (v_max_seconds = 0) ScopeProhibited (
        reject (g_expires_at new - g_iat new > v_max_seconds * second) (GrantTTLExceeded (g_scope new)) (
        Inr ())))"


section \<open>The clauses of the tables that inserts run into\<close>

definition userExists :: "uuid \<Rightarrow> uuid \<Rightarrow> db \<Rightarrow> bool" where
  "userExists tenant uid s = list_ex (\<lambda>u. u_tenant u = tenant \<and> u_id u = uid) (users s)"

definition deviceExists :: "uuid \<Rightarrow> uuid \<Rightarrow> db \<Rightarrow> bool" where
  "deviceExists tenant did s = list_ex (\<lambda>d. dv_tenant d = tenant \<and> dv_id d = did) (devices s)"

definition nodeExists :: "uuid \<Rightarrow> uuid \<Rightarrow> db \<Rightarrow> bool" where
  "nodeExists tenant nid s = list_ex (\<lambda>n. n_tenant n = tenant \<and> n_id n = nid) (nodes s)"

definition resourceExists :: "uuid \<Rightarrow> uuid \<Rightarrow> db \<Rightarrow> bool" where
  "resourceExists tenant rid s = list_ex (\<lambda>r. r_tenant r = tenant \<and> r_id r = rid) (resources s)"

definition requestExists :: "uuid \<Rightarrow> uuid \<Rightarrow> db \<Rightarrow> bool" where
  "requestExists tenant rid s = list_ex (isRequest tenant rid) (approval_requests s)"

text \<open>The binding is given as the driver passes it; the row's own field is filled from it.\<close>

definition insert_approval_request :: "pg \<Rightarrow> bytes option \<Rightarrow> request_row \<Rightarrow> db \<Rightarrow> sql_error + unit \<times> db" where
  "insert_approval_request G bindingBytes q s =
     need (sqlBytes G bindingBytes) (NotNullViolation ''approval_requests.binding'') (\<lambda>raw.
     need (jsonb_in G raw) InvalidJson (\<lambda>binding.
     reject (\<not> inet_ok G (q_requesting_ip q)) InvalidInet (
     reject (q_scope q \<notin> {ScopeRequest, ScopeConnection, ScopeDuration, ScopeSession}) (CheckViolation ''scope'') (
     reject (list_ex (\<lambda>r. q_id r = q_id q) (approval_requests s)) (UniqueViolation ''approval_requests'') (
     reject (q_tenant q \<notin> set (tenants s) \<or> \<not> userExists (q_tenant q) (q_user q) s \<or>
             (case q_device q of None \<Rightarrow> False | Some d \<Rightarrow> \<not> deviceExists (q_tenant q) d s) \<or>
             \<not> nodeExists (q_tenant q) (q_node q) s \<or> \<not> resourceExists (q_tenant q) (q_resource q) s)
       (ForeignKeyViolation ''approval_requests'') (
     Inr ((), s\<lparr>approval_requests := approval_requests s @ [q\<lparr>q_binding := binding\<rparr>]\<rparr>)))))))"

text \<open>
  \<open>INSERT INTO grants \<dots> ON CONFLICT (tenant_id, request_id) DO NOTHING\<close>: the trigger runs first, a
  second grant for the request is dropped, and a repeated \<open>jti\<close> is an error.
\<close>

definition insert_grant :: "pg \<Rightarrow> grant_row \<Rightarrow> db \<Rightarrow> sql_error + unit \<times> db" where
  "insert_grant G g s =
     need (jsonb_in G (g_binding g)) InvalidJson (\<lambda>binding.
     attempt (validate_grant_ttl g s) (\<lambda>e. e) (\<lambda>u.
     if list_ex (\<lambda>h. g_tenant h = g_tenant g \<and> g_request h = g_request g) (grants s) then Inr ((), s)
     else
     reject (list_ex (isGrant (g_tenant g) (g_jti g)) (grants s)) (UniqueViolation ''grants'') (
     reject (g_tenant g \<notin> set (tenants s) \<or> \<not> requestExists (g_tenant g) (g_request g) s \<or>
             \<not> userExists (g_tenant g) (g_user g) s \<or> \<not> deviceExists (g_tenant g) (g_device g) s \<or>
             \<not> nodeExists (g_tenant g) (g_node g) s \<or> \<not> resourceExists (g_tenant g) (g_resource g) s)
       (ForeignKeyViolation ''grants'') (
     Inr ((), s\<lparr>grants := grants s @ [g\<lparr>g_binding := binding\<rparr>]\<rparr>)))))"


section \<open>Running a transaction\<close>

text \<open>
  A handler's body ends by returning an error, by returning without a commit (the deferred
  \<open>tx.Rollback()\<close> discards its work), or at \<open>tx.Commit()\<close>. Where a handler returns its value beside the
  error of the commit, only the error is kept: by Go's convention a caller looks at the error first. Times are
  stored as given, to the nanosecond; PostgreSQL rounds them to microseconds.
\<close>

datatype 'b txend = Rollback 'b | Commit 'b

definition runTx ::
  "svc_env \<Rightarrow> (sql_error \<Rightarrow> 'e) \<Rightarrow> (sql_error \<Rightarrow> 'e) \<Rightarrow> (tx \<Rightarrow> ('e + 'b txend) \<times> tx) \<Rightarrow> db \<Rightarrow> ('e + 'b) \<times> db" where
  "runTx env wBegin wCommit body s =
     (if fault env ''begin'' then (Inl (wBegin ConnectionFault), s)
      else case body (beginTx s) of
             (Inl e, t) \<Rightarrow> (Inl e, s)
           | (Inr (Rollback x), t) \<Rightarrow> (Inr x, s)
           | (Inr (Commit x), t) \<Rightarrow>
               (let (r, s') = commitTx env s t in (attempt r wCommit (\<lambda>u. Inr x), s')))"

text \<open>
  A statement outside a transaction commits by itself. It may fail before it took effect, or take
  effect and lose the server's answer.
\<close>

definition autocommit ::
  "svc_env \<Rightarrow> string \<Rightarrow> (db \<Rightarrow> sql_error + 'a \<times> db) \<Rightarrow> db \<Rightarrow> (sql_error + 'a) \<times> db" where
  "autocommit env label f s =
     (if fault env label then (Inl ConnectionFault, s)
      else case f s of
             Inl e \<Rightarrow> (Inl e, s)
           | Inr (x, s') \<Rightarrow> (if fault env (label @ '': reply'') then Inl ConnectionFault else Inr x, s'))"

lemma autocommit_Inr [simp]:
  "autocommit env l f s = (Inr x, s') \<longleftrightarrow> \<not> fault env l \<and> \<not> fault env (l @ '': reply'') \<and> f s = Inr (x, s')"
  by (auto simp: autocommit_def split: sum.splits)

lemma autocommit_cases:
  assumes "autocommit env l f s = (r, s')"
  obtains (unchanged) e where "s' = s" "r = Inl e"
  | (ran) x where "f s = Inr (x, s')" "r = Inr x \<or> r = Inl ConnectionFault"
  using assms by (auto simp: autocommit_def split: if_splits sum.splits)

text \<open>Simplification rules that take a body apart into the statements that succeeded.\<close>

lemma exec_Inr [simp]:
  "exec env l f t = (Inr x, t') \<longleftrightarrow>
     \<not> tx_aborted t \<and> \<not> fault env l \<and> (\<exists>s. f (tx_db t) = Inr (x, s) \<and> t' = t\<lparr>tx_db := s\<rparr>)"
  by (auto simp: exec_def split: sum.splits if_splits)

lemma query_Inr [simp]:
  "query env l f t = (Inr x, t') \<longleftrightarrow>
     \<not> tx_aborted t \<and> \<not> fault env l \<and> f (tx_db t) = Some x \<and> t' = t"
  by (auto simp: query_def split: option.splits if_splits)

lemma step_Inr [simp]:
  "step m w k t = (Inr y, t'') \<longleftrightarrow> (\<exists>x t'. m t = (Inr x, t') \<and> k x t' = (Inr y, t''))"
  by (auto simp: step_def split: prod.splits sum.splits)

lemma beginTx_sel [simp]: "tx_db (beginTx s) = s" "\<not> tx_aborted (beginTx s)"
  by (simp_all add: beginTx_def)

text \<open>The database changes only through a body that ran to its commit in a sound transaction.\<close>

lemma runTx_cases:
  assumes "runTx env wB wC body s = (r, s')"
  obtains (unchanged) "s' = s" "\<And>x t. body (beginTx s) = (Inr (Commit x), t) \<Longrightarrow> \<exists>e. r = Inl e"
  | (committed) x t where "body (beginTx s) = (Inr (Commit x), t)" "\<not> tx_aborted t" "s' = tx_db t"
      "r = Inr x \<or> (\<exists>e. r = Inl e)"
  using assms
  by (fastforce simp: runTx_def commitTx_def split: if_splits prod.splits sum.splits txend.splits commit_outcome.splits)

lemma runTx_Inr:
  assumes "runTx env wB wC body s = (Inr x, s')"
  shows "(\<exists>t. body (beginTx s) = (Inr (Commit x), t) \<and> \<not> tx_aborted t \<and> s' = tx_db t) \<or>
         (\<exists>t. body (beginTx s) = (Inr (Rollback x), t) \<and> s' = s)"
  using assms
  by (fastforce simp: runTx_def commitTx_def split: if_splits prod.splits sum.splits txend.splits commit_outcome.splits)


section \<open>What a body keeps\<close>

text \<open>
  \<open>keeps I m\<close>: the statement or body \<open>m\<close> leads from a database with \<open>I\<close> to one with \<open>I\<close>, on every
  path. The rules decompose a body along its statements.
\<close>

named_theorems keeps_intros

definition keeps :: "(db \<Rightarrow> bool) \<Rightarrow> (tx \<Rightarrow> 'r \<times> tx) \<Rightarrow> bool" where
  "keeps I m \<longleftrightarrow> (\<forall>t. I (tx_db t) \<longrightarrow> I (tx_db (snd (m t))))"

lemma keepsD: "keeps I m \<Longrightarrow> I (tx_db t) \<Longrightarrow> I (tx_db (snd (m t)))"
  by (simp add: keeps_def)

lemma keeps_return [keeps_intros]: "keeps I (\<lambda>t. (r, t))" "keeps I (Pair r)"
  by (simp_all add: keeps_def)

lemma keeps_query [keeps_intros]: "keeps I (query env l f)"
  by (auto simp: keeps_def query_def split: option.splits)

lemma keeps_exec [keeps_intros]:
  "(\<And>s x s'. I s \<Longrightarrow> f s = Inr (x, s') \<Longrightarrow> I s') \<Longrightarrow> keeps I (exec env l f)"
  by (fastforce simp: keeps_def exec_def split: sum.splits)

lemma keeps_step [keeps_intros]:
  assumes "keeps I m" "\<And>x. keeps I (k x)"
  shows "keeps I (step m w k)"
  using assms by (fastforce simp: keeps_def step_def split: prod.splits sum.splits)

lemma keeps_ignoring [keeps_intros]:
  "keeps I m \<Longrightarrow> keeps I k \<Longrightarrow> keeps I (ignoring m k)"
  by (simp add: keeps_def ignoring_def)

lemma keeps_if [keeps_intros]:
  "(c \<Longrightarrow> keeps I m) \<Longrightarrow> (\<not> c \<Longrightarrow> keeps I m') \<Longrightarrow> keeps I (if c then m else m')"
  by simp

lemma keeps_case_sum [keeps_intros]:
  "(\<And>e. keeps I (f e)) \<Longrightarrow> (\<And>x. keeps I (g x)) \<Longrightarrow> keeps I (case v of Inl e \<Rightarrow> f e | Inr x \<Rightarrow> g x)"
  by (cases v) auto

lemma keeps_case_option [keeps_intros]:
  "keeps I f \<Longrightarrow> (\<And>x. keeps I (g x)) \<Longrightarrow> keeps I (case v of None \<Rightarrow> f | Some x \<Rightarrow> g x)"
  by (cases v) auto

lemma keeps_case_prod [keeps_intros]:
  "(\<And>x y. keeps I (f x y)) \<Longrightarrow> keeps I (case v of (x, y) \<Rightarrow> f x y)"
  by (cases v) auto

lemma runTx_keeps:
  assumes "keeps I body" "I s" "runTx env wB wC body s = (r, s')"
  shows "I s'"
  using assms(3)
proof (cases rule: runTx_cases)
  case (committed x t)
  then show ?thesis using keepsD [OF assms(1), of "beginTx s"] assms(2) by simp
qed (use assms(2) in simp)

text \<open>An aborted transaction stays aborted, whatever a body still does in it.\<close>

definition sticky :: "(tx \<Rightarrow> 'r \<times> tx) \<Rightarrow> bool" where
  "sticky m \<longleftrightarrow> (\<forall>t. tx_aborted t \<longrightarrow> tx_aborted (snd (m t)))"

lemma stickyD: "sticky m \<Longrightarrow> tx_aborted t \<Longrightarrow> tx_aborted (snd (m t))"
  by (simp add: sticky_def)

named_theorems sticky_intros

lemma sticky_basic [sticky_intros]:
  "sticky (\<lambda>t. (r, t))" "sticky (Pair r)" "sticky (query env l f)" "sticky (exec env l g)"
  by (auto simp: sticky_def query_def exec_def)

lemma sticky_step [sticky_intros]:
  "sticky m \<Longrightarrow> (\<And>x. sticky (k x)) \<Longrightarrow> sticky (step m w k)"
  by (fastforce simp: sticky_def step_def split: prod.splits sum.splits)

lemma sticky_ignoring [sticky_intros]: "sticky m \<Longrightarrow> sticky k \<Longrightarrow> sticky (ignoring m k)"
  by (simp add: sticky_def ignoring_def)


lemma sticky_cases [sticky_intros]:
  "(c \<Longrightarrow> sticky m) \<Longrightarrow> (\<not> c \<Longrightarrow> sticky m') \<Longrightarrow> sticky (if c then m else m')"
  "(\<And>e. sticky (f e)) \<Longrightarrow> (\<And>x. sticky (g x)) \<Longrightarrow> sticky (case v of Inl e \<Rightarrow> f e | Inr x \<Rightarrow> g x)"
  "sticky m \<Longrightarrow> (\<And>x. sticky (h x)) \<Longrightarrow> sticky (case y of None \<Rightarrow> m | Some x \<Rightarrow> h x)"
  "(\<And>a b. sticky (k a b)) \<Longrightarrow> sticky (case z of (a, b) \<Rightarrow> k a b)"
  by (simp, cases v, simp_all, cases y, simp_all, cases z, simp_all)

text \<open>
  Statements that abort the transaction when they fail. A call whose error is dropped then still
  decides over the transaction: if it is sound at the end, the call succeeded.
\<close>

definition failsHard :: "(tx \<Rightarrow> ('e + 'a) \<times> tx) \<Rightarrow> bool" where
  "failsHard m \<longleftrightarrow> (\<forall>t e t'. m t = (Inl e, t') \<longrightarrow> tx_aborted t')"

named_theorems failsHard_intros

lemma failsHard_exec [failsHard_intros]: "failsHard (exec env l f)"
  by (auto simp: failsHard_def exec_def split: sum.splits if_splits)

lemma failsHard_step [failsHard_intros]:
  "failsHard m \<Longrightarrow> (\<And>x. failsHard (k x)) \<Longrightarrow> failsHard (step m w k)"
  by (fastforce simp: failsHard_def step_def split: prod.splits sum.splits)

lemma failsHard_Inr [failsHard_intros]: "failsHard (Pair (Inr x))"
  by (simp add: failsHard_def)

lemma ignoring_sound:
  assumes "ignoring m k t = (r, t')" "\<not> tx_aborted t'" "sticky k" "failsHard m"
  obtains x t1 where "m t = (Inr x, t1)" "k t1 = (r, t')" "\<not> tx_aborted t1"
proof -
  obtain y t1 where m: "m t = (y, t1)" by fastforce
  then have k: "k t1 = (r, t')" using assms(1) by (simp add: ignoring_def)
  have n: "\<not> tx_aborted t1" using stickyD [OF assms(3), of t1] assms(2) k by auto
  then obtain x where "y = Inr x" using assms(4) m by (cases y) (auto simp: failsHard_def)
  then show thesis using m k n that by blast
qed


section \<open>Updates\<close>

lemma updateWhere_keys:
  assumes "\<And>r. key (f r) = key r"
  shows "map key (updateWhere Q f rows) = map key rows"
  using assms by (auto simp: updateWhere_def)

lemma set_updateWhere: "set (updateWhere Q f rows) = (\<lambda>r. if Q r then f r else r) ` set rows"
  by (simp add: updateWhere_def)

lemma length_updateWhere [simp]: "length (updateWhere Q f rows) = length rows"
  by (simp add: updateWhere_def)

lemma updateWhere_append [simp]:
  "updateWhere Q f (xs @ ys) = updateWhere Q f xs @ updateWhere Q f ys"
  by (simp add: updateWhere_def)

lemma updateWhere_none: "(\<And>r. r \<in> set rows \<Longrightarrow> \<not> Q r) \<Longrightarrow> updateWhere Q f rows = rows"
  by (induction rows) (auto simp: updateWhere_def)

text \<open>Looking up a row after an update that keeps the search key.\<close>

lemma find_updateWhere:
  assumes "\<And>r. K (f r) \<longleftrightarrow> K r"
  shows "find K (updateWhere Q f rows) = map_option (\<lambda>r. if Q r then f r else r) (find K rows)"
  using assms by (induction rows) (auto simp: updateWhere_def)

lemma list_ex_updateWhere: "(\<And>r. K (f r) = K r) \<Longrightarrow> list_ex K (updateWhere Q f rows) = list_ex K rows"
  by (induction rows) (auto simp: updateWhere_def)

lemma find_append: "find K (xs @ ys) = (case find K xs of None \<Rightarrow> find K ys | Some x \<Rightarrow> Some x)"
  by (induction xs) auto

lemma find_Some_set: "find K xs = Some x \<Longrightarrow> x \<in> set xs \<and> K x"
  by (auto simp: find_Some_iff)

lemma find_None_list_ex: "find K xs = None \<longleftrightarrow> \<not> list_ex K xs"
  by (auto simp: find_None_iff list_ex_iff)

lemma updateWhere_compose:
  assumes "\<And>r. Q r \<Longrightarrow> R (f r)" "\<And>r. \<not> Q r \<Longrightarrow> \<not> R r"
  shows "updateWhere R g (updateWhere Q f rows) = updateWhere Q (\<lambda>r. g (f r)) rows"
  using assms by (auto simp: updateWhere_def)

end
