(* ===== verification/AuditChain.thy ===== *)
theory AuditChain
  imports Database
begin

text \<open>
  \<open>service/internal/audit/chain.go\<close>: the per-tenant audit chain. \<open>InsertTx\<close> runs the migration's
  \<open>insert_audit_event\<close> and then overwrites the row's hash; \<open>createCheckpoints\<close> signs the audit heads
  and stores checkpoints; \<open>VerifyChain\<close> checks a range of rows. JSON encodings are parameters: of a
  raw message (\<open>json_raw\<close>, which validates and compacts it) and of a checkpoint.
\<close>

section \<open>Data\<close>

record AuditEvent =
  ev_TenantID :: uuid
  ev_EventType :: string
  ev_Producer :: string
  ev_Details :: audit_details
  ev_Payload :: bytes

abbreviation EventApprovalRequest :: string where "EventApprovalRequest \<equiv> ''APPROVAL_REQUEST''"
abbreviation EventApprovalDecision :: string where "EventApprovalDecision \<equiv> ''APPROVAL_DECISION''"
abbreviation EventGrantIssued :: string where "EventGrantIssued \<equiv> ''GRANT_ISSUED''"
abbreviation EventGrantConsumed :: string where "EventGrantConsumed \<equiv> ''GRANT_CONSUMED''"

record Checkpoint =
  cp_TenantID :: uuid
  cp_FirstSeq :: int
  cp_LastSeq :: int
  cp_LastHash :: bytes
  cp_CreatedAt :: gotime
  cp_Signature :: bytes
  cp_Kid :: string

record audit_json =
  json_raw :: "bytes \<Rightarrow> bytes option"
  json_checkpoint :: "Checkpoint \<Rightarrow> bytes"

datatype audit_error =
    QueryChain sql_error
  | ChainBroken int
  | RowHashMismatch int
  | QueryHeads sql_error
  | SignCheckpoint
  | ExportCheckpoint sql_error


section \<open>Operations\<close>

text \<open>The tenant is a parameter that the hash does not use.\<close>

definition computeRowHash :: "prims \<Rightarrow> uuid \<Rightarrow> int \<Rightarrow> string \<Rightarrow> string \<Rightarrow> bytes \<Rightarrow> bytes" where
  "computeRowHash P tenantID seq eventType producer payload =
     sha256 P (be_bytes 8 seq @ str_bytes eventType @ str_bytes producer @ payload)"

definition isAudit :: "uuid \<Rightarrow> int \<Rightarrow> audit_row \<Rightarrow> bool" where
  "isAudit tenant seq a \<longleftrightarrow> a_tenant a = tenant \<and> a_seq a = seq"

text \<open>A payload that does not marshal becomes the nil slice, hashed as the empty string.\<close>

definition InsertTx :: "prims \<Rightarrow> pg \<Rightarrow> audit_json \<Rightarrow> svc_env \<Rightarrow> string \<Rightarrow> AuditEvent \<Rightarrow> int txm" where
  "InsertTx P G J env label event =
     (let eventBytes = json_raw J (ev_Payload event) in
      step (exec env (label @ '': insert_audit_event'')
             (insert_audit_event P G (pgNow env) (ev_TenantID event) (ev_EventType event) (ev_Producer event)
               (sqlBytes G eventBytes)))
        (\<lambda>e. e) (\<lambda>seq.
      let rowHash = computeRowHash P (ev_TenantID event) seq (ev_EventType event) (ev_Producer event)
                      (case eventBytes of None \<Rightarrow> [] | Some b \<Rightarrow> b) in
      step (exec env (label @ '': update details'')
             (\<lambda>s. Inr ((), s\<lparr>audit_events := updateWhere (isAudit (ev_TenantID event) seq)
                    (\<lambda>a. a\<lparr>a_details := ev_Details event, a_row_hash := rowHash\<rparr>) (audit_events s)\<rparr>)))
        (\<lambda>e. e) (\<lambda>u. Pair (Inr seq))))"

text \<open>
  Autocommitted; the row's number is one above the largest of the tenant's rows. The label tells the
  statements of one loop apart, so that any of them may fail.
\<close>

definition exportCheckpoint ::
  "pg \<Rightarrow> audit_json \<Rightarrow> svc_env \<Rightarrow> string \<Rightarrow> Checkpoint \<Rightarrow> db \<Rightarrow> (sql_error + unit) \<times> db" where
  "exportCheckpoint G J env label cp =
     autocommit env (label @ '': export'') (\<lambda>s.
       need (jsonb_in G (json_checkpoint J cp)) InvalidJson (\<lambda>payload.
       attempt (bigint (maxOr 0 (map a_seq (filter (\<lambda>a. a_tenant a = cp_TenantID cp) (audit_events s))) + 1))
         (\<lambda>e. e) (\<lambda>seq.
       Inr ((), s\<lparr>audit_events := audit_events s @
         [\<lparr>a_tenant = cp_TenantID cp, a_seq = seq, a_event_type = ''AUDIT_CHECKPOINT'', a_producer = ''service'',
           a_payload = Some payload, a_occurred_at = pgNow env, a_prev_hash = cp_LastHash cp,
           a_row_hash = cp_LastHash cp, a_details = noDetails\<rparr>]\<rparr>))))"

definition checkpointOf :: "gotime \<Rightarrow> head_row \<Rightarrow> Checkpoint" where
  "checkpointOf nw h =
     \<lparr>cp_TenantID = h_tenant h,
      cp_FirstSeq = (if h_last_seq h - 9999 < 1 then 1 else h_last_seq h - 9999),
      cp_LastSeq = h_last_seq h, cp_LastHash = h_last_hash h, cp_CreatedAt = nw,
      cp_Signature = [], cp_Kid = []\<rparr>"

text \<open>The loop over the heads that the query returned, ending at the first error.\<close>

fun checkpointLoop ::
  "pg \<Rightarrow> audit_json \<Rightarrow> (bytes \<Rightarrow> (bytes \<times> string) option) \<Rightarrow> svc_env \<Rightarrow> head_row list \<Rightarrow> db
     \<Rightarrow> (audit_error + unit) \<times> db" where
  "checkpointLoop G J signer env [] s = (Inr (), s)"
| "checkpointLoop G J signer env (h # hs) s =
     (let label = ''checkpoint '' @ show_nat (length hs);
          cp = checkpointOf (clock env label) h
      in case signer (json_checkpoint J cp) of
           None \<Rightarrow> (Inl SignCheckpoint, s)
         | Some (sig, kid) \<Rightarrow>
             (case exportCheckpoint G J env label (cp\<lparr>cp_Signature := sig, cp_Kid := kid\<rparr>) s of
                (Inl e, s') \<Rightarrow> (Inl (ExportCheckpoint e), s')
              | (Inr u, s') \<Rightarrow> checkpointLoop G J signer env hs s'))"

definition createCheckpoints ::
  "pg \<Rightarrow> audit_json \<Rightarrow> (bytes \<Rightarrow> (bytes \<times> string) option) \<Rightarrow> svc_env \<Rightarrow> db \<Rightarrow> (audit_error + unit) \<times> db" where
  "createCheckpoints G J signer env s =
     (if fault env ''query heads'' then (Inl (QueryHeads ConnectionFault), s)
      else checkpointLoop G J signer env (filter (\<lambda>h. h_last_seq h > 0) (audit_heads s)) s)"

text \<open>
  The loop that \<open>Start\<close> runs, over what its \<open>select\<close> takes one after the other: ticks, each with the environment
  of its checkpoint run, and the closing of the stop channel. An error of a run is dropped.
\<close>

datatype loop_event = TickerC svc_env | StopCh

fun checkpointRun ::
  "pg \<Rightarrow> audit_json \<Rightarrow> (bytes \<Rightarrow> (bytes \<times> string) option) \<Rightarrow> loop_event list \<Rightarrow> db \<Rightarrow> db" where
  "checkpointRun G J signer [] s = s"
| "checkpointRun G J signer (StopCh # events) s = s"
| "checkpointRun G J signer (TickerC env # events) s =
     checkpointRun G J signer events (snd (createCheckpoints G J signer env s))"

definition sha256Equal :: "bytes \<Rightarrow> bytes \<Rightarrow> bool" where
  "sha256Equal a b \<longleftrightarrow> length a = length b \<and> list_all2 (=) a b"

fun verifyRows :: "prims \<Rightarrow> uuid \<Rightarrow> bool \<Rightarrow> bytes \<Rightarrow> audit_row list \<Rightarrow> audit_error + bool" where
  "verifyRows P tenantID firstRow prevHash [] = Inr True"
| "verifyRows P tenantID firstRow prevHash (a # as) =
     reject (\<not> firstRow \<and> \<not> sha256Equal prevHash (a_prev_hash a)) (ChainBroken (a_seq a)) (
     let expectedHash = computeRowHash P tenantID (a_seq a) (a_event_type a) (a_producer a)
                          (case a_payload a of None \<Rightarrow> [] | Some b \<Rightarrow> b) in
     reject (\<not> sha256Equal expectedHash (a_row_hash a)) (RowHashMismatch (a_seq a)) (
     verifyRows P tenantID False (a_row_hash a) as))"

definition chainRows :: "uuid \<Rightarrow> int \<Rightarrow> int \<Rightarrow> db \<Rightarrow> audit_row list" where
  "chainRows tenantID fromSeq toSeq s =
     sort_key a_seq (filter (\<lambda>a. a_tenant a = tenantID \<and> fromSeq \<le> a_seq a \<and> a_seq a \<le> toSeq) (audit_events s))"

definition VerifyChain :: "prims \<Rightarrow> svc_env \<Rightarrow> uuid \<Rightarrow> int \<Rightarrow> int \<Rightarrow> db \<Rightarrow> audit_error + bool" where
  "VerifyChain P env tenantID fromSeq toSeq s =
     reject (fault env ''query chain'') (QueryChain ConnectionFault) (
     verifyRows P tenantID True [] (chainRows tenantID fromSeq toSeq s))"


section \<open>Dense sequence numbers\<close>

definition tenantEvents :: "uuid \<Rightarrow> db \<Rightarrow> audit_row list" where
  "tenantEvents tenant s = filter (\<lambda>a. a_tenant a = tenant) (audit_events s)"

definition headSeq :: "uuid \<Rightarrow> db \<Rightarrow> int" where
  "headSeq tenant s = (case findHead tenant s of None \<Rightarrow> 0 | Some h \<Rightarrow> h_last_seq h)"

definition headHash :: "uuid \<Rightarrow> db \<Rightarrow> bytes" where
  "headHash tenant s = (case findHead tenant s of None \<Rightarrow> [0] | Some h \<Rightarrow> h_last_hash h)"

text \<open>The tenant's events, in the order of insertion, are numbered from 1 to the head's number.\<close>

definition auditInv :: "uuid \<Rightarrow> db \<Rightarrow> bool" where
  "auditInv tenant s \<longleftrightarrow> 0 \<le> headSeq tenant s \<and> map a_seq (tenantEvents tenant s) = [1..headSeq tenant s]"

lemma auditInv_cong:
  "tenantEvents T s' = tenantEvents T s \<Longrightarrow> findHead T s' = findHead T s \<Longrightarrow> auditInv T s' = auditInv T s"
  by (simp add: auditInv_def headSeq_def)

text \<open>A successful \<open>insert_audit_event\<close>, part by part.\<close>

lemma findHead_tenant: "findHead T s = Some h \<Longrightarrow> h_tenant h = T"
  unfolding findHead_def by (auto dest: find_Some_set)

lemma ensureHead_cases:
  assumes "ensureHead T s = Inr (m, h, s1)"
  obtains (old) "findHead T s = Some \<lparr>h_tenant = T, h_last_seq = m, h_last_hash = h\<rparr>" "s1 = s"
  | (new) "findHead T s = None" "m = 0" "h = [0]"
      "s1 = s\<lparr>audit_heads := audit_heads s @ [\<lparr>h_tenant = T, h_last_seq = 0, h_last_hash = [0]\<rparr>]\<rparr>"
proof (cases "findHead T s")
  case None
  then show ?thesis using assms by (intro new) (auto simp: ensureHead_def)
next
  case (Some r)
  then have "h_tenant r = T" by (simp add: findHead_tenant)
  then show ?thesis using assms Some by (intro old; cases r) (auto simp: ensureHead_def)
qed

lemma ensureHead_Inr:
  assumes "ensureHead T s = Inr (m, h, s1)"
  shows "m = headSeq T s" "h = headHash T s" "\<exists>hs. s1 = s\<lparr>audit_heads := hs\<rparr>"
    and "findHead U s1 = (if U = T then Some \<lparr>h_tenant = T, h_last_seq = m, h_last_hash = h\<rparr> else findHead U s)"
proof -
  show "m = headSeq T s" "h = headHash T s"
    using assms by (rule ensureHead_cases; simp add: headSeq_def headHash_def)+
  show "findHead U s1 = (if U = T then Some \<lparr>h_tenant = T, h_last_seq = m, h_last_hash = h\<rparr> else findHead U s)"
    using assms
  proof (cases rule: ensureHead_cases)
    case new
    then show ?thesis by (auto simp: findHead_def find_append split: option.splits)
  qed simp
  show "\<exists>hs. s1 = s\<lparr>audit_heads := hs\<rparr>"
    using assms
  proof (cases rule: ensureHead_cases)
    case old
    then show ?thesis by (intro exI [of _ "audit_heads s"]) simp
  next
    case new
    then show ?thesis by blast
  qed
qed

lemma findHead_advance:
  "findHead U (s\<lparr>audit_events := es, audit_heads := updateWhere (\<lambda>h. h_tenant h = T)
      (\<lambda>h. h\<lparr>h_last_seq := n, h_last_hash := x\<rparr>) (audit_heads s)\<rparr>) =
   (if U = T then map_option (\<lambda>h. h\<lparr>h_last_seq := n, h_last_hash := x\<rparr>) (findHead T s) else findHead U s)"
proof -
  have k: "h_tenant (h\<lparr>h_last_seq := a, h_last_hash := b\<rparr>) = U \<longleftrightarrow> h_tenant h = U" for h a b by simp
  show ?thesis
    by (cases "findHead U s")
       (auto simp: findHead_def find_updateWhere [where K = "\<lambda>h. h_tenant h = U", OF k] dest: find_Some_set)
qed

text \<open>The row that \<open>insert_audit_event\<close> appends.\<close>

definition sqlRow :: "prims \<Rightarrow> pg \<Rightarrow> gotime \<Rightarrow> uuid \<Rightarrow> string \<Rightarrow> string \<Rightarrow> bytes option \<Rightarrow> int \<Rightarrow> bytes \<Rightarrow> audit_row" where
  "sqlRow P G nw T ty pr payload n prev =
     \<lparr>a_tenant = T, a_seq = n, a_event_type = ty, a_producer = pr, a_payload = payload, a_occurred_at = nw,
      a_prev_hash = prev, a_row_hash = audit_row_hash P G nw prev n ty, a_details = noDetails\<rparr>"

text \<open>What the column stores for the data passed.\<close>

definition storedJson :: "pg \<Rightarrow> bytes option \<Rightarrow> bytes option" where
  "storedJson G data = (case data of None \<Rightarrow> None | Some d \<Rightarrow> jsonb_in G d)"

lemma insert_audit_event_Inr:
  assumes "insert_audit_event P G nw T ty pr data s = Inr (n, s')"
  shows "n = headSeq T s + 1" "inInt64 n" "\<not> list_ex (isAudit T n) (audit_events s)"
    and "audit_events s' = audit_events s @ [sqlRow P G nw T ty pr (storedJson G data) n (headHash T s)]"
    and "findHead U s' = (if U = T then Some \<lparr>h_tenant = T, h_last_seq = n,
           h_last_hash = audit_row_hash P G nw (headHash T s) n ty\<rparr> else findHead U s)"
    and "\<exists>es hs. s' = s\<lparr>audit_events := es, audit_heads := hs\<rparr>"
proof -
  obtain m h s1 where e: "ensureHead T s = Inr (m, h, s1)" and n: "n = m + 1" "inInt64 n"
    and u: "\<not> list_ex (\<lambda>a. a_tenant a = T \<and> a_seq a = n) (audit_events s1)"
    and s': "s' = s1\<lparr>audit_events := audit_events s1 @ [sqlRow P G nw T ty pr (storedJson G data) n h],
       audit_heads := updateWhere (\<lambda>h. h_tenant h = T)
         (\<lambda>r. r\<lparr>h_last_seq := n, h_last_hash := audit_row_hash P G nw h n ty\<rparr>) (audit_heads s1)\<rparr>"
    using assms unfolding insert_audit_event_def attempt_Inr
    by (cases data) (auto simp: bigint_def sqlRow_def storedJson_def Let_def)
  obtain hs where s1: "s1 = s\<lparr>audit_heads := hs\<rparr>" using ensureHead_Inr(3) [OF e] by blast
  note mh = ensureHead_Inr(1,2) [OF e]
  show "n = headSeq T s + 1" "inInt64 n" using n mh by simp_all
  show "\<not> list_ex (isAudit T n) (audit_events s)" using u by (simp add: s1 isAudit_def list_ex_iff)
  show "audit_events s' = audit_events s @ [sqlRow P G nw T ty pr (storedJson G data) n (headHash T s)]"
    by (simp add: s' s1 mh)
  show "\<exists>es hs. s' = s\<lparr>audit_events := es, audit_heads := hs\<rparr>" unfolding s' s1 by auto
  show "findHead U s' = (if U = T then Some \<lparr>h_tenant = T, h_last_seq = n,
           h_last_hash = audit_row_hash P G nw (headHash T s) n ty\<rparr> else findHead U s)"
    using ensureHead_Inr(4) [OF e, of U] ensureHead_Inr(4) [OF e, of T] unfolding s' findHead_advance
    by (simp add: mh)
qed

text \<open>A successful \<open>InsertTx\<close> appends one row, with the hash computed in Go and the details.\<close>

definition eventBytes :: "pg \<Rightarrow> audit_json \<Rightarrow> AuditEvent \<Rightarrow> bytes option" where
  "eventBytes G J ev = sqlBytes G (json_raw J (ev_Payload ev))"

definition goRowHash :: "prims \<Rightarrow> audit_json \<Rightarrow> AuditEvent \<Rightarrow> int \<Rightarrow> bytes" where
  "goRowHash P J ev n = computeRowHash P (ev_TenantID ev) n (ev_EventType ev) (ev_Producer ev)
     (case json_raw J (ev_Payload ev) of None \<Rightarrow> [] | Some b \<Rightarrow> b)"

definition goRow :: "prims \<Rightarrow> pg \<Rightarrow> audit_json \<Rightarrow> gotime \<Rightarrow> AuditEvent \<Rightarrow> int \<Rightarrow> bytes \<Rightarrow> audit_row" where
  "goRow P G J nw ev n prev =
     \<lparr>a_tenant = ev_TenantID ev, a_seq = n, a_event_type = ev_EventType ev, a_producer = ev_Producer ev,
      a_payload = storedJson G (eventBytes G J ev), a_occurred_at = nw, a_prev_hash = prev,
      a_row_hash = goRowHash P J ev n, a_details = ev_Details ev\<rparr>"

lemma InsertTx_Inr:
  assumes "InsertTx P G J env l ev t = (Inr n, t')"
  defines "T \<equiv> ev_TenantID ev" and "s \<equiv> tx_db t" and "s' \<equiv> tx_db t'"
  shows "n = headSeq T s + 1" "\<not> tx_aborted t" "\<not> tx_aborted t'"
    and "audit_events s' = audit_events s @ [goRow P G J (pgNow env) ev n (headHash T s)]"
    and "findHead U s' = (if U = T then Some \<lparr>h_tenant = T, h_last_seq = n,
           h_last_hash = audit_row_hash P G (pgNow env) (headHash T s) n (ev_EventType ev)\<rparr> else findHead U s)"
    and "\<exists>es hs. s' = s\<lparr>audit_events := es, audit_heads := hs\<rparr>"
proof -
  obtain s1 where i: "insert_audit_event P G (pgNow env) T (ev_EventType ev) (ev_Producer ev) (eventBytes G J ev) s = Inr (n, s1)"
    and ab: "\<not> tx_aborted t"
    and t': "t' = t\<lparr>tx_db := s1\<lparr>audit_events := updateWhere (isAudit T n)
       (\<lambda>a. a\<lparr>a_details := ev_Details ev, a_row_hash := goRowHash P J ev n\<rparr>) (audit_events s1)\<rparr>\<rparr>"
    using assms(1)
    by (auto simp: InsertTx_def Let_def T_def s_def eventBytes_def goRowHash_def)
  note q = insert_audit_event_Inr [OF i]
  have o: "updateWhere (isAudit T n) f (audit_events s) = audit_events s" for f
    using q(3) by (intro updateWhere_none) (auto simp: list_ex_iff)
  have s': "s' = s1\<lparr>audit_events := updateWhere (isAudit T n)
       (\<lambda>a. a\<lparr>a_details := ev_Details ev, a_row_hash := goRowHash P J ev n\<rparr>) (audit_events s1)\<rparr>"
    by (simp add: s'_def t')
  show "n = headSeq T s + 1" "\<not> tx_aborted t" "\<not> tx_aborted t'" using q(1) ab t' by simp_all
  show "audit_events s' = audit_events s @ [goRow P G J (pgNow env) ev n (headHash T s)]"
    by (simp add: s' q(4) o) (simp add: updateWhere_def sqlRow_def goRow_def isAudit_def T_def)
  show "findHead U s' = (if U = T then Some \<lparr>h_tenant = T, h_last_seq = n,
           h_last_hash = audit_row_hash P G (pgNow env) (headHash T s) n (ev_EventType ev)\<rparr> else findHead U s)"
    using q(5) [of U] by (simp add: s' findHead_def)
  obtain es hs where "s1 = s\<lparr>audit_events := es, audit_heads := hs\<rparr>" using q(6) by blast
  then show "\<exists>es hs. s' = s\<lparr>audit_events := es, audit_heads := hs\<rparr>"
    unfolding s' by (intro exI [of _ "updateWhere (isAudit T n)
       (\<lambda>a. a\<lparr>a_details := ev_Details ev, a_row_hash := goRowHash P J ev n\<rparr>) es"] exI [of _ hs]) simp
qed

lemma InsertTx_auditInv:
  assumes "InsertTx P G J env l ev t = (Inr n, t')" and "auditInv T (tx_db t)"
  shows "auditInv T (tx_db t')"
proof (cases "T = ev_TenantID ev")
  case True
  have "tenantEvents T (tx_db t') = tenantEvents T (tx_db t) @ [goRow P G J (pgNow env) ev n (headHash T (tx_db t))]"
    using InsertTx_Inr(4) [OF assms(1)] True by (simp add: tenantEvents_def goRow_def)
  moreover have "headSeq T (tx_db t') = n" "n = headSeq T (tx_db t) + 1"
    using InsertTx_Inr(1,5) [OF assms(1)] True by (simp_all add: headSeq_def)
  ultimately show ?thesis
    using assms(2) upto_rec2 [of 1 n] by (simp add: auditInv_def goRow_def)
next
  case False
  then show ?thesis
    using assms(2) InsertTx_Inr(4,5) [OF assms(1)]
    by (subst auditInv_cong [of _ _ "tx_db t"]) (simp_all add: tenantEvents_def goRow_def)
qed

text \<open>Predicates that do not look at the audit tables are kept, as is the numbering, on every path.\<close>

lemma keeps_InsertTx [keeps_intros]:
  assumes "\<And>s es hs. I (s\<lparr>audit_events := es, audit_heads := hs\<rparr>) = I s"
  shows "keeps I (InsertTx P G J env l ev)"
proof -
  have e: "I (s\<lparr>audit_events := es\<rparr>) = I s" for s es
    using assms [of "audit_heads s" es s] by simp
  have i: "I s'" if "I s" and ins: "insert_audit_event P G nw T ty pr data s = Inr (n, s')" for nw T ty pr data n s s'
  proof -
    obtain es hs where "s' = s\<lparr>audit_events := es, audit_heads := hs\<rparr>"
      using insert_audit_event_Inr(6) [OF ins] by blast
    then show ?thesis using \<open>I s\<close> assms by simp
  qed
  show ?thesis
    unfolding InsertTx_def Let_def
    by (intro keeps_step keeps_exec keeps_return) (erule i, assumption, simp only: sum.inject prod.inject, metis e)
qed

lemma sticky_InsertTx [sticky_intros]: "sticky (InsertTx P G J env l ev)"
  unfolding InsertTx_def Let_def by (intro sticky_intros)

lemma failsHard_InsertTx [failsHard_intros]: "failsHard (InsertTx P G J env l ev)"
  unfolding InsertTx_def Let_def by (intro failsHard_intros)

lemma insert_audit_event_auditInv:
  assumes "insert_audit_event P G nw U ty pr data s = Inr (n, s')" "auditInv T s"
  shows "auditInv T s'"
proof (cases "T = U")
  case True
  have "tenantEvents T s' = tenantEvents T s @ [sqlRow P G nw T ty pr (storedJson G data) n (headHash T s)]"
    using insert_audit_event_Inr(4) [OF assms(1)] True by (simp add: tenantEvents_def sqlRow_def)
  moreover have "headSeq T s' = n" "n = headSeq T s + 1"
    using insert_audit_event_Inr(1,5) [OF assms(1)] True by (simp_all add: headSeq_def)
  ultimately show ?thesis
    using assms(2) upto_rec2 [of 1 n] by (simp add: auditInv_def sqlRow_def)
next
  case False
  then show ?thesis
    using assms(2) insert_audit_event_Inr(4,5) [OF assms(1)]
    by (subst auditInv_cong [of _ _ s]) (simp_all add: tenantEvents_def sqlRow_def)
qed

lemma auditInv_details:
  assumes "\<And>a. a_seq (f a) = a_seq a" "\<And>a. a_tenant (f a) = a_tenant a"
  shows "auditInv T (s\<lparr>audit_events := updateWhere Q f (audit_events s)\<rparr>) = auditInv T s"
proof -
  have "map a_seq (filter (\<lambda>a. a_tenant a = T) (updateWhere Q f xs)) = map a_seq (filter (\<lambda>a. a_tenant a = T) xs)" for xs
    using assms by (induction xs) (auto simp: updateWhere_def)
  then show ?thesis by (simp add: auditInv_def headSeq_def findHead_def tenantEvents_def)
qed

lemma keeps_InsertTx_auditInv [keeps_intros]: "keeps (auditInv T) (InsertTx P G J env l ev)"
  unfolding InsertTx_def Let_def
  by (intro keeps_intros; (elim insert_audit_event_auditInv, assumption)?)
     (auto simp: auditInv_details)

text \<open>
  C15: the audit trail of a tenant is gapless: a successful \<open>InsertTx\<close> returns the number of the
  tenant's events plus one, appends a single row with that number that carries the event's type,
  producer and details, links it to the tenant's audit head, and keeps all numbers dense for every
  tenant.
\<close>

theorem InsertTx_appends:
  assumes run: "InsertTx P G J env l ev t = (Inr n, t')"
    and inv: "\<And>T. auditInv T (tx_db t)"
  shows "n = int (length (tenantEvents (ev_TenantID ev) (tx_db t))) + 1 \<and>
         audit_events (tx_db t') = audit_events (tx_db t) @
           [goRow P G J (pgNow env) ev n (headHash (ev_TenantID ev) (tx_db t))] \<and>
         auditInv U (tx_db t')"
proof -
  have "length (map a_seq (tenantEvents (ev_TenantID ev) (tx_db t))) = nat (headSeq (ev_TenantID ev) (tx_db t))"
    using inv [of "ev_TenantID ev"] unfolding auditInv_def by (simp only: length_upto)
  moreover have "0 \<le> headSeq (ev_TenantID ev) (tx_db t)" using inv [of "ev_TenantID ev"] by (simp add: auditInv_def)
  ultimately show ?thesis
    using InsertTx_Inr(1,4) [OF run] InsertTx_auditInv [OF run inv] by simp
qed


section \<open>Checkpoints\<close>

text \<open>Rows that checkpoints leave: one of a tenant with a head, with the head's hash in both columns.\<close>

definition checkpointRow :: "db \<Rightarrow> audit_row \<Rightarrow> bool" where
  "checkpointRow s a \<longleftrightarrow> a_event_type a = ''AUDIT_CHECKPOINT'' \<and> a_prev_hash a = a_row_hash a \<and>
     (\<exists>h \<in> set (audit_heads s). 0 < h_last_seq h \<and> h_tenant h = a_tenant a \<and> h_last_hash h = a_row_hash a)"

definition checkpointsAppended :: "db \<Rightarrow> db \<Rightarrow> bool" where
  "checkpointsAppended s s' \<longleftrightarrow>
     (\<exists>rows. s' = s\<lparr>audit_events := audit_events s @ rows\<rparr> \<and> list_all (checkpointRow s) rows)"

lemma checkpointsAppended_refl [simp]: "checkpointsAppended s s"
  unfolding checkpointsAppended_def by (intro exI [of _ "[]"]) simp

lemma checkpointsAppended_trans:
  assumes "checkpointsAppended s s'" and "checkpointsAppended s' s''"
  shows "checkpointsAppended s s''"
proof -
  obtain xs where xs: "s' = s\<lparr>audit_events := audit_events s @ xs\<rparr>" "list_all (checkpointRow s) xs"
    using assms(1) unfolding checkpointsAppended_def by blast
  obtain ys where ys: "s'' = s'\<lparr>audit_events := audit_events s' @ ys\<rparr>" "list_all (checkpointRow s') ys"
    using assms(2) unfolding checkpointsAppended_def by blast
  have "checkpointRow s' = checkpointRow s" by (simp add: fun_eq_iff checkpointRow_def xs(1))
  then show ?thesis unfolding checkpointsAppended_def using xs ys by (intro exI [of _ "xs @ ys"]) simp
qed

lemma exportCheckpoint_appends:
  assumes "exportCheckpoint G J env l (checkpointOf nw h\<lparr>cp_Signature := sig, cp_Kid := kid\<rparr>) s = (r, s')"
    and "h \<in> set (audit_heads s)" and "0 < h_last_seq h"
  shows "checkpointsAppended s s'"
  using assms(1) [unfolded exportCheckpoint_def]
proof (cases rule: autocommit_cases)
  case (ran x)
  then obtain a where "s' = s\<lparr>audit_events := audit_events s @ [a]\<rparr>"
      "a_event_type a = ''AUDIT_CHECKPOINT''" "a_tenant a = h_tenant h" "a_prev_hash a = h_last_hash h" "a_row_hash a = h_last_hash h"
    by (auto simp: checkpointOf_def)
  then show ?thesis
    unfolding checkpointsAppended_def using assms(2,3) by (intro exI [of _ "[a]"]) (auto simp: checkpointRow_def)
qed simp

lemma checkpointLoop_appends:
  assumes "checkpointLoop G J signer env hs s = (r, s')" and "set hs \<subseteq> {h \<in> set (audit_heads s). 0 < h_last_seq h}"
  shows "checkpointsAppended s s'"
  using assms
proof (induction hs arbitrary: s)
  case (Cons h hs)
  let ?l = "''checkpoint '' @ show_nat (length hs)"
  let ?cp = "checkpointOf (clock env ?l) h"
  show ?case
  proof (cases "signer (json_checkpoint J ?cp)")
    case None
    then show ?thesis using Cons.prems(1) by (simp add: Let_def)
  next
    case (Some sk)
    obtain sig kid where sk: "sk = (sig, kid)" by (cases sk)
    obtain r1 s1 where x: "exportCheckpoint G J env ?l (?cp\<lparr>cp_Signature := sig, cp_Kid := kid\<rparr>) s = (r1, s1)" by fastforce
    have one: "checkpointsAppended s s1" using exportCheckpoint_appends [OF x] Cons.prems(2) by simp
    then have "audit_heads s1 = audit_heads s" by (auto simp: checkpointsAppended_def)
    then have "checkpointsAppended s1 s'"
      using Cons x Some sk by (cases r1) (auto simp: Let_def)
    with one show ?thesis by (rule checkpointsAppended_trans)
  qed
qed simp

text \<open>
  Over any run of the checkpoint loop, whatever fails in it, the only change of the database is rows
  appended to the audit log: each of type \<open>AUDIT_CHECKPOINT\<close>, for a tenant with events, with the hash of
  the tenant's head in both hash columns. The heads do not move.
\<close>

theorem checkpoints_only_append:
  "\<exists>rows. checkpointRun G J signer events s = s\<lparr>audit_events := audit_events s @ rows\<rparr> \<and> list_all (checkpointRow s) rows"
proof -
  have "checkpointsAppended s (checkpointRun G J signer events s)"
  proof (induction G J signer events s rule: checkpointRun.induct)
    case (3 G J signer env events s)
    have "checkpointsAppended s (snd (createCheckpoints G J signer env s))"
      unfolding createCheckpoints_def
      by (auto intro: checkpointLoop_appends [OF surjective_pairing])
    from checkpointsAppended_trans [OF this 3] show ?case by simp
  qed simp_all
  then show ?thesis unfolding checkpointsAppended_def .
qed

text \<open>
  Exporting a checkpoint stops the audit trail: the checkpoint's row takes the tenant's next
  sequence number without advancing the audit head, so every later \<open>InsertTx\<close> for the tenant fails
  on the primary key and aborts the transaction it runs in.
\<close>

theorem checkpoint_blocks_audit:
  assumes inv: "auditInv T s" and cp: "cp_TenantID cp = T"
    and export: "exportCheckpoint G J env cl cp s = (Inr (), s')"
    and ev: "ev_TenantID ev = T" and db: "tx_db t = s'"
  shows "tx_aborted (snd (InsertTx P G J env2 l ev t)) \<and> fst (InsertTx P G J env2 l ev t) \<noteq> Inr n"
proof -
  have mx: "maxOr 0 (map a_seq (tenantEvents T s)) = headSeq T s"
    using inv by (auto simp: auditInv_def maxOr_def intro!: Max_eqI)
  have seq: "list_ex (isAudit T (headSeq T s + 1)) (audit_events s')" "findHead T s' = findHead T s"
    using export cp mx
    by (auto simp: exportCheckpoint_def bigint_def tenantEvents_def isAudit_def findHead_def)
  have no: "\<nexists>m s2. insert_audit_event P G (pgNow env2) T (ev_EventType ev) (ev_Producer ev) (eventBytes G J ev) s' = Inr (m, s2)"
  proof
    assume "\<exists>m s2. insert_audit_event P G (pgNow env2) T (ev_EventType ev) (ev_Producer ev) (eventBytes G J ev) s' = Inr (m, s2)"
    then obtain m s2 where i: "insert_audit_event P G (pgNow env2) T (ev_EventType ev) (ev_Producer ev) (eventBytes G J ev) s' = Inr (m, s2)"
      by blast
    have "m = headSeq T s + 1" using insert_audit_event_Inr(1) [OF i] seq(2) by (simp add: headSeq_def)
    then show False using insert_audit_event_Inr(3) [OF i] seq(1) by simp
  qed
  then show ?thesis
    using ev db
    by (cases "insert_audit_event P G (pgNow env2) T (ev_EventType ev) (ev_Producer ev) (eventBytes G J ev) s'")
       (auto simp: InsertTx_def Let_def step_def exec_def eventBytes_def)
qed


section \<open>Verification\<close>

lemma sha256Equal_iff [simp]: "sha256Equal a b \<longleftrightarrow> a = b"
  by (auto simp: sha256Equal_def list.rel_eq)

definition rowSound :: "prims \<Rightarrow> uuid \<Rightarrow> audit_row \<Rightarrow> bool" where
  "rowSound P T a \<longleftrightarrow>
     a_row_hash a = computeRowHash P T (a_seq a) (a_event_type a) (a_producer a)
       (case a_payload a of None \<Rightarrow> [] | Some b \<Rightarrow> b)"

definition linked :: "audit_row \<Rightarrow> audit_row \<Rightarrow> bool" where
  "linked a b \<longleftrightarrow> a_prev_hash b = a_row_hash a"

lemma verifyRows_True:
  "verifyRows P T first prev rows = Inr True \<longleftrightarrow>
     list_all (rowSound P T) rows \<and> successively linked rows \<and>
     (first \<or> rows = [] \<or> a_prev_hash (hd rows) = prev)"
  by (induction P T first prev rows rule: verifyRows.induct)
     (auto simp: rowSound_def linked_def successively_Cons Let_def)

text \<open>
  \<open>VerifyChain\<close> accepts a range exactly when every row in it carries the hash of its number, type,
  producer and payload, and names the hash of the row before it.
\<close>

theorem VerifyChain_iff:
  "VerifyChain P env T from to s = Inr True \<longleftrightarrow>
     \<not> fault env ''query chain'' \<and>
     list_all (rowSound P T) (chainRows T from to s) \<and> successively linked (chainRows T from to s)"
  by (simp add: VerifyChain_def verifyRows_True)

lemma verifyRows_details:
  "verifyRows P T first prev (map (\<lambda>a. if Q a then a\<lparr>a_details := d a\<rparr> else a) rows) = verifyRows P T first prev rows"
proof (induction rows arbitrary: first prev)
  case Nil
  then show ?case by simp
next
  case (Cons a rows)
  have "a_seq (if Q a then a\<lparr>a_details := d a\<rparr> else a) = a_seq a"
    "a_event_type (if Q a then a\<lparr>a_details := d a\<rparr> else a) = a_event_type a"
    "a_producer (if Q a then a\<lparr>a_details := d a\<rparr> else a) = a_producer a"
    "a_payload (if Q a then a\<lparr>a_details := d a\<rparr> else a) = a_payload a"
    "a_row_hash (if Q a then a\<lparr>a_details := d a\<rparr> else a) = a_row_hash a"
    "a_prev_hash (if Q a then a\<lparr>a_details := d a\<rparr> else a) = a_prev_hash a" by simp_all
  with Cons show ?case by (simp add: Let_def reject_def del: if_split)
qed

text \<open>
  the detail columns of an event (user, device, node, resource, request, result, rule, policy
  version, correlation) are not protected: changing them in any set of rows leaves the verdict of
  \<open>VerifyChain\<close> unchanged.
\<close>

theorem VerifyChain_ignores_details:
  "VerifyChain P env T from to
     (s\<lparr>audit_events := map (\<lambda>a. if Q a then a\<lparr>a_details := d a\<rparr> else a) (audit_events s)\<rparr>) =
   VerifyChain P env T from to s"
proof -
  let ?f = "\<lambda>a. if Q a then a\<lparr>a_details := d a\<rparr> else a"
  have c: "chainRows T from to (s\<lparr>audit_events := map ?f (audit_events s)\<rparr>) = map ?f (chainRows T from to s)"
    by (simp add: chainRows_def filter_map comp_def if_distrib [of a_tenant] if_distrib [of a_seq]
        sort_key_map cong: if_cong)
  show ?thesis unfolding VerifyChain_def c verifyRows_details ..
qed

text \<open>
  two honest insertions already break the chain: the head keeps the hash computed in SQL, which
  becomes the second row's predecessor hash, while the first row's own hash was overwritten with the
  one computed in Go. \<open>VerifyChain\<close> reports the chain of two untouched events broken at the second,
  unless the two SHA-256 values happen to coincide.
\<close>

theorem VerifyChain_two_inserts:
  assumes fresh: "findHead T (tx_db t) = None" "tenantEvents T (tx_db t) = []"
    and ev: "ev_TenantID e1 = T" "ev_TenantID e2 = T"
    and one: "InsertTx P G J env1 l1 e1 t = (Inr n1, t1)"
    and two: "InsertTx P G J env2 l2 e2 t1 = (Inr n2, t2)"
    and json: "storedJson G (eventBytes G J e1) = eventBytes G J e1" "storedJson G (eventBytes G J e2) = eventBytes G J e2"
    and up: "\<not> fault env ''query chain''"
  shows "VerifyChain P env T 1 2 (tx_db t2) =
           (if audit_row_hash P G (pgNow env1) [0] 1 (ev_EventType e1) = goRowHash P J e1 1
            then Inr True else Inl (ChainBroken 2))"
proof -
  have n1: "n1 = 1" and h0: "headHash T (tx_db t) = [0]"
    using InsertTx_Inr(1) [OF one] fresh(1) ev by (simp_all add: headSeq_def headHash_def)
  have f1: "findHead T (tx_db t1) = Some \<lparr>h_tenant = T, h_last_seq = 1,
      h_last_hash = audit_row_hash P G (pgNow env1) [0] 1 (ev_EventType e1)\<rparr>"
    using InsertTx_Inr(5) [OF one, of T] ev n1 h0 by simp
  have n2: "n2 = 2"
    and h1: "headHash T (tx_db t1) = audit_row_hash P G (pgNow env1) [0] 1 (ev_EventType e1)"
    using InsertTx_Inr(1) [OF two] f1 ev by (simp_all add: headSeq_def headHash_def)
  let ?r1 = "goRow P G J (pgNow env1) e1 1 [0]"
    and ?r2 = "goRow P G J (pgNow env2) e2 2 (audit_row_hash P G (pgNow env1) [0] 1 (ev_EventType e1))"
  have "tenantEvents T (tx_db t2) = [?r1, ?r2]"
    using InsertTx_Inr(4) [OF one] InsertTx_Inr(4) [OF two] fresh(2) ev n1 n2 h0 h1
    by (simp add: tenantEvents_def goRow_def)
  moreover have "chainRows T 1 2 s = sort_key a_seq (filter (\<lambda>a. 1 \<le> a_seq a \<and> a_seq a \<le> 2) (tenantEvents T s))" for s
    by (simp add: chainRows_def tenantEvents_def conj_assoc)
  ultimately have c: "chainRows T 1 2 (tx_db t2) = [?r1, ?r2]" by (simp add: goRow_def)
  have "VerifyChain P env T 1 2 (tx_db t2) = verifyRows P T True [] [?r1, ?r2]"
    using up by (simp add: VerifyChain_def c)
  also have "\<dots> = (if audit_row_hash P G (pgNow env1) [0] 1 (ev_EventType e1) = goRowHash P J e1 1
            then Inr True else Inl (ChainBroken 2))"
    using json ev
    by (auto simp: goRow_def goRowHash_def eventBytes_def sqlBytes_def Let_def reject_def split: option.splits)
  finally show ?thesis .
qed


section \<open>Concrete runs\<close>

definition demo_pg :: pg where
  "demo_pg = \<lparr>jsonb_in = Some, inet_ok = (\<lambda>a. True), epoch_text = (\<lambda>t. show_int (unixSec t)), aggregate_for_update = True,
     nil_is_null = True, uuid_in = uuid_Parse demo_prims\<rparr>"

definition demo_svc :: "gotime \<Rightarrow> svc_env" where
  "demo_svc t = \<lparr>fault = (\<lambda>l. False), commitAs = CommitOk, pgNow = t, clock = (\<lambda>l. t), newUUID = (\<lambda>l. 77),
     osRand = (\<lambda>n. Some (replicate n 1))\<rparr>"

lemma demo_svc_sel [simp]:
  "fault (demo_svc t) l = False" "commitAs (demo_svc t) = CommitOk" "pgNow (demo_svc t) = t"
  "clock (demo_svc t) l = t" "newUUID (demo_svc t) l = 77" "osRand (demo_svc t) n = Some (replicate n 1)"
  by (simp_all add: demo_svc_def)

lemma demo_pg_sel [simp]:
  "jsonb_in demo_pg b = Some b" "inet_ok demo_pg a" "epoch_text demo_pg t = show_int (unixSec t)"
  "aggregate_for_update demo_pg" "nil_is_null demo_pg" "uuid_in demo_pg x = uuid_Parse demo_prims x"
  by (simp_all add: demo_pg_def)

definition demo_json :: audit_json where
  "demo_json = \<lparr>json_raw = Some, json_checkpoint = (\<lambda>c. cp_LastHash c)\<rparr>"

definition demo_event :: "string \<Rightarrow> AuditEvent" where
  "demo_event ty = \<lparr>ev_TenantID = 1, ev_EventType = ty, ev_Producer = ''service'', ev_Details = noDetails, ev_Payload = [7]\<rparr>"

definition demo_tx :: tx where
  "demo_tx = beginTx (emptyDb\<lparr>tenants := [1]\<rparr>)"

lemma demo_insert:
  assumes "tenants (tx_db t) = [1]" "\<not> tx_aborted t" "headSeq 1 (tx_db t) = m" "inInt64 (m + 1)"
    and "\<not> list_ex (isAudit 1 (m + 1)) (audit_events (tx_db t))"
  shows "\<exists>t'. InsertTx demo_prims demo_pg demo_json (demo_svc x) l (demo_event ty) t = (Inr (m + 1), t')"
proof -
  obtain h s1 where e: "ensureHead 1 (tx_db t) = Inr (m, h, s1)"
    using assms(1,3) by (cases "findHead 1 (tx_db t)") (auto simp: ensureHead_def headSeq_def)
  obtain hs where "s1 = (tx_db t)\<lparr>audit_heads := hs\<rparr>" using ensureHead_Inr(3) [OF e] by blast
  then have "\<not> list_ex (\<lambda>a. a_tenant a = 1 \<and> a_seq a = m + 1) (audit_events s1)"
    using assms(5) by (simp add: isAudit_def list_ex_iff)
  then show ?thesis using e assms(2,4)
    by (auto simp: InsertTx_def demo_json_def demo_event_def insert_audit_event_def bigint_def sqlBytes_def Let_def)
qed

lemma demo_tx_fresh: "findHead 1 (tx_db demo_tx) = None" "tenantEvents 1 (tx_db demo_tx) = []"
  "headSeq 1 (tx_db demo_tx) = 0" "tenants (tx_db demo_tx) = [1]" "audit_events (tx_db demo_tx) = []"
  "\<not> tx_aborted demo_tx"
  by (simp_all add: demo_tx_def emptyDb_def findHead_def tenantEvents_def headSeq_def)

lemma demo_auditInv: "auditInv T (tx_db demo_tx)"
  by (simp add: auditInv_def headSeq_def findHead_def demo_tx_def emptyDb_def tenantEvents_def)

lemma demo_first_insert:
  obtains t1 where "InsertTx demo_prims demo_pg demo_json (demo_svc 0) l (demo_event ''A'') demo_tx = (Inr 1, t1)"
  using demo_insert [of demo_tx 0 0 l "''A''"] demo_tx_fresh by (auto simp: inInt64_def)

theorem InsertTx_appends_witness:
  "\<exists>t1. InsertTx demo_prims demo_pg demo_json (demo_svc 0) ''x'' (demo_event ''A'') demo_tx = (Inr 1, t1) \<and>
     auditInv 1 (tx_db t1)"
proof -
  obtain t1 where i: "InsertTx demo_prims demo_pg demo_json (demo_svc 0) ''x'' (demo_event ''A'') demo_tx = (Inr 1, t1)"
    by (rule demo_first_insert)
  from InsertTx_appends [OF i demo_auditInv, of 1] i show ?thesis by blast
qed

theorem checkpoint_blocks_audit_witness:
  "\<exists>t. tx_aborted (snd (InsertTx demo_prims demo_pg demo_json (demo_svc 9) ''x'' (demo_event ''A'') t)) \<and> \<not> tx_aborted t"
proof -
  let ?cp = "checkpointOf 0 \<lparr>h_tenant = 1, h_last_seq = 0, h_last_hash = [0]\<rparr>"
  obtain s' where x: "exportCheckpoint demo_pg demo_json (demo_svc 0) ''c'' ?cp (tx_db demo_tx) = (Inr (), s')"
    using demo_tx_fresh by (simp add: exportCheckpoint_def checkpointOf_def bigint_def maxOr_def inInt64_def)
  have "cp_TenantID ?cp = 1" "ev_TenantID (demo_event ''A'') = 1"
    by (simp_all add: checkpointOf_def demo_event_def)
  from checkpoint_blocks_audit [OF demo_auditInv this(1) x this(2), of "beginTx s'"]
  show ?thesis by (intro exI [of _ "beginTx s'"]) simp
qed

lemma demo_hashes_differ:
  "audit_row_hash demo_prims demo_pg 0 [0] 1 (ev_EventType (demo_event ''A'')) \<noteq>
     goRowHash demo_prims demo_json (demo_event ''A'') 1"
  by (simp add: audit_row_hash_def goRowHash_def eventBytes_def computeRowHash_def demo_event_def demo_json_def
      int64ToBytes_be_bytes eval_nat_numeral)

theorem VerifyChain_two_inserts_witness:
  "\<exists>t2 :: tx. VerifyChain demo_prims (demo_svc 9) 1 1 2 (tx_db t2) = Inl (ChainBroken 2)"
proof -
  let ?ins = "\<lambda>x l ty t. InsertTx demo_prims demo_pg demo_json (demo_svc x) l (demo_event ty) t"
  have ev: "ev_TenantID (demo_event ty) = 1" for ty by (simp add: demo_event_def)
  obtain t1 where one: "?ins 0 ''x'' ''A'' demo_tx = (Inr 1, t1)" by (rule demo_first_insert)
  obtain es hs where t1: "tx_db t1 = (tx_db demo_tx)\<lparr>audit_events := es, audit_heads := hs\<rparr>"
    using InsertTx_Inr(6) [OF one] by blast
  have "tenants (tx_db t1) = [1]" using t1 demo_tx_fresh by simp
  moreover have "headSeq 1 (tx_db t1) = 1" using InsertTx_Inr(5) [OF one, of 1] by (simp add: headSeq_def ev)
  moreover have "\<not> list_ex (isAudit 1 (1 + 1)) (audit_events (tx_db t1))"
    using InsertTx_Inr(4) [OF one] demo_tx_fresh by (simp add: goRow_def isAudit_def)
  ultimately obtain t2 where two: "?ins 5 ''y'' ''B'' t1 = (Inr 2, t2)"
    using demo_insert [of t1 1 5 "''y''" "''B''"] InsertTx_Inr(3) [OF one] by (auto simp: inInt64_def)
  have j: "storedJson demo_pg (eventBytes demo_pg demo_json (demo_event ty)) = eventBytes demo_pg demo_json (demo_event ty)" for ty
    by (simp add: storedJson_def eventBytes_def sqlBytes_def demo_json_def)
  have "VerifyChain demo_prims (demo_svc 9) 1 1 2 (tx_db t2) = Inl (ChainBroken 2)"
    using VerifyChain_two_inserts [OF demo_tx_fresh(1,2) ev ev one two j j, of "demo_svc 9"] demo_hashes_differ by simp
  then show ?thesis by blast
qed

end
