(* ===== verification/Messaging.thy ===== *)
theory Messaging
  imports AuditChain
begin

text \<open>
  \<open>service/internal/messaging/outbox.go\<close>: the transactional outbox, consumer leases with fencing
  tokens, ordered delivery and acknowledgement. Wake-up notifications (\<open>NotifyConsumer\<close>) only name a
  channel; delivery does not depend on them.
\<close>

section \<open>Data\<close>

record OutboxMessage =
  om_TenantID :: uuid
  om_Consumer :: string
  om_MessageID :: uuid
  om_Payload :: "bytes option"

record ConsumerLease =
  cl_TenantID :: uuid
  cl_Consumer :: string
  cl_LeaseOwner :: uuid
  cl_LeaseFence :: int
  cl_ExpiresAt :: gotime
  cl_LastAckedSeq :: int

datatype messaging_error =
    MsgBegin sql_error
  | AcquireLeaseFailed sql_error
  | CommitLease sql_error
  | RenewLeaseFailed sql_error
  | LeaseRenewalRefused
  | FetchPendingFailed sql_error
  | CheckFence sql_error
  | StaleFence
  | CheckInbox sql_error
  | AckOutbox sql_error
  | RecordInbox sql_error
  | AdvanceCursor sql_error
  | CommitAck sql_error


section \<open>Outbox\<close>

definition isOutbox :: "uuid \<Rightarrow> string \<Rightarrow> outbox_row \<Rightarrow> bool" where
  "isOutbox tenant consumer o_row \<longleftrightarrow> o_tenant o_row = tenant \<and> o_consumer o_row = consumer"

definition queueOf :: "uuid \<Rightarrow> string \<Rightarrow> db \<Rightarrow> outbox_row list" where
  "queueOf tenant consumer s = filter (isOutbox tenant consumer) (outbox s)"

definition insert_outbox :: "pg \<Rightarrow> gotime \<Rightarrow> OutboxMessage \<Rightarrow> db \<Rightarrow> sql_error + unit \<times> db" where
  "insert_outbox G nw msg s =
     attempt (bigint (maxOr 0 (map o_seq (queueOf (om_TenantID msg) (om_Consumer msg) s)) + 1)) (\<lambda>e. e) (\<lambda>seq.
     need (sqlBytes G (om_Payload msg)) (NotNullViolation ''outbox.payload'') (\<lambda>payload.
     if list_ex (\<lambda>r. o_tenant r = om_TenantID msg \<and> o_message_id r = om_MessageID msg) (outbox s) then Inr ((), s)
     else
     Inr ((), s\<lparr>outbox := outbox s @
       [\<lparr>o_tenant = om_TenantID msg, o_seq = seq, o_consumer = om_Consumer msg, o_message_id = om_MessageID msg,
         o_payload = payload, o_acked_at = None, o_created_at = nw\<rparr>]\<rparr>)))"

definition WriteTx :: "pg \<Rightarrow> svc_env \<Rightarrow> string \<Rightarrow> OutboxMessage \<Rightarrow> unit txm" where
  "WriteTx G env label msg = exec env (label @ '': outbox'') (insert_outbox G (clock env label) msg)"


section \<open>Leases\<close>

definition isCursor :: "uuid \<Rightarrow> string \<Rightarrow> cursor_row \<Rightarrow> bool" where
  "isCursor tenant consumer c \<longleftrightarrow> cur_tenant c = tenant \<and> cur_consumer c = consumer"

definition findCursor :: "uuid \<Rightarrow> string \<Rightarrow> db \<Rightarrow> cursor_row option" where
  "findCursor tenant consumer s = find (isCursor tenant consumer) (consumer_cursors s)"

text \<open>The upsert, with its \<open>RETURNING last_acked_seq, lease_fence\<close>.\<close>

definition upsertLease :: "uuid \<Rightarrow> string \<Rightarrow> uuid \<Rightarrow> gotime \<Rightarrow> db \<Rightarrow> sql_error + (int \<times> int) \<times> db" where
  "upsertLease tenantID consumer owner expires s =
     (case findCursor tenantID consumer s of
        None \<Rightarrow>
          Inr ((0, 1), s\<lparr>consumer_cursors := consumer_cursors s @
            [\<lparr>cur_tenant = tenantID, cur_consumer = consumer, cur_last_acked_seq = 0, cur_lease_owner = Some owner,
              cur_lease_fence = 1, cur_lease_expires_at = Some expires\<rparr>]\<rparr>)
      | Some c \<Rightarrow>
          attempt (bigint (cur_lease_fence c + 1)) (\<lambda>e. e) (\<lambda>fence.
          Inr ((cur_last_acked_seq c, fence),
            s\<lparr>consumer_cursors := updateWhere (isCursor tenantID consumer)
               (\<lambda>r. r\<lparr>cur_lease_owner := Some owner, cur_lease_fence := cur_lease_fence r + 1,
                      cur_lease_expires_at := Some expires\<rparr>) (consumer_cursors s)\<rparr>)))"

definition AcquireLease ::
  "svc_env \<Rightarrow> uuid \<Rightarrow> string \<Rightarrow> uuid \<Rightarrow> db \<Rightarrow> (messaging_error + ConsumerLease) \<times> db" where
  "AcquireLease env tenantID consumer owner s =
     runTx env MsgBegin CommitLease
       (step (exec env ''upsert lease'' (upsertLease tenantID consumer owner (clock env ''lease'' + 15 * second)))
          AcquireLeaseFailed (\<lambda>(lastAckedSeq, fence).
        Pair (Inr (Commit
          \<lparr>cl_TenantID = tenantID, cl_Consumer = consumer, cl_LeaseOwner = owner, cl_LeaseFence = fence,
           cl_ExpiresAt = clock env ''lease returned'' + 15 * second, cl_LastAckedSeq = lastAckedSeq\<rparr>)))) s"

text \<open>The lease columns that \<open>RenewLease\<close> updates, and the number of rows it affected.\<close>

definition renewRows :: "ConsumerLease \<Rightarrow> gotime \<Rightarrow> gotime \<Rightarrow> db \<Rightarrow> sql_error + bool \<times> db" where
  "renewRows lease nw expires s =
    (let hit = (\<lambda>c. isCursor (cl_TenantID lease) (cl_Consumer lease) c \<and> cur_lease_fence c = cl_LeaseFence lease \<and>
                    (case cur_lease_expires_at c of None \<Rightarrow> False | Some e \<Rightarrow> e > nw))
     in Inr (list_ex hit (consumer_cursors s),
             s\<lparr>consumer_cursors := updateWhere hit (\<lambda>c. c\<lparr>cur_lease_expires_at := Some expires\<rparr>) (consumer_cursors s)\<rparr>))"

definition RenewLease :: "svc_env \<Rightarrow> ConsumerLease \<Rightarrow> db \<Rightarrow> (messaging_error + ConsumerLease) \<times> db" where
  "RenewLease env lease s =
    (let (r, s') = autocommit env ''renew lease'' (renewRows lease (pgNow env) (clock env ''renew'' + 15 * second)) s
     in (attempt r RenewLeaseFailed (\<lambda>affected.
         reject (\<not> affected) LeaseRenewalRefused (
         Inr (lease\<lparr>cl_ExpiresAt := clock env ''renewed'' + 15 * second\<rparr>))), s'))"

definition ReleaseLease :: "svc_env \<Rightarrow> ConsumerLease \<Rightarrow> db \<Rightarrow> (sql_error + unit) \<times> db" where
  "ReleaseLease env lease =
     autocommit env ''release lease'' (\<lambda>s. Inr ((), s\<lparr>consumer_cursors := updateWhere
       (\<lambda>c. isCursor (cl_TenantID lease) (cl_Consumer lease) c \<and> cur_lease_fence c = cl_LeaseFence lease)
       (\<lambda>c. c\<lparr>cur_lease_owner := None, cur_lease_expires_at := None\<rparr>) (consumer_cursors s)\<rparr>))"


section \<open>Delivery and acknowledgement\<close>

definition messageOf :: "outbox_row \<Rightarrow> OutboxMessage" where
  "messageOf r = \<lparr>om_TenantID = o_tenant r, om_Consumer = o_consumer r, om_MessageID = o_message_id r,
                  om_Payload = Some (o_payload r)\<rparr>"

definition pendingRows :: "uuid \<Rightarrow> string \<Rightarrow> int \<Rightarrow> db \<Rightarrow> outbox_row list" where
  "pendingRows tenantID consumer fromSeq s =
     sort_key o_seq (filter (\<lambda>r. o_tenant r = tenantID \<and> o_consumer r = consumer \<and> o_seq r > fromSeq \<and>
                                 o_acked_at r = None) (outbox s))"

definition FetchPending ::
  "svc_env \<Rightarrow> uuid \<Rightarrow> string \<Rightarrow> int \<Rightarrow> int \<Rightarrow> db \<Rightarrow> messaging_error + OutboxMessage list" where
  "FetchPending env tenantID consumer fromSeq limit s =
     reject (fault env ''fetch pending'') (FetchPendingFailed ConnectionFault) (
     reject (limit < 0) (FetchPendingFailed OutOfRange) (
     Inr (map messageOf (take (nat limit) (pendingRows tenantID consumer fromSeq s)))))"

definition inInbox :: "uuid \<Rightarrow> string \<Rightarrow> uuid \<Rightarrow> db \<Rightarrow> bool" where
  "inInbox tenant consumer mid s \<longleftrightarrow>
     list_ex (\<lambda>i. i_tenant i = tenant \<and> i_consumer i = consumer \<and> i_message_id i = mid) (inbox s)"

definition ackBody ::
  "svc_env \<Rightarrow> uuid \<Rightarrow> string \<Rightarrow> uuid \<Rightarrow> int \<Rightarrow> int \<Rightarrow> tx \<Rightarrow> (messaging_error + bool txend) \<times> tx" where
  "ackBody env tenantID consumer messageID seq fence =
      step (query env ''select fence'' (\<lambda>s. map_option cur_lease_fence (findCursor tenantID consumer s)))
         CheckFence (\<lambda>currentFence.
       if currentFence \<noteq> fence then Pair (Inl StaleFence)
       else
       step (query env ''select inbox'' (\<lambda>s. Some (inInbox tenantID consumer messageID s))) CheckInbox (\<lambda>alreadyProcessed.
       if alreadyProcessed then Pair (Inr (Commit False))
       else
       step (exec env ''ack outbox'' (\<lambda>s. Inr ((), s\<lparr>outbox := updateWhere
               (\<lambda>r. isOutbox tenantID consumer r \<and> o_seq r = seq) (\<lambda>r. r\<lparr>o_acked_at := Some (pgNow env)\<rparr>) (outbox s)\<rparr>)))
         AckOutbox (\<lambda>u.
       step (exec env ''insert inbox'' (\<lambda>s. Inr ((),
               if inInbox tenantID consumer messageID s then s
               else s\<lparr>inbox := inbox s @ [\<lparr>i_tenant = tenantID, i_consumer = consumer, i_message_id = messageID\<rparr>]\<rparr>)))
         RecordInbox (\<lambda>u.
       step (exec env ''advance cursor'' (\<lambda>s. Inr ((), s\<lparr>consumer_cursors := updateWhere (isCursor tenantID consumer)
               (\<lambda>c. c\<lparr>cur_last_acked_seq := max (cur_last_acked_seq c) seq\<rparr>) (consumer_cursors s)\<rparr>)))
         AdvanceCursor (\<lambda>u.
       Pair (Inr (Commit True)))))))"

definition AckMessage ::
  "svc_env \<Rightarrow> uuid \<Rightarrow> string \<Rightarrow> uuid \<Rightarrow> int \<Rightarrow> int \<Rightarrow> db \<Rightarrow> (messaging_error + bool) \<times> db" where
  "AckMessage env tenantID consumer messageID seq fence s =
     runTx env MsgBegin CommitAck (ackBody env tenantID consumer messageID seq fence) s"


section \<open>Notifications\<close>

definition hexEncode :: "bytes \<Rightarrow> string" where
  "hexEncode b = concat (map (\<lambda>v. [''0123456789abcdef'' ! unat (drop_bit 4 v), ''0123456789abcdef'' ! unat (v AND 0x0f)]) b)"

definition notifyChannel :: "uuid \<Rightarrow> string \<Rightarrow> string" where
  "notifyChannel tenantID consumer =
     ''dnivio_'' @ hexEncode (uuid_bytes tenantID) @ ''_'' @ hexEncode (str_bytes consumer)"


section \<open>The outbox is ordered and free of duplicates\<close>

text \<open>
  Every consumer's queue is numbered from 1 without gaps in the order of writing, and no message
  identifier occurs twice for a tenant.
\<close>

definition outboxInv :: "db \<Rightarrow> bool" where
  "outboxInv s \<longleftrightarrow>
     (\<forall>T c. map o_seq (queueOf T c s) = [1..int (length (queueOf T c s))]) \<and>
     distinct (map (\<lambda>r. (o_tenant r, o_message_id r)) (outbox s))"

lemma outboxInv_cong: "outbox s' = outbox s \<Longrightarrow> outboxInv s' = outboxInv s"
  by (simp add: outboxInv_def queueOf_def)

lemma maxOr_upto: "0 \<le> n \<Longrightarrow> maxOr 0 [1..n] = n"
  by (auto simp: maxOr_def intro!: Max_eqI)

definition writtenRow :: "gotime \<Rightarrow> OutboxMessage \<Rightarrow> bytes \<Rightarrow> int \<Rightarrow> outbox_row" where
  "writtenRow nw msg payload n =
     \<lparr>o_tenant = om_TenantID msg, o_seq = n, o_consumer = om_Consumer msg, o_message_id = om_MessageID msg,
      o_payload = payload, o_acked_at = None, o_created_at = nw\<rparr>"

definition seenMessage :: "OutboxMessage \<Rightarrow> db \<Rightarrow> bool" where
  "seenMessage msg s \<longleftrightarrow>
     list_ex (\<lambda>r. o_tenant r = om_TenantID msg \<and> o_message_id r = om_MessageID msg) (outbox s)"

lemma insert_outbox_Inr:
  assumes "insert_outbox G nw msg s = Inr (u, s')" "outboxInv s"
  obtains (seen) "seenMessage msg s" "s' = s"
  | (appended) payload where "\<not> seenMessage msg s" "sqlBytes G (om_Payload msg) = Some payload"
      "s' = s\<lparr>outbox := outbox s @
         [writtenRow nw msg payload (int (length (queueOf (om_TenantID msg) (om_Consumer msg) s)) + 1)]\<rparr>"
proof -
  let ?q = "queueOf (om_TenantID msg) (om_Consumer msg) s"
  have "maxOr 0 (map o_seq ?q) = int (length ?q)"
    using assms(2) by (simp add: outboxInv_def maxOr_upto)
  then show thesis
    using assms(1) seen appended
    by (auto simp: insert_outbox_def bigint_def writtenRow_def seenMessage_def split: if_splits)
qed

lemma insert_outbox_outboxInv:
  assumes "insert_outbox G nw msg s = Inr (u, s')" "outboxInv s"
  shows "outboxInv s'"
  using assms
proof (cases rule: insert_outbox_Inr)
  case (appended payload)
  let ?q = "\<lambda>T c. queueOf T c s"
  have q: "queueOf T c s' = (if T = om_TenantID msg \<and> c = om_Consumer msg
      then ?q T c @ [writtenRow nw msg payload (int (length (?q T c)) + 1)] else ?q T c)" for T c
    unfolding appended(3) by (auto simp: queueOf_def isOutbox_def writtenRow_def)
  have "map o_seq (queueOf T c s') = [1..int (length (queueOf T c s'))]" for T c
    using assms(2) upto_rec2 [of 1 "int (length (?q T c)) + 1"]
    by (auto simp: q outboxInv_def writtenRow_def add.commute)
  moreover have "distinct (map (\<lambda>r. (o_tenant r, o_message_id r)) (outbox s'))"
    using assms(2) appended(1) unfolding appended(3)
    by (auto simp: outboxInv_def writtenRow_def seenMessage_def list_ex_iff)
  ultimately show ?thesis by (simp add: outboxInv_def)
qed (use assms(2) in simp)

lemma insert_outbox_frame: "insert_outbox G nw msg s = Inr (u, s') \<Longrightarrow> \<exists>os. s' = s\<lparr>outbox := os\<rparr>"
  unfolding insert_outbox_def
  by (auto split: if_splits intro: exI [of _ "outbox s"])

lemma keeps_WriteTx_outboxInv [keeps_intros]: "keeps outboxInv (WriteTx G env l msg)"
  unfolding WriteTx_def by (intro keeps_exec) (rule insert_outbox_outboxInv)

lemma keeps_WriteTx [keeps_intros]:
  assumes "\<And>s os. I (s\<lparr>outbox := os\<rparr>) = I s"
  shows "keeps I (WriteTx G env l msg)"
  unfolding WriteTx_def by (intro keeps_exec) (use insert_outbox_frame assms in metis)

lemma sticky_WriteTx [sticky_intros]: "sticky (WriteTx G env l msg)"
  unfolding WriteTx_def by (intro sticky_intros)

lemma failsHard_WriteTx [failsHard_intros]: "failsHard (WriteTx G env l msg)"
  unfolding WriteTx_def by (intro failsHard_intros)

lemma WriteTx_Inr:
  assumes "WriteTx G env l msg t = (Inr u, t')"
  shows "\<exists>os. tx_db t' = (tx_db t)\<lparr>outbox := os\<rparr>" "\<not> tx_aborted t" "\<not> tx_aborted t'"
    "sqlBytes G (om_Payload msg) \<noteq> None"
proof -
  obtain s' where i: "insert_outbox G (clock env l) msg (tx_db t) = Inr (u, s')" and t': "t' = t\<lparr>tx_db := s'\<rparr>"
    and a: "\<not> tx_aborted t"
    using assms by (auto simp: WriteTx_def)
  show "\<exists>os. tx_db t' = (tx_db t)\<lparr>outbox := os\<rparr>" "\<not> tx_aborted t" "\<not> tx_aborted t'"
    using insert_outbox_frame [OF i] t' a by simp_all
  show "sqlBytes G (om_Payload msg) \<noteq> None" using i by (auto simp: insert_outbox_def)
qed

lemma keeps_InsertTx_outboxInv [keeps_intros]: "keeps outboxInv (InsertTx P G J env l ev)"
  by (rule keeps_InsertTx) (simp add: outboxInv_def queueOf_def)

text \<open>
  C16: writing to the outbox is ordered and idempotent: a successful \<open>WriteTx\<close> of a message not seen
  before appends it with the next number of its consumer's queue, a message identifier already known
  for the tenant changes nothing, and queues stay gapless and free of duplicates.
\<close>

theorem WriteTx_ordered_idempotent:
  assumes run: "WriteTx G env l msg t = (Inr u, t')" and inv: "outboxInv (tx_db t)"
  shows "outboxInv (tx_db t') \<and>
         (if seenMessage msg (tx_db t) then tx_db t' = tx_db t
          else \<exists>payload. sqlBytes G (om_Payload msg) = Some payload \<and>
            queueOf (om_TenantID msg) (om_Consumer msg) (tx_db t') =
              queueOf (om_TenantID msg) (om_Consumer msg) (tx_db t) @
                [writtenRow (clock env l) msg payload
                   (int (length (queueOf (om_TenantID msg) (om_Consumer msg) (tx_db t))) + 1)])"
proof -
  obtain s' where i: "insert_outbox G (clock env l) msg (tx_db t) = Inr (u, s')" and t': "tx_db t' = s'"
    using run by (auto simp: WriteTx_def)
  from i inv show ?thesis
  proof (cases rule: insert_outbox_Inr)
    case seen
    then show ?thesis using inv t' by simp
  next
    case (appended payload)
    then show ?thesis
      using insert_outbox_outboxInv [OF i inv] t'
      by (simp add: queueOf_def isOutbox_def writtenRow_def)
  qed
qed


section \<open>Fencing\<close>

text \<open>The fencing token of a consumer; 0 before its first lease.\<close>

definition fenceOf :: "uuid \<Rightarrow> string \<Rightarrow> db \<Rightarrow> int" where
  "fenceOf T c s = (case findCursor T c s of None \<Rightarrow> 0 | Some r \<Rightarrow> cur_lease_fence r)"

lemma findCursor_update:
  assumes "\<And>r. cur_tenant (f r) = cur_tenant r" "\<And>r. cur_consumer (f r) = cur_consumer r"
  shows "findCursor T c (s\<lparr>consumer_cursors := updateWhere Q f (consumer_cursors s)\<rparr>) =
           map_option (\<lambda>r. if Q r then f r else r) (findCursor T c s)"
  unfolding findCursor_def using assms by (simp add: find_updateWhere isCursor_def)

lemma findCursor_is: "findCursor T c s = Some r \<Longrightarrow> isCursor T c r"
  unfolding findCursor_def by (auto dest: find_Some_set)

lemma isCursor_eq: "isCursor T c r \<Longrightarrow> isCursor U d r \<longleftrightarrow> U = T \<and> d = c"
  by (auto simp: isCursor_def)

lemma upsertLease_fence:
  assumes "upsertLease T c owner e s = Inr ((a, fence), s')"
  shows "fence = fenceOf T c s + 1"
    and "fenceOf U d s' = (if U = T \<and> d = c then fence else fenceOf U d s)"
proof -
  show "fence = fenceOf T c s + 1"
    using assms by (auto simp: upsertLease_def fenceOf_def bigint_def split: option.splits)
  show "fenceOf U d s' = (if U = T \<and> d = c then fence else fenceOf U d s)"
  proof (cases "findCursor T c s")
    case None
    then have "s' = s\<lparr>consumer_cursors := consumer_cursors s @
            [\<lparr>cur_tenant = T, cur_consumer = c, cur_last_acked_seq = 0, cur_lease_owner = Some owner,
              cur_lease_fence = 1, cur_lease_expires_at = Some e\<rparr>]\<rparr>" "fence = 1"
      using assms by (auto simp: upsertLease_def)
    then show ?thesis using None
      by (auto simp: fenceOf_def findCursor_def find_append isCursor_def split: option.splits)
  next
    case (Some r)
    then have s': "s' = s\<lparr>consumer_cursors := updateWhere (isCursor T c)
               (\<lambda>r. r\<lparr>cur_lease_owner := Some owner, cur_lease_fence := cur_lease_fence r + 1,
                      cur_lease_expires_at := Some e\<rparr>) (consumer_cursors s)\<rparr>" and f: "fence = cur_lease_fence r + 1"
      using assms by (auto simp: upsertLease_def bigint_def)
    show ?thesis
    proof (cases "findCursor U d s")
      case None
      then show ?thesis using Some by (auto simp: fenceOf_def s' findCursor_update)
    next
      case (Some q)
      then show ?thesis using f \<open>findCursor T c s = Some r\<close> isCursor_eq [OF findCursor_is [OF Some], of T c]
        by (auto simp: fenceOf_def s' findCursor_update)
    qed
  qed
qed

lemma AcquireLease_Inr:
  assumes "AcquireLease env T c owner s = (Inr lease, s')"
  shows "cl_LeaseFence lease = fenceOf T c s + 1" "fenceOf T c s' = cl_LeaseFence lease"
    and "cl_TenantID lease = T" "cl_Consumer lease = c"
proof -
  obtain a fence where u: "upsertLease T c owner (clock env ''lease'' + 15 * second) s = Inr ((a, fence), s')"
    and l: "cl_LeaseFence lease = fence" "cl_TenantID lease = T" "cl_Consumer lease = c"
    using runTx_Inr [OF assms [unfolded AcquireLease_def]] by auto
  show "cl_LeaseFence lease = fenceOf T c s + 1" "fenceOf T c s' = cl_LeaseFence lease"
    "cl_TenantID lease = T" "cl_Consumer lease = c"
    using upsertLease_fence [OF u] l by simp_all
qed

text \<open>A body of \<open>AckMessage\<close> that reached its commit.\<close>

definition ackedDb :: "svc_env \<Rightarrow> uuid \<Rightarrow> string \<Rightarrow> uuid \<Rightarrow> int \<Rightarrow> db \<Rightarrow> db" where
  "ackedDb env T c m seq s =
     s\<lparr>outbox := updateWhere (\<lambda>r. isOutbox T c r \<and> o_seq r = seq) (\<lambda>r. r\<lparr>o_acked_at := Some (pgNow env)\<rparr>) (outbox s),
       inbox := inbox s @ [\<lparr>i_tenant = T, i_consumer = c, i_message_id = m\<rparr>],
       consumer_cursors := updateWhere (isCursor T c)
         (\<lambda>r. r\<lparr>cur_last_acked_seq := max (cur_last_acked_seq r) seq\<rparr>) (consumer_cursors s)\<rparr>"

lemma ackBody_Inr:
  assumes "ackBody env T c m seq fence (beginTx s) = (Inr x, t)"
  shows "fenceOf T c s = fence \<and> findCursor T c s \<noteq> None \<and>
     (if inInbox T c m s then x = Commit False \<and> tx_db t = s
      else x = Commit True \<and> tx_db t = ackedDb env T c m seq s)"
proof -
  have inb: "inInbox T c m (y\<lparr>outbox := os\<rparr>) = inInbox T c m y" for y os by (simp add: inInbox_def)
  obtain r where r: "findCursor T c s = Some r" "cur_lease_fence r = fence"
    using assms by (auto simp: ackBody_def split: if_splits)
  show ?thesis
  proof (cases "inInbox T c m s")
    case True
    then show ?thesis using assms r by (auto simp: ackBody_def fenceOf_def)
  next
    case False
    then show ?thesis using assms r by (auto simp: ackBody_def fenceOf_def inb ackedDb_def)
  qed
qed

lemma AckMessage_cases:
  assumes "AckMessage env T c m seq fence s = (r, s')"
  obtains (unchanged) "s' = s" "r \<noteq> Inr True" "fenceOf T c s = fence \<or> (\<exists>e. r = Inl e)"
  | (acked) "s' = ackedDb env T c m seq s" "\<not> inInbox T c m s" "fenceOf T c s = fence" "findCursor T c s \<noteq> None"
      "r = Inr True \<or> (\<exists>e. r = Inl e)"
  using assms [unfolded AckMessage_def]
proof (cases rule: runTx_cases)
  case (committed b t)
  note body = ackBody_Inr [OF committed(1)]
  show ?thesis
  proof (cases "inInbox T c m s")
    case True
    then show ?thesis using body committed by (intro unchanged) auto
  next
    case False
    then show ?thesis using body committed by (intro acked) auto
  qed
next
  case unch: unchanged
  have "fenceOf T c s = fence \<and> r \<noteq> Inr True" if rb: "r = Inr b" for b
  proof -
    have "runTx env MsgBegin CommitAck (ackBody env T c m seq fence) s = (Inr b, s')"
      using assms rb by (simp add: AckMessage_def)
    then obtain x t where "ackBody env T c m seq fence (beginTx s) = (Inr x, t)"
      by (blast dest: runTx_Inr)
    from ackBody_Inr [OF this] this unch(2) rb show ?thesis by (auto split: if_splits)
  qed
  then show ?thesis using unch(1) by (intro unchanged; cases r) auto
qed

lemma RenewLease_refused:
  assumes "\<And>x. x \<in> set (consumer_cursors s) \<Longrightarrow>
    \<not> (isCursor (cl_TenantID l) (cl_Consumer l) x \<and> cur_lease_fence x = cl_LeaseFence l)"
  shows "\<exists>e. RenewLease env l s = (Inl e, s)"
proof -
  let ?hit = "\<lambda>c. isCursor (cl_TenantID l) (cl_Consumer l) c \<and> cur_lease_fence c = cl_LeaseFence l \<and>
                 (case cur_lease_expires_at c of None \<Rightarrow> False | Some e \<Rightarrow> e > pgNow env)"
  have "updateWhere ?hit f (consumer_cursors s) = consumer_cursors s" for f
    using assms by (intro updateWhere_none) blast
  moreover have "\<not> list_ex ?hit (consumer_cursors s)" using assms by (auto simp: list_ex_iff)
  ultimately show ?thesis by (auto simp: RenewLease_def renewRows_def autocommit_def Let_def)
qed

text \<open>
  C17: leases are fenced: every successful \<open>AcquireLease\<close> returns a token one above the consumer's
  last one, and from then on an acknowledgement or renewal that carries any other token is refused
  and changes nothing.
\<close>

theorem AcquireLease_fences:
  assumes acq: "AcquireLease env T c owner s = (Inr lease, s1)"
    and stale: "fence \<noteq> cl_LeaseFence lease"
    and old: "cl_TenantID old = T" "cl_Consumer old = c" "cl_LeaseFence old = fence"
    and uniq: "distinct (map (\<lambda>r. (cur_tenant r, cur_consumer r)) (consumer_cursors s1))"
  shows "cl_LeaseFence lease = fenceOf T c s + 1 \<and>
         (\<exists>e. AckMessage env2 T c m seq fence s1 = (Inl e, s1)) \<and>
         (\<exists>e. RenewLease env3 old s1 = (Inl e, s1))"
proof -
  have f: "cl_LeaseFence lease = fenceOf T c s + 1" "fenceOf T c s1 = cl_LeaseFence lease"
    using AcquireLease_Inr [OF acq] by simp_all
  obtain r s' where a: "AckMessage env2 T c m seq fence s1 = (r, s')" by fastforce
  then have "\<exists>e. AckMessage env2 T c m seq fence s1 = (Inl e, s1)"
    by (rule AckMessage_cases) (use a f(2) stale in auto)
  moreover have "\<not> (isCursor T c x \<and> cur_lease_fence x = fence)" if x: "x \<in> set (consumer_cursors s1)" for x
  proof
    assume h: "isCursor T c x \<and> cur_lease_fence x = fence"
    then obtain q where q: "findCursor T c s1 = Some q"
      using x unfolding findCursor_def by (metis find_None_iff not_Some_eq)
    have "q \<in> set (consumer_cursors s1)" "isCursor T c q"
      using q unfolding findCursor_def by (auto dest: find_Some_set)
    then have "q = x" using h x uniq by (auto simp: distinct_map isCursor_def inj_on_def)
    then show False using h q f(2) stale by (simp add: fenceOf_def)
  qed
  then have "\<exists>e. RenewLease env3 old s1 = (Inl e, s1)" using old by (intro RenewLease_refused) simp
  ultimately show ?thesis using f(1) by blast
qed


section \<open>Acknowledgement happens once\<close>

datatype stream_op =
    OpAcquire svc_env uuid string uuid
  | OpRenew svc_env ConsumerLease
  | OpRelease svc_env ConsumerLease
  | OpAck svc_env uuid string uuid int int

text \<open>The operations of any number of service instances; a step returns the acknowledgement it accepted.\<close>

fun streamStep :: "stream_op \<Rightarrow> db \<Rightarrow> (uuid \<times> string \<times> uuid) list \<times> db" where
  "streamStep (OpAcquire env T c owner) s = ([], snd (AcquireLease env T c owner s))"
| "streamStep (OpRenew env l) s = ([], snd (RenewLease env l s))"
| "streamStep (OpRelease env l) s = ([], snd (ReleaseLease env l s))"
| "streamStep (OpAck env T c m seq fence) s =
     (let (r, s') = AckMessage env T c m seq fence s in (if r = Inr True then [(T, c, m)] else [], s'))"

fun streamRun :: "stream_op list \<Rightarrow> db \<Rightarrow> (uuid \<times> string \<times> uuid) list \<times> db" where
  "streamRun [] s = ([], s)"
| "streamRun (op # ops) s =
     (let (out, s1) = streamStep op s; (outs, s2) = streamRun ops s1 in (out @ outs, s2))"

definition processed :: "db \<Rightarrow> (uuid \<times> string \<times> uuid) set" where
  "processed s = {(T, c, m). inInbox T c m s}"

lemma processed_iff: "inInbox T c m s \<longleftrightarrow> (T, c, m) \<in> processed s"
  by (simp add: processed_def)

lemma processed_frame: "inbox s' = inbox s \<Longrightarrow> processed s' = processed s"
  by (simp add: processed_def inInbox_def)

lemma processed_ackedDb [simp]: "processed (ackedDb env T c m seq s) = insert (T, c, m) (processed s)"
  by (auto simp: processed_def inInbox_def ackedDb_def)

lemma AcquireLease_inbox: "inbox (snd (AcquireLease env T c owner s)) = inbox s"
proof -
  obtain r s' where a: "AcquireLease env T c owner s = (r, s')" by fastforce
  have "inbox s' = inbox s"
    using a [unfolded AcquireLease_def]
    by (rule runTx_cases) (auto simp: upsertLease_def split: option.splits)
  then show ?thesis by (simp add: a)
qed

lemma lease_inbox:
  "inbox (snd (RenewLease env l s)) = inbox s" "inbox (snd (ReleaseLease env l s)) = inbox s"
  by (simp_all add: RenewLease_def renewRows_def ReleaseLease_def autocommit_def Let_def)

lemma streamStep_processed:
  assumes "streamStep op s = (out, s')"
  shows "distinct out \<and> set out \<inter> processed s = {} \<and> set out \<union> processed s \<subseteq> processed s'"
proof (cases "\<exists>env T c m seq fence. op = OpAck env T c m seq fence")
  case True
  then obtain env T c m seq fence r where a: "AckMessage env T c m seq fence s = (r, s')"
    and out: "out = (if r = Inr True then [(T, c, m)] else [])"
    using assms by (auto split: prod.splits)
  from a show ?thesis
    by (rule AckMessage_cases) (use out in \<open>auto simp: processed_iff\<close>)
next
  case False
  then have "out = [] \<and> inbox s' = inbox s"
    using assms by (cases op) (auto simp: lease_inbox AcquireLease_inbox)
  then show ?thesis using processed_frame [of s' s] by simp
qed

lemma streamRun_processed:
  "streamRun ops s = (outs, s') \<Longrightarrow>
     distinct outs \<and> set outs \<inter> processed s = {} \<and> set outs \<union> processed s \<subseteq> processed s'"
proof (induction ops arbitrary: s outs)
  case Nil
  then show ?case by simp
next
  case (Cons op ops)
  obtain out s1 where st: "streamStep op s = (out, s1)" by fastforce
  moreover obtain rest where t: "streamRun ops s1 = (rest, s')" "outs = out @ rest"
    using Cons.prems st by (auto split: prod.splits)
  ultimately show ?case using Cons.IH [OF t(1)] streamStep_processed [OF st] by auto
qed

text \<open>
  C29: every message is acknowledged at most once: over any sequence of lease operations and
  acknowledgements by any instances, with any tokens, faults and lost commits, \<open>AckMessage\<close> reports a
  first acknowledgement of the same message to the same consumer at most once, and never for one
  processed before.
\<close>

theorem AckMessage_once:
  "case streamRun ops s of (accepted, s') \<Rightarrow>
     distinct accepted \<and> set accepted \<inter> processed s = {} \<and> set accepted \<subseteq> processed s'"
  using streamRun_processed [of ops s] by (auto split: prod.splits)


section \<open>Delivery order\<close>

text \<open>
  \<open>FetchPending\<close> returns the oldest unacknowledged messages in order: at most \<open>limit\<close> of them, with
  increasing numbers above \<open>fromSeq\<close>, and no pending message of the consumer is skipped in favour of a
  later one.
\<close>

theorem FetchPending_oldest_first:
  assumes "FetchPending env T c from limit s = Inr msgs"
  shows "\<exists>rows. msgs = map messageOf rows \<and> length rows \<le> nat limit \<and> sorted (map o_seq rows) \<and>
     set rows \<subseteq> {r \<in> set (outbox s). isOutbox T c r \<and> from < o_seq r \<and> o_acked_at r = None} \<and>
     (\<forall>r \<in> set (outbox s). isOutbox T c r \<and> from < o_seq r \<and> o_acked_at r = None \<longrightarrow>
        r \<in> set rows \<or> (length rows = nat limit \<and> (\<forall>q \<in> set rows. o_seq q \<le> o_seq r)))"
proof -
  let ?p = "pendingRows T c from s"
  have set: "set ?p = {r \<in> set (outbox s). isOutbox T c r \<and> from < o_seq r \<and> o_acked_at r = None}"
    by (auto simp: pendingRows_def isOutbox_def)
  have sorted: "sorted (map o_seq ?p)" by (simp add: pendingRows_def)
  have msgs: "msgs = map messageOf (take (nat limit) ?p)" using assms by (simp add: FetchPending_def)
  let ?rows = "take (nat limit) ?p"
  have last: "r \<in> set ?rows \<or> (length ?rows = nat limit \<and> (\<forall>q \<in> set ?rows. o_seq q \<le> o_seq r))"
    if "r \<in> set ?p" for r
  proof (cases "r \<in> set ?rows")
    case False
    with that have d: "r \<in> set (drop (nat limit) ?p)" by (metis Un_iff append_take_drop_id set_append)
    then have "nat limit \<le> length ?p" by (metis drop_all empty_iff linear list.set(1))
    moreover have "sorted (map o_seq ?rows @ map o_seq (drop (nat limit) ?p))"
      using sorted by (metis append_take_drop_id map_append)
    then have "\<forall>q \<in> set ?rows. o_seq q \<le> o_seq r" using d by (auto simp: sorted_append)
    ultimately show ?thesis by simp
  qed simp
  have "sorted (map o_seq ?rows)" using sorted by (simp add: sorted_wrt_take flip: take_map)
  moreover have "set ?rows \<subseteq> set ?p" by (rule set_take_subset)
  ultimately show ?thesis
    using msgs last unfolding set by (intro exI [of _ ?rows]) (simp; blast)
qed



section \<open>Concrete runs\<close>

definition demo_msg :: "uuid \<Rightarrow> OutboxMessage" where
  "demo_msg m = \<lparr>om_TenantID = 1, om_Consumer = ''dev'', om_MessageID = m, om_Payload = Some [5]\<rparr>"

lemma outboxInv_empty [simp]: "outboxInv emptyDb"
  by (simp add: outboxInv_def queueOf_def emptyDb_def)

theorem WriteTx_ordered_idempotent_witness:
  "\<exists>t'. WriteTx demo_pg (demo_svc 3) ''w'' (demo_msg 8) (beginTx emptyDb) = (Inr (), t') \<and>
     queueOf 1 ''dev'' (tx_db t') = [writtenRow 3 (demo_msg 8) [5] 1]"
proof -
  obtain t' where w: "WriteTx demo_pg (demo_svc 3) ''w'' (demo_msg 8) (beginTx emptyDb) = (Inr (), t')"
    by (simp add: WriteTx_def insert_outbox_def emptyDb_def queueOf_def maxOr_def bigint_def inInt64_def
        demo_msg_def sqlBytes_def)
  moreover have "\<not> seenMessage (demo_msg 8) emptyDb" "queueOf 1 ''dev'' emptyDb = []"
    by (simp_all add: seenMessage_def emptyDb_def queueOf_def)
  ultimately show ?thesis
    using WriteTx_ordered_idempotent [OF w] by (auto simp: demo_msg_def sqlBytes_def)
qed

lemma demo_acquire:
  "AcquireLease (demo_svc t) 1 ''dev'' 2 emptyDb =
     (Inr \<lparr>cl_TenantID = 1, cl_Consumer = ''dev'', cl_LeaseOwner = 2, cl_LeaseFence = 1,
           cl_ExpiresAt = t + 15 * second, cl_LastAckedSeq = 0\<rparr>,
      emptyDb\<lparr>consumer_cursors := [\<lparr>cur_tenant = 1, cur_consumer = ''dev'', cur_last_acked_seq = 0,
         cur_lease_owner = Some 2, cur_lease_fence = 1, cur_lease_expires_at = Some (t + 15 * second)\<rparr>]\<rparr>)"
  by (simp add: AcquireLease_def runTx_def step_def exec_def upsertLease_def findCursor_def commitTx_def emptyDb_def)

theorem AcquireLease_fences_witness:
  "\<exists>e. AckMessage (demo_svc 9) 1 ''dev'' 8 1 7 (snd (AcquireLease (demo_svc 0) 1 ''dev'' 2 emptyDb)) =
     (Inl e, snd (AcquireLease (demo_svc 0) 1 ''dev'' 2 emptyDb))"
  using AcquireLease_fences [OF demo_acquire [of 0], of 7
      "\<lparr>cl_TenantID = 1, cl_Consumer = ''dev'', cl_LeaseOwner = 3, cl_LeaseFence = 7, cl_ExpiresAt = 0, cl_LastAckedSeq = 0\<rparr>"
      "demo_svc 9" 8 1]
  by (simp add: demo_acquire)

theorem FetchPending_oldest_first_witness:
  "\<exists>rows. map messageOf (take 1 (pendingRows 1 ''dev'' 0 (emptyDb\<lparr>outbox := [writtenRow 3 (demo_msg 8) [5] 1]\<rparr>))) =
      map messageOf rows \<and> length rows \<le> nat 1 \<and> sorted (map o_seq rows)"
proof -
  let ?s = "emptyDb\<lparr>outbox := [writtenRow 3 (demo_msg 8) [5] 1]\<rparr>"
  have "FetchPending (demo_svc 0) 1 ''dev'' 0 1 ?s = Inr (map messageOf (take 1 (pendingRows 1 ''dev'' 0 ?s)))"
    by (simp add: FetchPending_def)
  from FetchPending_oldest_first [OF this] show ?thesis by blast
qed

end
