(* ===== verification/Enforcement.thy ===== *)
theory Enforcement
  imports Messaging
begin

text \<open>
  \<open>service/internal/enforcement/engine.go\<close>: the approval engine. Each handler is one database
  transaction (see \<open>Database\<close>); the interfaces it is built with, the request and grant signers, are
  functions of the parameter record \<open>engine\<close> that return the serialized envelope and the payload as
  signing left it. An event's JSON detail is a function of the same record.
\<close>

section \<open>Data\<close>

text \<open>The maps that are marshalled into audit payloads.\<close>

datatype event_detail =
    DetailRequest uuid uuid uuid string Scope string
  | DetailDecision uuid Decision uuid
  | DetailGrant uuid uuid string gotime
  | DetailCancel uuid string
  | DetailConsumed uuid

record engine =
  eng_SignRequest :: "RequestPayload \<Rightarrow> (bytes \<times> RequestPayload) option"
  eng_SignGrant :: "AGTPayload \<Rightarrow> (bytes \<times> AGTPayload) option"
  eng_codec :: env_codec
  eng_json :: audit_json
  eng_detail :: "event_detail \<Rightarrow> bytes"

record CreateApprovalRequestInput =
  cr_TenantID :: uuid
  cr_TailnetID :: string
  cr_UserID :: uuid
  cr_SrcNodeID :: string
  cr_SrcNodeKeyEpoch :: int
  cr_RequestingIP :: string
  cr_NodeID :: uuid
  cr_ResourceID :: uuid
  cr_Protocol :: string
  cr_SSHAccount :: string
  cr_Scope :: Scope
  cr_Binding :: ScopeBinding
  cr_PolicyVersion :: int
  cr_RuleID :: string
  cr_DeviceID :: uuid

record ProcessApprovalInput =
  pa_TenantID :: uuid
  pa_RequestID :: uuid
  pa_DeviceID :: uuid
  pa_Decision :: Decision
  pa_SignedResponse :: ApprovalResponse

record ProcessApprovalResult =
  res_NewState :: ApprovalState
  res_GrantJTI :: "uuid option"
  res_AGTBytes :: bytes

record resourceDetails =
  rd_NodeID :: string
  rd_ServiceID :: string
  rd_Port :: int
  rd_DeploymentMode :: string
  rd_Protocol :: string
  rd_Sensitivity :: string

datatype enf_error =
    GenerateChallenge rand_error
  | SignRequestError
  | EnfBegin sql_error
  | InsertRequest sql_error
  | EnfCommit sql_error
  | FetchRequest sql_error
  | DecodeBinding cose_error
  | FetchDevice sql_error
  | ResponseSignature env_error
  | InvalidDeviceCounter int int
  | TransitionState sql_error
  | UpdateResponse sql_error
  | ResolveUser sql_error
  | ResourceDetailsError sql_error
  | SignGrantError
  | MustParsePanic
  | InsertGrant sql_error
  | MarkGranted sql_error
  | MintGrant enf_error
  | BeginCancel sql_error
  | FetchForCancel sql_error
  | CancelTransition sql_error
  | CommitCancel sql_error
  | ConsumeGrantError sql_error
  | NilTransactionPanic


section \<open>Helpers\<close>

definition generateCapabilities :: "prims \<Rightarrow> svc_env \<Rightarrow> string \<times> string" where
  "generateCapabilities P env =
     (''dnivio_poll_'' @ uuid_String P (newUUID env ''poll capability''),
      ''dnivio_redeem_'' @ uuid_String P (newUUID env ''redeem capability''))"

definition resolveUserIdentity :: "prims \<Rightarrow> svc_env \<Rightarrow> db \<Rightarrow> uuid \<Rightarrow> uuid \<Rightarrow> sql_error + OIDCIdentity" where
  "resolveUserIdentity P env s tenantID userID =
     reject (fault env ''resolve user'') ConnectionFault (
     need (find (\<lambda>u. u_tenant u = tenantID \<and> u_id u = userID) (users s)) NoRows (\<lambda>u.
     Inr \<lparr>oid_Issuer = u_issuer u, oid_Subject = u_subject u, oid_UserID = uuid_String P (u_id u)\<rparr>))"

definition getResourceDetails :: "prims \<Rightarrow> svc_env \<Rightarrow> uuid \<Rightarrow> uuid \<Rightarrow> resourceDetails txm" where
  "getResourceDetails P env tenantID resourceID =
     query env ''resource details'' (\<lambda>s.
       map_option (\<lambda>r. \<lparr>rd_NodeID = uuid_String P (r_protected_node_id r), rd_ServiceID = r_service_id r,
                       rd_Port = r_port r, rd_DeploymentMode = r_deployment_mode r, rd_Protocol = ''TCP'',
                       rd_Sensitivity = r_sensitivity r\<rparr>)
         (findResource tenantID resourceID s))"

text \<open>Any failure to read the label gives the label \<open>unknown\<close>.\<close>

definition getResourceLabel :: "svc_env \<Rightarrow> db \<Rightarrow> uuid \<Rightarrow> uuid \<Rightarrow> DisplayLabel" where
  "getResourceLabel env s tenantID resourceID =
     (case (if fault env ''resource label'' then None else findResource tenantID resourceID s) of
        None \<Rightarrow> \<lparr>dl_Name = ''unknown'', dl_SourceHint = []\<rparr>
      | Some r \<Rightarrow>
          \<lparr>dl_Name = (case r_display_label r of None \<Rightarrow> r_service_id r | Some l \<Rightarrow> l), dl_SourceHint = []\<rparr>)"

definition advanceDeviceCounter :: "svc_env \<Rightarrow> uuid \<Rightarrow> uuid \<Rightarrow> int \<Rightarrow> bool txm" where
  "advanceDeviceCounter env tenantID deviceID counter =
     exec env ''advance counter'' (\<lambda>s. Inr (advance_device_counter tenantID deviceID counter s))"


section \<open>Creating a request\<close>

definition requestPayload ::
  "prims \<Rightarrow> CreateApprovalRequestInput \<Rightarrow> uuid \<Rightarrow> bytes \<Rightarrow> DisplayLabel \<Rightarrow> RequestPayload" where
  "requestPayload P input requestID challenge label =
     \<lparr>rp_Ver = 0, rp_RequestID = requestID, rp_TenantID = cr_TenantID input, rp_TailnetID = cr_TailnetID input,
      rp_IssuedAt = 0, rp_ExpiresAt = 0, rp_AudienceDeviceID = cr_DeviceID input,
      rp_Initiating = \<lparr>ii_SrcNodeID = cr_SrcNodeID input, ii_SrcNodeDisplay = cr_SrcNodeID input,
         ii_SrcNodeVerified = True, ii_RequestingIP = cr_RequestingIP input, ii_PostureVersion = []\<rparr>,
      rp_Resource = \<lparr>res_TenantID = cr_TenantID input, res_ProtectedNodeID = uuid_String P (cr_NodeID input),
         res_ServiceID = [], res_Port = 0, res_Transport = [], res_DeploymentMode = []\<rparr>,
      rp_ResourceDisplay = label, rp_Protocol = cr_Protocol input, rp_SSHAccount = cr_SSHAccount input,
      rp_PolicyVersion = cr_PolicyVersion input, rp_RuleID = cr_RuleID input, rp_ScopeRequested = cr_Scope input,
      rp_Binding = cr_Binding input, rp_Challenge = challenge, rp_DisplayDigest = []\<rparr>"

text \<open>The error of the encoder is dropped, which leaves the nil slice.\<close>

definition bindingBytes :: "engine \<Rightarrow> ScopeBinding \<Rightarrow> bytes option" where
  "bindingBytes eng b =
     (case EncodeCanonical (encModeOK (ec_cose (eng_codec eng))) (marshal_Binding (eng_codec eng)) b of
        Inl e \<Rightarrow> None
      | Inr bs \<Rightarrow> Some bs)"

definition newRequestRow ::
  "prims \<Rightarrow> svc_env \<Rightarrow> CreateApprovalRequestInput \<Rightarrow> uuid \<Rightarrow> bytes \<Rightarrow> bytes \<Rightarrow> string \<Rightarrow> string \<Rightarrow> request_row" where
  "newRequestRow P env input requestID challenge envelopeBytes pollCap redeemCap =
     \<lparr>q_id = requestID, q_tenant = cr_TenantID input, q_user = cr_UserID input, q_device = Some (cr_DeviceID input),
      q_node = cr_NodeID input, q_src_node_id = cr_SrcNodeID input, q_requesting_ip = cr_RequestingIP input,
      q_resource = cr_ResourceID input, q_protocol = cr_Protocol input, q_ssh_account = cr_SSHAccount input,
      q_scope = cr_Scope input,
      q_binding = [],
      q_challenge = challenge, q_envelope = envelopeBytes, q_envelope_sig = [],
      q_policy_version = cr_PolicyVersion input, q_rule_id = cr_RuleID input,
      q_state = ApprovalStatePending, q_state_version = 0, q_response_decision = None, q_response_sig = [],
      q_response_key_id = [], q_device_counter = None, q_response_nonce = [],
      q_poll_cap_hash = sha256 P (str_bytes pollCap), q_redeem_cap_hash = sha256 P (str_bytes redeemCap),
      q_expires_at = clock env ''request expiry'' + 60 * second, q_decided_at = None\<rparr>"

definition requestEvent :: "engine \<Rightarrow> svc_env \<Rightarrow> CreateApprovalRequestInput \<Rightarrow> uuid \<Rightarrow> AuditEvent" where
  "requestEvent eng env input requestID =
     \<lparr>ev_TenantID = cr_TenantID input, ev_EventType = EventApprovalRequest, ev_Producer = ''service'',
      ev_Details = noDetails\<lparr>d_user := Some (cr_UserID input), d_device := Some (cr_DeviceID input),
        d_resource := Some (cr_ResourceID input), d_protocol := Some (cr_Protocol input),
        d_request := Some requestID, d_correlation_id := Some (newUUID env ''correlation request'')\<rparr>,
      ev_Payload = eng_detail eng (DetailRequest (cr_UserID input) (cr_DeviceID input) (cr_ResourceID input)
        (cr_Protocol input) (cr_Scope input) (cr_RuleID input))\<rparr>"

definition requestMessage :: "prims \<Rightarrow> svc_env \<Rightarrow> CreateApprovalRequestInput \<Rightarrow> bytes \<Rightarrow> OutboxMessage" where
  "requestMessage P env input envelopeBytes =
     \<lparr>om_TenantID = cr_TenantID input, om_Consumer = uuid_String P (cr_DeviceID input),
      om_MessageID = newUUID env ''message request'', om_Payload = Some envelopeBytes\<rparr>"

definition createBody ::
  "prims \<Rightarrow> pg \<Rightarrow> engine \<Rightarrow> svc_env \<Rightarrow> CreateApprovalRequestInput \<Rightarrow> request_row \<Rightarrow> 'b
     \<Rightarrow> tx \<Rightarrow> (enf_error + 'b txend) \<times> tx" where
  "createBody P G eng env input row result =
     step (exec env ''insert request'' (insert_approval_request G (bindingBytes eng (cr_Binding input)) row)) InsertRequest (\<lambda>u.
     ignoring (InsertTx P G (eng_json eng) env ''audit request'' (requestEvent eng env input (q_id row))) (
     ignoring (WriteTx G env ''notify device'' (requestMessage P env input (q_envelope row))) (
     Pair (Inr (Commit result)))))"

definition CreateApprovalRequest ::
  "prims \<Rightarrow> pg \<Rightarrow> engine \<Rightarrow> svc_env \<Rightarrow> CreateApprovalRequestInput \<Rightarrow> db
     \<Rightarrow> (enf_error + RequestPayload \<times> string \<times> string) \<times> db" where
  "CreateApprovalRequest P G eng env input s =
    (let requestID = newUUID env ''request''
     in case NewNonce (osRand env) 32 of
          Inl e \<Rightarrow> (Inl (GenerateChallenge e), s)
        | Inr challenge \<Rightarrow>
            (let resourceLabel = getResourceLabel env s (cr_TenantID input) (cr_ResourceID input)
             in case eng_SignRequest eng (requestPayload P input requestID challenge resourceLabel) of
                  None \<Rightarrow> (Inl SignRequestError, s)
                | Some (envelopeBytes, payload) \<Rightarrow>
                    (let (pollCap, redeemCap) = generateCapabilities P env
                     in runTx env EnfBegin EnfCommit
                          (createBody P G eng env input
                             (newRequestRow P env input requestID challenge envelopeBytes pollCap redeemCap)
                             (payload, pollCap, redeemCap)) s)))"


section \<open>Minting a grant\<close>

definition agtFor ::
  "uuid \<Rightarrow> uuid \<Rightarrow> OIDCIdentity \<Rightarrow> string \<Rightarrow> int \<Rightarrow> uuid \<Rightarrow> resourceDetails \<Rightarrow> Scope \<Rightarrow> ScopeBinding \<Rightarrow> int \<Rightarrow> string
     \<Rightarrow> int \<Rightarrow> gotime \<Rightarrow> AGTPayload" where
  "agtFor jti tenantID userIdentity srcNodeID srcNodeKeyEpoch approverDeviceID resource scope binding policyVersion
     ruleID authzEpoch nw =
     \<lparr>agt_Ver = 0, agt_JTI = jti, agt_TenantID = tenantID, agt_TailnetID = [], agt_Subject = userIdentity,
      agt_SrcNodeID = srcNodeID, agt_SrcNodeKeyEpoch = srcNodeKeyEpoch, agt_ApproverDeviceID = approverDeviceID,
      agt_ApprovalKeyID = [], agt_DeviceSecurityLevel = SecurityLevelStrongBox, agt_ProtectedNodeID = [],
      agt_Resource = \<lparr>res_TenantID = tenantID, res_ProtectedNodeID = rd_NodeID resource,
         res_ServiceID = rd_ServiceID resource, res_Port = rd_Port resource, res_Transport = TransportTCP,
         res_DeploymentMode = rd_DeploymentMode resource\<rparr>,
      agt_Protocol = rd_Protocol resource, agt_DeploymentMode = rd_DeploymentMode resource, agt_Scope = scope,
      agt_Binding = binding, agt_PolicyVersion = policyVersion, agt_RuleID = ruleID, agt_AuthzEpoch = authzEpoch,
      agt_IssuedAt = nw, agt_NotBefore = nw, agt_ExpiresAt = nw + MaxGrantTTL scope (rd_Sensitivity resource)\<rparr>"

definition grantRow :: "AGTPayload \<Rightarrow> uuid \<Rightarrow> uuid \<Rightarrow> uuid \<Rightarrow> uuid \<Rightarrow> string \<Rightarrow> uuid \<Rightarrow> uuid \<Rightarrow> bytes \<Rightarrow> grant_row" where
  "grantRow agt jti tenantID requestID userID srcNodeID nodeID resourceID agtBytes =
     \<lparr>g_jti = jti, g_tenant = tenantID, g_request = requestID, g_user = userID, g_src_node_id = srcNodeID,
      g_src_node_key_epoch = agt_SrcNodeKeyEpoch agt, g_device = agt_ApproverDeviceID agt, g_node = nodeID,
      g_resource = resourceID, g_protocol = agt_Protocol agt, g_scope = agt_Scope agt, g_binding = [],
      g_policy_version = agt_PolicyVersion agt, g_authz_epoch = agt_AuthzEpoch agt,
      g_device_security_level = agt_DeviceSecurityLevel agt, g_agt_bytes = agtBytes, g_kid = [],
      g_iat = agt_IssuedAt agt, g_nbf = agt_NotBefore agt, g_expires_at = agt_ExpiresAt agt, g_consumed_at = None\<rparr>"

definition markGranted :: "uuid \<Rightarrow> uuid \<Rightarrow> db \<Rightarrow> db" where
  "markGranted tenantID requestID s =
     s\<lparr>approval_requests := updateWhere
        (\<lambda>q. isRequest tenantID requestID q \<and> q_state q = ApprovalStateApproved)
        (\<lambda>q. q\<lparr>q_state := ApprovalStateGranted, q_state_version := q_state_version q + 1\<rparr>) (approval_requests s)\<rparr>"

definition grantEvent :: "engine \<Rightarrow> svc_env \<Rightarrow> uuid \<Rightarrow> uuid \<Rightarrow> uuid \<Rightarrow> Scope \<Rightarrow> AGTPayload \<Rightarrow> AuditEvent" where
  "grantEvent eng env tenantID requestID userID scope agtPayload =
     \<lparr>ev_TenantID = tenantID, ev_EventType = EventGrantIssued, ev_Producer = ''service'',
      ev_Details = noDetails\<lparr>d_user := Some userID, d_request := Some requestID,
        d_correlation_id := Some (newUUID env ''correlation grant'')\<rparr>,
      ev_Payload = eng_detail eng (DetailGrant (newUUID env ''jti'') requestID scope (agt_ExpiresAt agtPayload))\<rparr>"

definition grantMessage :: "svc_env \<Rightarrow> uuid \<Rightarrow> AGTPayload \<Rightarrow> bytes \<Rightarrow> OutboxMessage" where
  "grantMessage env tenantID agtPayload agtBytes =
     \<lparr>om_TenantID = tenantID, om_Consumer = res_ProtectedNodeID (agt_Resource agtPayload),
      om_MessageID = newUUID env ''jti'', om_Payload = Some agtBytes\<rparr>"

text \<open>\<open>s0\<close> is the database outside the transaction, which \<open>resolveUserIdentity\<close> reads.\<close>

definition mintGrant ::
  "prims \<Rightarrow> pg \<Rightarrow> engine \<Rightarrow> svc_env \<Rightarrow> db \<Rightarrow> uuid \<Rightarrow> uuid \<Rightarrow> uuid \<Rightarrow> string \<Rightarrow> uuid \<Rightarrow> uuid \<Rightarrow> Scope \<Rightarrow> int \<Rightarrow> string
     \<Rightarrow> ScopeBinding \<Rightarrow> int \<Rightarrow> int \<Rightarrow> tx \<Rightarrow> (enf_error + uuid \<times> bytes) \<times> tx" where
  "mintGrant P G eng env s0 tenantID requestID userID srcNodeID approverDeviceID resourceID scope policyVersion ruleID
     binding srcNodeKeyEpoch authzEpoch =
    (let jti = newUUID env ''jti''
     in case resolveUserIdentity P env s0 tenantID userID of
          Inl e \<Rightarrow> Pair (Inl (ResolveUser e))
        | Inr userIdentity \<Rightarrow>
            step (getResourceDetails P env tenantID resourceID) ResourceDetailsError (\<lambda>resource.
            case eng_SignGrant eng (agtFor jti tenantID userIdentity srcNodeID srcNodeKeyEpoch approverDeviceID resource
                                      scope binding policyVersion ruleID authzEpoch (clock env ''mint'')) of
              None \<Rightarrow> Pair (Inl SignGrantError)
            | Some (agtBytes, agtPayload) \<Rightarrow>
                (case uuid_Parse P (res_ProtectedNodeID (agt_Resource agtPayload)) of
                   None \<Rightarrow> Pair (Inl MustParsePanic)
                 | Some nodeID \<Rightarrow>
                     step (exec env ''insert grant'' (insert_grant G
                             (grantRow agtPayload jti tenantID requestID userID srcNodeID nodeID resourceID agtBytes)))
                       InsertGrant (\<lambda>u.
                     step (exec env ''mark granted'' (\<lambda>s. Inr ((), markGranted tenantID requestID s))) MarkGranted (\<lambda>u.
                     ignoring (InsertTx P G (eng_json eng) env ''audit grant''
                                 (grantEvent eng env tenantID requestID userID scope agtPayload)) (
                     ignoring (WriteTx G env ''deliver grant'' (grantMessage env tenantID agtPayload agtBytes)) (
                     Pair (Inr (jti, agtBytes)))))))))"


section \<open>Processing a decision\<close>

definition sourceKeyEpoch :: "db \<Rightarrow> request_row \<Rightarrow> int" where
  "sourceKeyEpoch s q =
     (case find (\<lambda>n. n_tenant n = q_tenant q \<and> n_ts_stable_node_id n = q_src_node_id q) (nodes s) of
        None \<Rightarrow> 0 | Some n \<Rightarrow> n_node_key_epoch n)"

definition authzEpochOf :: "uuid \<Rightarrow> db \<Rightarrow> int" where
  "authzEpochOf tenantID s = maxOr 1 (map p_epoch (filter (\<lambda>p. p_tenant p = tenantID) (policies s)))"

definition isDevice :: "uuid \<Rightarrow> uuid \<Rightarrow> device_row \<Rightarrow> bool" where
  "isDevice tenant did d \<longleftrightarrow> dv_tenant d = tenant \<and> dv_id d = did"

definition findDevice :: "uuid \<Rightarrow> uuid \<Rightarrow> db \<Rightarrow> device_row option" where
  "findDevice tenant did s = find (isDevice tenant did) (devices s)"

definition verificationKey :: "ProcessApprovalInput \<Rightarrow> device_row \<Rightarrow> bytes" where
  "verificationKey input d =
     (if pa_Decision input = DecisionApprove then dv_approval_auth_pub d else dv_device_auth_pub d)"

definition decidedState :: "ProcessApprovalInput \<Rightarrow> ApprovalState" where
  "decidedState input = (if pa_Decision input = DecisionApprove then ApprovalStateApproved else ApprovalStateDenied)"

definition recordResponse :: "ProcessApprovalInput \<Rightarrow> db \<Rightarrow> db" where
  "recordResponse input s =
     s\<lparr>approval_requests := updateWhere (isRequest (pa_TenantID input) (pa_RequestID input))
        (\<lambda>q. q\<lparr>q_response_decision := Some (pa_Decision input),
               q_response_sig := ar_Signature (pa_SignedResponse input),
               q_response_key_id := ar_KeyID (pa_SignedResponse input),
               q_device_counter := Some (ar_DeviceCounter (pa_SignedResponse input)),
               q_response_nonce := ar_ResponseNonce (pa_SignedResponse input)\<rparr>) (approval_requests s)\<rparr>"

definition decisionEvent :: "engine \<Rightarrow> svc_env \<Rightarrow> ProcessApprovalInput \<Rightarrow> uuid \<Rightarrow> AuditEvent" where
  "decisionEvent eng env input userID =
     \<lparr>ev_TenantID = pa_TenantID input, ev_EventType = EventApprovalDecision, ev_Producer = ''service'',
      ev_Details = noDetails\<lparr>d_user := Some userID, d_device := Some (pa_DeviceID input),
        d_request := Some (pa_RequestID input), d_result := Some (pa_Decision input),
        d_correlation_id := Some (newUUID env ''correlation decision'')\<rparr>,
      ev_Payload = eng_detail eng (DetailDecision (pa_RequestID input) (pa_Decision input) (pa_DeviceID input))\<rparr>"

text \<open>From the state transition to the commit, for a verified response to a pending request.\<close>

definition decideBody ::
  "prims \<Rightarrow> pg \<Rightarrow> engine \<Rightarrow> svc_env \<Rightarrow> db \<Rightarrow> ProcessApprovalInput \<Rightarrow> request_row \<Rightarrow> int \<Rightarrow> ScopeBinding \<Rightarrow> int
     \<Rightarrow> tx \<Rightarrow> (enf_error + ProcessApprovalResult txend) \<times> tx" where
  "decideBody P G eng env s0 input q srcNodeKeyEpoch binding authzEpoch =
     step (exec env ''transition'' (transition_approval_request (pgNow env) (pa_TenantID input) (pa_RequestID input)
             (decidedState input) (q_state_version q))) TransitionState (\<lambda>u.
     step (exec env ''update response'' (\<lambda>s. Inr ((), recordResponse input s))) UpdateResponse (\<lambda>u.
     ignoring (advanceDeviceCounter env (pa_TenantID input) (pa_DeviceID input)
                 (ar_DeviceCounter (pa_SignedResponse input))) (
     (\<lambda>finish.
        if pa_Decision input = DecisionApprove then
          step (mintGrant P G eng env s0 (pa_TenantID input) (pa_RequestID input) (q_user q) (q_src_node_id q)
                  (pa_DeviceID input) (q_resource q) (q_scope q) (q_policy_version q) (q_rule_id q) binding
                  srcNodeKeyEpoch authzEpoch) MintGrant (\<lambda>(jti, agtBytes).
            finish \<lparr>res_NewState = ApprovalStateGranted, res_GrantJTI = Some jti, res_AGTBytes = agtBytes\<rparr>)
        else finish \<lparr>res_NewState = decidedState input, res_GrantJTI = None, res_AGTBytes = []\<rparr>)
     (\<lambda>result.
        ignoring (InsertTx P G (eng_json eng) env ''audit decision'' (decisionEvent eng env input (q_user q))) (
        Pair (Inr (Commit result)))))))"

definition processBody ::
  "prims \<Rightarrow> pg \<Rightarrow> engine \<Rightarrow> svc_env \<Rightarrow> db \<Rightarrow> ProcessApprovalInput \<Rightarrow> tx
     \<Rightarrow> (enf_error + ProcessApprovalResult txend) \<times> tx" where
  "processBody P G eng env s0 input =
     step (query env ''fetch request''
             (\<lambda>s. map_option (\<lambda>q. (q, sourceKeyEpoch s q)) (findRequest (pa_TenantID input) (pa_RequestID input) s)))
       FetchRequest (\<lambda>(q, srcNodeKeyEpoch).
     if q_state q \<noteq> ApprovalStatePending then
       Pair (Inr (Rollback \<lparr>res_NewState = q_state q, res_GrantJTI = None, res_AGTBytes = []\<rparr>))
     else
     (case (if q_binding q \<noteq> []
            then DecodeCanonical (decModeOK (ec_cose (eng_codec eng))) (unmarshal_Binding (eng_codec eng)) (q_binding q)
            else Inr emptyBinding) of
        Inl e \<Rightarrow> Pair (Inl (DecodeBinding e))
      | Inr binding \<Rightarrow>
          (\<lambda>t. case query env ''authz epoch'' (\<lambda>s. Some (authzEpochOf (pa_TenantID input) s)) t of
                 (r, t1) \<Rightarrow>
                   (let authzEpoch = (case r of Inl e \<Rightarrow> 1 | Inr x \<Rightarrow> x)
                    in step (query env ''fetch device'' (findDevice (pa_TenantID input) (pa_DeviceID input)))
                         FetchDevice (\<lambda>d.
                       (case VerifyApprovalResponse P (pa_SignedResponse input) (verificationKey input d) of
                          Inl e \<Rightarrow> Pair (Inl (ResponseSignature e))
                        | Inr u \<Rightarrow>
                            if ar_DeviceCounter (pa_SignedResponse input) \<le> dv_counter d
                            then Pair (Inl (InvalidDeviceCounter (ar_DeviceCounter (pa_SignedResponse input)) (dv_counter d)))
                            else decideBody P G eng env s0 input q srcNodeKeyEpoch binding authzEpoch)) t1))))"

definition ProcessApproval ::
  "prims \<Rightarrow> pg \<Rightarrow> engine \<Rightarrow> svc_env \<Rightarrow> ProcessApprovalInput \<Rightarrow> db \<Rightarrow> (enf_error + ProcessApprovalResult) \<times> db" where
  "ProcessApproval P G eng env input s = runTx env EnfBegin EnfCommit (processBody P G eng env s input) s"


section \<open>Cancelling and consuming\<close>

definition cancelEvent :: "engine \<Rightarrow> svc_env \<Rightarrow> uuid \<Rightarrow> uuid \<Rightarrow> string \<Rightarrow> AuditEvent" where
  "cancelEvent eng env tenantID requestID reason =
     \<lparr>ev_TenantID = tenantID, ev_EventType = ''REQUEST_CANCELLED'', ev_Producer = ''service'',
      ev_Details = noDetails\<lparr>d_request := Some requestID,
        d_correlation_id := Some (newUUID env ''correlation cancel'')\<rparr>,
      ev_Payload = eng_detail eng (DetailCancel requestID reason)\<rparr>"

definition cancelMessage :: "svc_env \<Rightarrow> uuid \<Rightarrow> OutboxMessage" where
  "cancelMessage env tenantID =
     \<lparr>om_TenantID = tenantID, om_Consumer = ''approver_device'', om_MessageID = newUUID env ''message cancel'',
      om_Payload = None\<rparr>"

definition cancelBody ::
  "prims \<Rightarrow> pg \<Rightarrow> engine \<Rightarrow> svc_env \<Rightarrow> uuid \<Rightarrow> uuid \<Rightarrow> string \<Rightarrow> tx \<Rightarrow> (enf_error + unit txend) \<times> tx" where
  "cancelBody P G eng env tenantID requestID reason =
     step (query env ''fetch for cancel'' (findRequest tenantID requestID)) FetchForCancel (\<lambda>q.
     if q_state q \<noteq> ApprovalStatePending then Pair (Inr (Rollback ()))
     else
     step (exec env ''cancel transition'' (transition_approval_request (pgNow env) tenantID requestID
             ApprovalStateCancelled (q_state_version q))) CancelTransition (\<lambda>u.
     ignoring (InsertTx P G (eng_json eng) env ''audit cancel'' (cancelEvent eng env tenantID requestID reason)) (
     ignoring (WriteTx G env ''cancel device'' (cancelMessage env tenantID)) (
     Pair (Inr (Commit ()))))))"

text \<open>For a request already decided the source commits a transaction that wrote nothing.\<close>

definition CancelApprovalRequest ::
  "prims \<Rightarrow> pg \<Rightarrow> engine \<Rightarrow> svc_env \<Rightarrow> uuid \<Rightarrow> uuid \<Rightarrow> uuid \<Rightarrow> string \<Rightarrow> db \<Rightarrow> (enf_error + unit) \<times> db" where
  "CancelApprovalRequest P G eng env tenantID requestID nodeID reason s =
     runTx env BeginCancel CommitCancel (cancelBody P G eng env tenantID requestID reason) s"

text \<open>After a successful consumption the audit writer is called with a nil transaction, which panics.\<close>

definition ConsumeGrant :: "svc_env \<Rightarrow> uuid \<Rightarrow> uuid \<Rightarrow> db \<Rightarrow> (enf_error + bool) \<times> db" where
  "ConsumeGrant env tenantID jti s =
    (let (r, s') = autocommit env ''consume grant'' (\<lambda>s. Inr (consume_grant tenantID jti (clock env ''consume'') s)) s
     in (attempt r ConsumeGrantError (\<lambda>consumed.
         reject consumed NilTransactionPanic (Inr consumed)), s'))"


section \<open>How a request moves\<close>

text \<open>What a decision never changes in a request.\<close>

definition sameRequest :: "request_row \<Rightarrow> request_row \<Rightarrow> bool" where
  "sameRequest r r' \<longleftrightarrow>
     q_id r' = q_id r \<and> q_tenant r' = q_tenant r \<and> q_user r' = q_user r \<and> q_device r' = q_device r \<and>
     q_node r' = q_node r \<and> q_src_node_id r' = q_src_node_id r \<and> q_resource r' = q_resource r \<and>
     q_protocol r' = q_protocol r \<and> q_scope r' = q_scope r \<and> q_binding r' = q_binding r \<and>
     q_challenge r' = q_challenge r \<and> q_envelope r' = q_envelope r \<and>
     q_policy_version r' = q_policy_version r \<and> q_rule_id r' = q_rule_id r \<and> q_expires_at r' = q_expires_at r"

lemma sameRequest_trans: "sameRequest a b \<Longrightarrow> sameRequest b c \<Longrightarrow> sameRequest a c"
  by (simp add: sameRequest_def)

lemma sameRequest_isRequest: "sameRequest r r' \<Longrightarrow> isRequest T R r' = isRequest T R r"
  by (simp add: sameRequest_def isRequest_def)

text \<open>The rows of one request have moved to the state \<open>fin\<close>; all other rows are as before.\<close>

definition requestMoves :: "uuid \<Rightarrow> uuid \<Rightarrow> ApprovalState \<Rightarrow> db \<Rightarrow> db \<Rightarrow> bool" where
  "requestMoves T R fin s s' \<longleftrightarrow>
     (\<exists>f. approval_requests s' = updateWhere (isRequest T R) f (approval_requests s) \<and>
          (\<forall>r. sameRequest r (f r) \<and> q_state (f r) = fin))"

lemma requestMoves_cong:
  "approval_requests s1 = approval_requests s' \<Longrightarrow> requestMoves T R fin s s1 = requestMoves T R fin s s'"
  by (simp add: requestMoves_def)

lemma transition_Inr:
  assumes "transition_approval_request nw T R new v s = Inr (b, s')"
  obtains q rs where "findRequest T R s = Some q" "q_state_version q = v" "validTransition (q_state q) new"
    "s' = s\<lparr>approval_requests := rs\<rparr>" "requestMoves T R new s s'"
proof -
  obtain q where q: "findRequest T R s = Some q" "q_state_version q = v" "validTransition (q_state q) new"
    and s': "s' = s\<lparr>approval_requests := updateWhere (isRequest T R)
            (\<lambda>r. r\<lparr>q_state := new, q_state_version := q_state_version q + 1,
                   q_decided_at :=
                     (if new \<in> {ApprovalStateApproved, ApprovalStateDenied, ApprovalStateExpired,
                                        ApprovalStateCancelled}
                      then Some nw else q_decided_at r)\<rparr>) (approval_requests s)\<rparr>"
    using assms by (auto simp: transition_approval_request_def)
  have "requestMoves T R new s s'"
    unfolding requestMoves_def s' by (intro exI conjI) (simp, simp add: sameRequest_def)
  with q s' show thesis using that by blast
qed

lemma recordResponse_moves:
  assumes "requestMoves (pa_TenantID i) (pa_RequestID i) fin s s1"
  shows "requestMoves (pa_TenantID i) (pa_RequestID i) fin s (recordResponse i s1)"
proof -
  let ?Q = "isRequest (pa_TenantID i) (pa_RequestID i)"
  let ?g = "\<lambda>q. q\<lparr>q_response_decision := Some (pa_Decision i), q_response_sig := ar_Signature (pa_SignedResponse i),
     q_response_key_id := ar_KeyID (pa_SignedResponse i), q_device_counter := Some (ar_DeviceCounter (pa_SignedResponse i)),
     q_response_nonce := ar_ResponseNonce (pa_SignedResponse i)\<rparr>"
  obtain f where f: "approval_requests s1 = updateWhere ?Q f (approval_requests s)"
    and p: "\<And>r. sameRequest r (f r) \<and> q_state (f r) = fin" using assms unfolding requestMoves_def by blast
  have "?Q (f r) = ?Q r" for r using p sameRequest_isRequest by blast
  then have "approval_requests (recordResponse i s1) = updateWhere ?Q (\<lambda>r. ?g (f r)) (approval_requests s)"
    unfolding recordResponse_def f by (simp add: updateWhere_compose)
  moreover have "sameRequest r (?g (f r)) \<and> q_state (?g (f r)) = fin" for r
    using p [of r] by (simp add: sameRequest_def)
  ultimately show ?thesis unfolding requestMoves_def by blast
qed

lemma markGranted_moves:
  assumes "requestMoves T R ApprovalStateApproved s s1"
  shows "requestMoves T R ApprovalStateGranted s (markGranted T R s1)"
proof -
  let ?g = "\<lambda>q. q\<lparr>q_state := ApprovalStateGranted, q_state_version := q_state_version q + 1\<rparr>"
  obtain f where f: "approval_requests s1 = updateWhere (isRequest T R) f (approval_requests s)"
    and p: "\<And>r. sameRequest r (f r) \<and> q_state (f r) = ApprovalStateApproved"
    using assms unfolding requestMoves_def by blast
  have i: "isRequest T R (f r) = isRequest T R r" for r using p sameRequest_isRequest by blast
  have "approval_requests (markGranted T R s1) = updateWhere (isRequest T R) (\<lambda>r. ?g (f r)) (approval_requests s)"
    unfolding markGranted_def f using p i by (simp add: updateWhere_compose)
  moreover have "sameRequest r (?g (f r)) \<and> q_state (?g (f r)) = ApprovalStateGranted" for r
    using p [of r] by (simp add: sameRequest_def)
  ultimately show ?thesis unfolding requestMoves_def by blast
qed

lemma requestMoves_find:
  assumes "requestMoves T R fin s s'"
  shows "findRequest T R s \<noteq> None \<Longrightarrow> \<exists>q'. findRequest T R s' = Some q' \<and> q_state q' = fin"
    and "U \<noteq> T \<or> Q \<noteq> R \<Longrightarrow> findRequest U Q s' = findRequest U Q s"
proof -
  obtain f where f: "approval_requests s' = updateWhere (isRequest T R) f (approval_requests s)"
    and p: "\<And>r. sameRequest r (f r) \<and> q_state (f r) = fin" using assms unfolding requestMoves_def by blast
  have i: "isRequest U Q (f r) = isRequest U Q r" for U Q r using p sameRequest_isRequest by blast
  have e: "findRequest U Q s' = map_option (\<lambda>r. if isRequest T R r then f r else r) (findRequest U Q s)" for U Q
    unfolding findRequest_def f by (rule find_updateWhere) (rule i)
  have m: "findRequest U Q s = Some r \<Longrightarrow> isRequest U Q r" for U Q r
    unfolding findRequest_def by (auto dest: find_Some_set)
  show "\<exists>q'. findRequest T R s' = Some q' \<and> q_state q' = fin" if "findRequest T R s \<noteq> None"
  proof -
    from that obtain y where y: "findRequest T R s = Some y" by blast
    then have "findRequest T R s' = Some (f y)" using e [of T R] m [OF y] by simp
    then show ?thesis using p by blast
  qed
  show "findRequest U Q s' = findRequest U Q s" if "U \<noteq> T \<or> Q \<noteq> R"
    using that e [of U Q] m [of U Q] by (cases "findRequest U Q s") (auto simp: isRequest_def)
qed


section \<open>What a minted grant is\<close>

text \<open>
  A signer changes nothing of a grant but its version, when the times are set: the contract of
  \<open>GrantSigner\<close> that the engine relies on when it stores the payload's fields after signing.
\<close>

definition signsFaithfully :: "(AGTPayload \<Rightarrow> (bytes \<times> AGTPayload) option) \<Rightarrow> bool" where
  "signsFaithfully sg \<longleftrightarrow>
     (\<forall>p b p'. sg p = Some (b, p') \<and> \<not> isZero (agt_IssuedAt p) \<and> \<not> isZero (agt_NotBefore p) \<longrightarrow>
        p' = p\<lparr>agt_Ver := agt_Ver p'\<rparr>)"

text \<open>A grant whose lifetime respects the caps of the migration for its resource.\<close>

definition withinCap :: "db \<Rightarrow> grant_row \<Rightarrow> bool" where
  "withinCap s g \<longleftrightarrow>
    (let cap = grant_max_seconds (g_scope g) (map_option r_sensitivity (findResource (g_tenant g) (g_resource g) s))
     in cap \<noteq> 0 \<and> g_expires_at g - g_iat g \<le> cap * second)"

lemma withinCap_cong: "resources s' = resources s \<Longrightarrow> withinCap s' g = withinCap s g"
  by (simp add: withinCap_def findResource_def)

definition hasGrant :: "uuid \<Rightarrow> uuid \<Rightarrow> db \<Rightarrow> bool" where
  "hasGrant T R s \<longleftrightarrow> list_ex (\<lambda>g. g_tenant g = T \<and> g_request g = R) (grants s)"

lemma insert_grant_Inr:
  assumes "insert_grant G g s = Inr (u, s')"
  obtains (conflict) "hasGrant (g_tenant g) (g_request g) s" "s' = s" "withinCap s g" "jsonb_in G (g_binding g) \<noteq> None"
  | (inserted) b where "\<not> hasGrant (g_tenant g) (g_request g) s" "jsonb_in G (g_binding g) = Some b"
      "s' = s\<lparr>grants := grants s @ [g\<lparr>g_binding := b\<rparr>]\<rparr>" "withinCap s g"
      "\<not> list_ex (isGrant (g_tenant g) (g_jti g)) (grants s)" "requestExists (g_tenant g) (g_request g) s"
proof -
  obtain b where b: "jsonb_in G (g_binding g) = Some b" and v: "validate_grant_ttl g s = Inr ()"
    using assms by (auto simp: insert_grant_def)
  have w: "withinCap s g" using v by (auto simp: validate_grant_ttl_def withinCap_def Let_def)
  show thesis
  proof (cases "hasGrant (g_tenant g) (g_request g) s")
    case True
    then show ?thesis using assms b v w by (intro conflict) (auto simp: insert_grant_def hasGrant_def)
  next
    case False
    then show ?thesis using assms b v w by (intro inserted [of b]) (auto simp: insert_grant_def hasGrant_def)
  qed
qed

text \<open>The columns of the tables that no handler of the engine writes.\<close>

definition sameWorld :: "db \<Rightarrow> db \<Rightarrow> bool" where
  "sameWorld s s' \<longleftrightarrow>
     tenants s' = tenants s \<and> users s' = users s \<and> nodes s' = nodes s \<and> resources s' = resources s \<and>
     policies s' = policies s \<and> active_sessions s' = active_sessions s \<and> revocations s' = revocations s \<and>
     inbox s' = inbox s \<and> consumer_cursors s' = consumer_cursors s"

lemma sameWorld_refl [simp]: "sameWorld s s"
  by (simp add: sameWorld_def)

lemma sameWorld_trans: "sameWorld s s1 \<Longrightarrow> sameWorld s1 s2 \<Longrightarrow> sameWorld s s2"
  by (simp add: sameWorld_def)

lemma InsertTx_world:
  assumes "InsertTx P G J env l ev t = (Inr n, t')"
  shows "sameWorld (tx_db t) (tx_db t')" "approval_requests (tx_db t') = approval_requests (tx_db t)"
    "grants (tx_db t') = grants (tx_db t)" "devices (tx_db t') = devices (tx_db t)" "outbox (tx_db t') = outbox (tx_db t)"
proof -
  obtain es hs where "tx_db t' = (tx_db t)\<lparr>audit_events := es, audit_heads := hs\<rparr>"
    using InsertTx_Inr(6) [OF assms] by blast
  then show "sameWorld (tx_db t) (tx_db t')" "approval_requests (tx_db t') = approval_requests (tx_db t)"
    "grants (tx_db t') = grants (tx_db t)" "devices (tx_db t') = devices (tx_db t)" "outbox (tx_db t') = outbox (tx_db t)"
    by (simp_all add: sameWorld_def)
qed

lemma WriteTx_world:
  assumes "WriteTx G env l msg t = (Inr u, t')"
  shows "sameWorld (tx_db t) (tx_db t')" "approval_requests (tx_db t') = approval_requests (tx_db t)"
    "grants (tx_db t') = grants (tx_db t)" "devices (tx_db t') = devices (tx_db t)"
    "audit_events (tx_db t') = audit_events (tx_db t)" "audit_heads (tx_db t') = audit_heads (tx_db t)"
proof -
  obtain os where "tx_db t' = (tx_db t)\<lparr>outbox := os\<rparr>" using WriteTx_Inr(1) [OF assms] by blast
  then show "sameWorld (tx_db t) (tx_db t')" "approval_requests (tx_db t') = approval_requests (tx_db t)"
    "grants (tx_db t') = grants (tx_db t)" "devices (tx_db t') = devices (tx_db t)"
    "audit_events (tx_db t') = audit_events (tx_db t)" "audit_heads (tx_db t') = audit_heads (tx_db t)"
    by (simp_all add: sameWorld_def)
qed

text \<open>An audit event and a message whose errors are dropped: in a transaction that is sound in the end both were written.\<close>

lemma notice_sound:
  assumes "ignoring (InsertTx P G J env l ev) (ignoring (WriteTx G env l' msg) (Pair (Inr y))) t = (Inr x :: 'e + 'b, t')"
    and "\<not> tx_aborted t'"
  shows "x = y" "sameWorld (tx_db t) (tx_db t')" "approval_requests (tx_db t') = approval_requests (tx_db t)"
    "grants (tx_db t') = grants (tx_db t)" "devices (tx_db t') = devices (tx_db t)" "sqlBytes G (om_Payload msg) \<noteq> None"
    "\<exists>n h. audit_events (tx_db t') = audit_events (tx_db t) @ [goRow P G J (pgNow env) ev n h]"
proof -
  obtain n t1 where i: "InsertTx P G J env l ev t = (Inr n, t1)"
    and k: "ignoring (WriteTx G env l' msg) (Pair (Inr y)) t1 = (Inr x :: 'e + 'b, t')"
    by (rule ignoring_sound [OF assms]) (intro sticky_intros failsHard_intros)+
  obtain u where w: "WriteTx G env l' msg t1 = (Inr u, t')" and e: "x = y"
    by (rule ignoring_sound [OF k assms(2)]) (intro sticky_intros, intro failsHard_intros, simp)
  note fr = InsertTx_world [OF i] WriteTx_world [OF w]
  show "x = y" by (rule e)
  show "sameWorld (tx_db t) (tx_db t')" using fr sameWorld_trans by blast
  show "approval_requests (tx_db t') = approval_requests (tx_db t)" "grants (tx_db t') = grants (tx_db t)"
    "devices (tx_db t') = devices (tx_db t)" using fr by simp_all
  show "sqlBytes G (om_Payload msg) \<noteq> None" using WriteTx_Inr(4) [OF w] .
  show "\<exists>n h. audit_events (tx_db t') = audit_events (tx_db t) @ [goRow P G J (pgNow env) ev n h]"
    using InsertTx_Inr(4) [OF i] fr by auto
qed

text \<open>A mint that ends in a sound transaction: the grant it stored, or the one it found.\<close>

lemma mintGrant_Inr:
  assumes "mintGrant P G eng env s0 T R usr src dev res scope pv rule bnd epoch az t = (Inr (jti, b), t')"
    and "\<not> tx_aborted t'"
  obtains r ident agt nodeID s1 where
    "findResource T res (tx_db t) = Some r"
    "eng_SignGrant eng (agtFor (newUUID env ''jti'') T ident src epoch dev
       \<lparr>rd_NodeID = uuid_String P (r_protected_node_id r), rd_ServiceID = r_service_id r, rd_Port = r_port r,
        rd_DeploymentMode = r_deployment_mode r, rd_Protocol = ''TCP'', rd_Sensitivity = r_sensitivity r\<rparr>
       scope bnd pv rule az (clock env ''mint'')) = Some (b, agt)"
    "insert_grant G (grantRow agt (newUUID env ''jti'') T R usr src nodeID res b) (tx_db t) = Inr ((), s1)"
    "jti = newUUID env ''jti''" "\<not> tx_aborted t"
    "approval_requests (tx_db t') = approval_requests (markGranted T R s1)" "grants (tx_db t') = grants s1"
    "devices (tx_db t') = devices s1" "sameWorld s1 (tx_db t')"
proof -
  obtain ident where ident: "resolveUserIdentity P env s0 T usr = Inr ident"
    using assms(1) by (cases "resolveUserIdentity P env s0 T usr") (auto simp: mintGrant_def Let_def)
  obtain r where r: "findResource T res (tx_db t) = Some r" and ab: "\<not> tx_aborted t"
    using assms(1) ident by (auto simp: mintGrant_def getResourceDetails_def Let_def)
  let ?rd = "\<lparr>rd_NodeID = uuid_String P (r_protected_node_id r), rd_ServiceID = r_service_id r, rd_Port = r_port r,
        rd_DeploymentMode = r_deployment_mode r, rd_Protocol = ''TCP'', rd_Sensitivity = r_sensitivity r\<rparr>"
  let ?jti = "newUUID env ''jti''"
  let ?agt0 = "agtFor ?jti T ident src epoch dev ?rd scope bnd pv rule az (clock env ''mint'')"
  obtain ab0 agt where sg: "eng_SignGrant eng ?agt0 = Some (ab0, agt)"
    using assms(1) ident r by (cases "eng_SignGrant eng ?agt0") (auto simp: mintGrant_def getResourceDetails_def Let_def)
  obtain nodeID where nd: "uuid_Parse P (res_ProtectedNodeID (agt_Resource agt)) = Some nodeID"
    using assms(1) ident r sg
    by (cases "uuid_Parse P (res_ProtectedNodeID (agt_Resource agt))") (auto simp: mintGrant_def getResourceDetails_def Let_def)
  let ?ev = "grantEvent eng env T R usr scope agt" and ?msg = "grantMessage env T agt ab0"
  obtain s1 where ins: "insert_grant G (grantRow agt ?jti T R usr src nodeID res ab0) (tx_db t) = Inr ((), s1)"
    and rest: "ignoring (InsertTx P G (eng_json eng) env ''audit grant'' ?ev)
       (ignoring (WriteTx G env ''deliver grant'' ?msg) (Pair (Inr (?jti, ab0)))) (t\<lparr>tx_db := markGranted T R s1\<rparr>)
         = (Inr (jti, b) :: enf_error + _, t')"
    using assms(1) ident r sg nd by (auto simp: mintGrant_def getResourceDetails_def Let_def)
  note w = notice_sound [OF rest assms(2)]
  have e: "jti = ?jti" "b = ab0" using w(1) by simp_all
  have w1: "sameWorld s1 (markGranted T R s1)" "grants (markGranted T R s1) = grants s1"
    "devices (markGranted T R s1) = devices s1"
    by (simp_all add: markGranted_def sameWorld_def)
  show thesis
    using that [OF r _ _ e(1) ab] sg ins e(2) w(2-5) w1
    by (simp add: sameWorld_def)
qed


section \<open>What a committed decision is\<close>

lemma processBody_Inr:
  assumes "processBody P G eng env s0 i (beginTx s) = (Inr x, t')"
  obtains (decided_before) q where "findRequest (pa_TenantID i) (pa_RequestID i) s = Some q"
      "q_state q \<noteq> ApprovalStatePending"
      "x = Rollback \<lparr>res_NewState = q_state q, res_GrantJTI = None, res_AGTBytes = []\<rparr>"
  | (decides) q d bnd where "findRequest (pa_TenantID i) (pa_RequestID i) s = Some q" "q_state q = ApprovalStatePending"
      "findDevice (pa_TenantID i) (pa_DeviceID i) s = Some d"
      "VerifyApprovalResponse P (pa_SignedResponse i) (verificationKey i d) = Inr ()"
      "dv_counter d < ar_DeviceCounter (pa_SignedResponse i)"
      "decideBody P G eng env s0 i q (sourceKeyEpoch s q) bnd (authzEpochOf (pa_TenantID i) s) (beginTx s) = (Inr x, t')"
proof -
  obtain q where q: "findRequest (pa_TenantID i) (pa_RequestID i) s = Some q"
    using assms by (auto simp: processBody_def)
  show thesis
  proof (cases "q_state q = ApprovalStatePending")
    case False
    then show ?thesis using assms q by (intro decided_before [of q]) (auto simp: processBody_def)
  next
    case True
    let ?dec = "if q_binding q \<noteq> []
            then DecodeCanonical (decModeOK (ec_cose (eng_codec eng))) (unmarshal_Binding (eng_codec eng)) (q_binding q)
            else Inr emptyBinding"
    obtain bnd where bnd: "?dec = Inr bnd"
      using assms q True by (cases "?dec") (auto simp: processBody_def)
    obtain y t1 where ep: "query env ''authz epoch'' (\<lambda>s. Some (authzEpochOf (pa_TenantID i) s)) (beginTx s) = (y, t1)"
      by fastforce
    have ep': "(\<exists>e. y = Inl e) \<and> tx_aborted t1 \<or> y = Inr (authzEpochOf (pa_TenantID i) s) \<and> t1 = beginTx s"
      using ep by (auto simp: query_def split: if_splits)
    obtain d where d: "findDevice (pa_TenantID i) (pa_DeviceID i) (tx_db t1) = Some d" "\<not> tx_aborted t1"
      using assms q True bnd ep by (auto simp: processBody_def Let_def)
    with ep' have t1: "y = Inr (authzEpochOf (pa_TenantID i) s)" "t1 = beginTx s" by blast+
    let ?v = "VerifyApprovalResponse P (pa_SignedResponse i) (verificationKey i d)"
    have v: "?v = Inr ()"
      using assms q True bnd ep d t1 by (cases ?v) (auto simp: processBody_def Let_def)
    show ?thesis
      using assms q True bnd ep d t1 v
      by (intro decides [of q d bnd]) (auto simp: processBody_def Let_def split: if_splits)
  qed
qed

definition counterAdvanced :: "ProcessApprovalInput \<Rightarrow> db \<Rightarrow> db" where
  "counterAdvanced i s =
     snd (advance_device_counter (pa_TenantID i) (pa_DeviceID i) (ar_DeviceCounter (pa_SignedResponse i)) s)"

lemma counterAdvanced_frame [simp]:
  "approval_requests (counterAdvanced i s) = approval_requests s" "grants (counterAdvanced i s) = grants s"
  "resources (counterAdvanced i s) = resources s" "sameWorld s (counterAdvanced i s)"
  by (simp_all add: counterAdvanced_def advance_device_counter_def sameWorld_def Let_def)

lemma recordResponse_frame [simp]:
  "grants (recordResponse i s) = grants s" "devices (recordResponse i s) = devices s"
  "resources (recordResponse i s) = resources s" "sameWorld s (recordResponse i s)"
  by (simp_all add: recordResponse_def sameWorld_def)

lemma sticky_mintGrant [sticky_intros]:
  "sticky (mintGrant P G eng env s0 T R usr src dev res scope pv rule bnd epoch az)"
  unfolding mintGrant_def getResourceDetails_def Let_def
  by (intro sticky_intros)

text \<open>The database between the counter update and the mint or the final audit event.\<close>

lemma decideBody_Inr:
  assumes "decideBody P G eng env s0 i q epoch bnd az (beginTx s) = (Inr x, t')" and "\<not> tx_aborted t'"
  obtains s1 t2 n result where
    "transition_approval_request (pgNow env) (pa_TenantID i) (pa_RequestID i) (decidedState i) (q_state_version q) s
       = Inr (True, s1)"
    "if pa_Decision i = DecisionApprove
     then \<exists>jti b. mintGrant P G eng env s0 (pa_TenantID i) (pa_RequestID i) (q_user q) (q_src_node_id q) (pa_DeviceID i)
            (q_resource q) (q_scope q) (q_policy_version q) (q_rule_id q) bnd epoch az
            \<lparr>tx_db = counterAdvanced i (recordResponse i s1), tx_aborted = False\<rparr> = (Inr (jti, b), t2) \<and>
            result = \<lparr>res_NewState = ApprovalStateGranted, res_GrantJTI = Some jti, res_AGTBytes = b\<rparr>
     else t2 = \<lparr>tx_db = counterAdvanced i (recordResponse i s1), tx_aborted = False\<rparr> \<and>
          result = \<lparr>res_NewState = ApprovalStateDenied, res_GrantJTI = None, res_AGTBytes = []\<rparr>"
    "InsertTx P G (eng_json eng) env ''audit decision'' (decisionEvent eng env i (q_user q)) t2 = (Inr n, t')"
    "x = Commit result"
proof -
  let ?T = "pa_TenantID i" and ?R = "pa_RequestID i"
  let ?fin = "\<lambda>result. ignoring (InsertTx P G (eng_json eng) env ''audit decision'' (decisionEvent eng env i (q_user q)))
        (Pair (Inr (Commit result) :: enf_error + _))"
  let ?mint = "mintGrant P G eng env s0 ?T ?R (q_user q) (q_src_node_id q) (pa_DeviceID i)
            (q_resource q) (q_scope q) (q_policy_version q) (q_rule_id q) bnd epoch az"
  let ?k = "if pa_Decision i = DecisionApprove then
          step ?mint MintGrant (\<lambda>(jti, agtBytes).
            ?fin \<lparr>res_NewState = ApprovalStateGranted, res_GrantJTI = Some jti, res_AGTBytes = agtBytes\<rparr>)
        else ?fin \<lparr>res_NewState = decidedState i, res_GrantJTI = None, res_AGTBytes = []\<rparr>"
  have sk: "sticky ?k" by (intro sticky_intros)
  have fh: "failsHard (advanceDeviceCounter env ?T (pa_DeviceID i) (ar_DeviceCounter (pa_SignedResponse i)))"
    by (simp add: advanceDeviceCounter_def failsHard_exec)
  obtain s1 where tr: "transition_approval_request (pgNow env) ?T ?R (decidedState i) (q_state_version q) s = Inr (True, s1)"
    and rest: "ignoring (advanceDeviceCounter env ?T (pa_DeviceID i) (ar_DeviceCounter (pa_SignedResponse i))) ?k
        ((beginTx s)\<lparr>tx_db := recordResponse i s1\<rparr>) = (Inr x, t')"
    using assms(1) unfolding decideBody_def
    by (auto simp: transition_approval_request_def)
  obtain b t1 where c: "advanceDeviceCounter env ?T (pa_DeviceID i) (ar_DeviceCounter (pa_SignedResponse i))
        ((beginTx s)\<lparr>tx_db := recordResponse i s1\<rparr>) = (Inr b, t1)" and k: "?k t1 = (Inr x, t')"
    by (rule ignoring_sound [OF rest assms(2) sk fh]) (rule that)
  have t1: "t1 = \<lparr>tx_db = counterAdvanced i (recordResponse i s1), tx_aborted = False\<rparr>"
    using c by (auto simp: advanceDeviceCounter_def counterAdvanced_def beginTx_def)
  show thesis
  proof (cases "pa_Decision i = DecisionApprove")
    case True
    obtain jti a t2 where m: "?mint t1 = (Inr (jti, a), t2)"
      and f: "?fin \<lparr>res_NewState = ApprovalStateGranted, res_GrantJTI = Some jti, res_AGTBytes = a\<rparr> t2 = (Inr x, t')"
      using k True by auto
    obtain n where "InsertTx P G (eng_json eng) env ''audit decision'' (decisionEvent eng env i (q_user q)) t2 = (Inr n, t')"
      and "x = Commit \<lparr>res_NewState = ApprovalStateGranted, res_GrantJTI = Some jti, res_AGTBytes = a\<rparr>"
      by (rule ignoring_sound [OF f assms(2)]) (intro sticky_intros, intro failsHard_intros, simp)
    with tr m t1 True show ?thesis using that [OF tr] by auto
  next
    case False
    then have f: "?fin \<lparr>res_NewState = ApprovalStateDenied, res_GrantJTI = None, res_AGTBytes = []\<rparr> t1 = (Inr x, t')"
      using k by (simp add: decidedState_def)
    obtain n where "InsertTx P G (eng_json eng) env ''audit decision'' (decisionEvent eng env i (q_user q)) t1 = (Inr n, t')"
      and "x = Commit \<lparr>res_NewState = ApprovalStateDenied, res_GrantJTI = None, res_AGTBytes = []\<rparr>"
      by (rule ignoring_sound [OF f assms(2)]) (intro sticky_intros, intro failsHard_intros, simp)
    with tr t1 False show ?thesis using that [OF tr] by auto
  qed
qed

text \<open>
  What the grant of an approval is: a row for the request, unconsumed and within its cap, whose token
  is the signature over a payload that names the request's tenant, source, scope and policy version,
  the approving device, the tenant's current authorization epoch, and lives for \<open>MaxGrantTTL\<close>.
\<close>

definition issuedFor :: "engine \<Rightarrow> ProcessApprovalInput \<Rightarrow> db \<Rightarrow> request_row \<Rightarrow> grant_row \<Rightarrow> bool" where
  "issuedFor eng i s q g \<longleftrightarrow>
     g_tenant g = pa_TenantID i \<and> g_request g = pa_RequestID i \<and> g_user g = q_user q \<and>
     g_resource g = q_resource q \<and> g_src_node_id g = q_src_node_id q \<and> g_consumed_at g = None \<and> withinCap s g \<and>
     (\<exists>p p' r. eng_SignGrant eng p = Some (g_agt_bytes g, p') \<and> g_scope g = agt_Scope p' \<and>
        agt_JTI p = g_jti g \<and> agt_TenantID p = pa_TenantID i \<and> agt_SrcNodeID p = q_src_node_id q \<and>
        agt_ApproverDeviceID p = pa_DeviceID i \<and> agt_Scope p = q_scope q \<and>
        agt_PolicyVersion p = q_policy_version q \<and> agt_AuthzEpoch p = authzEpochOf (pa_TenantID i) s \<and>
        findResource (pa_TenantID i) (q_resource q) s = Some r \<and>
        agt_ExpiresAt p - agt_IssuedAt p = MaxGrantTTL (q_scope q) (r_sensitivity r) \<and>
        agt_NotBefore p = agt_IssuedAt p \<and> agt_DeviceSecurityLevel p = SecurityLevelStrongBox \<and>
        g_iat g = agt_IssuedAt p' \<and> g_nbf g = agt_NotBefore p' \<and> g_expires_at g = agt_ExpiresAt p' \<and>
        g_policy_version g = agt_PolicyVersion p')"

definition grantAdded :: "engine \<Rightarrow> ProcessApprovalInput \<Rightarrow> db \<Rightarrow> request_row \<Rightarrow> db \<Rightarrow> bool" where
  "grantAdded eng i s q s' \<longleftrightarrow>
     (if hasGrant (pa_TenantID i) (pa_RequestID i) s then grants s' = grants s
      else \<exists>g. grants s' = grants s @ [g] \<and> issuedFor eng i s q g \<and>
             \<not> list_ex (isGrant (g_tenant g) (g_jti g)) (grants s))"

lemma withinCap_binding [simp]: "withinCap s (g\<lparr>g_binding := b\<rparr>) = withinCap s g"
  by (simp add: withinCap_def)

lemma grantRow_sel [simp]:
  "g_tenant (grantRow agt jti T R usr src nodeID res b) = T" "g_request (grantRow agt jti T R usr src nodeID res b) = R"
  "g_user (grantRow agt jti T R usr src nodeID res b) = usr" "g_jti (grantRow agt jti T R usr src nodeID res b) = jti"
  "g_resource (grantRow agt jti T R usr src nodeID res b) = res" "g_scope (grantRow agt jti T R usr src nodeID res b) = agt_Scope agt"
  "g_src_node_id (grantRow agt jti T R usr src nodeID res b) = src" "g_binding (grantRow agt jti T R usr src nodeID res b) = []"
  "g_consumed_at (grantRow agt jti T R usr src nodeID res b) = None" "g_agt_bytes (grantRow agt jti T R usr src nodeID res b) = b"
  "g_iat (grantRow agt jti T R usr src nodeID res b) = agt_IssuedAt agt" "g_nbf (grantRow agt jti T R usr src nodeID res b) = agt_NotBefore agt"
  "g_expires_at (grantRow agt jti T R usr src nodeID res b) = agt_ExpiresAt agt"
  "g_policy_version (grantRow agt jti T R usr src nodeID res b) = agt_PolicyVersion agt"
  by (simp_all add: grantRow_def)

lemma agtFor_sel [simp]:
  "agt_JTI (agtFor jti T ident src ep dev rd sc bnd pv rule az nw) = jti"
  "agt_TenantID (agtFor jti T ident src ep dev rd sc bnd pv rule az nw) = T"
  "agt_SrcNodeID (agtFor jti T ident src ep dev rd sc bnd pv rule az nw) = src"
  "agt_ApproverDeviceID (agtFor jti T ident src ep dev rd sc bnd pv rule az nw) = dev"
  "agt_Scope (agtFor jti T ident src ep dev rd sc bnd pv rule az nw) = sc"
  "agt_PolicyVersion (agtFor jti T ident src ep dev rd sc bnd pv rule az nw) = pv"
  "agt_AuthzEpoch (agtFor jti T ident src ep dev rd sc bnd pv rule az nw) = az"
  "agt_IssuedAt (agtFor jti T ident src ep dev rd sc bnd pv rule az nw) = nw"
  "agt_NotBefore (agtFor jti T ident src ep dev rd sc bnd pv rule az nw) = nw"
  "agt_ExpiresAt (agtFor jti T ident src ep dev rd sc bnd pv rule az nw) = nw + MaxGrantTTL sc (rd_Sensitivity rd)"
  "agt_DeviceSecurityLevel (agtFor jti T ident src ep dev rd sc bnd pv rule az nw) = SecurityLevelStrongBox"
  by (simp_all add: agtFor_def)

lemma mintGrant_added:
  assumes m: "mintGrant P G eng env s0 (pa_TenantID i) (pa_RequestID i) (q_user q) (q_src_node_id q) (pa_DeviceID i)
            (q_resource q) (q_scope q) (q_policy_version q) (q_rule_id q) bnd epoch (authzEpochOf (pa_TenantID i) s) t
            = (Inr (jti, b), t')"
    and sound: "\<not> tx_aborted t'"
    and before: "grants (tx_db t) = grants s" "resources (tx_db t) = resources s"
  shows "grantAdded eng i s q (tx_db t') \<and> devices (tx_db t') = devices (tx_db t) \<and> sameWorld (tx_db t) (tx_db t') \<and>
         jsonb_in G [] \<noteq> None \<and>
         approval_requests (tx_db t') = approval_requests (markGranted (pa_TenantID i) (pa_RequestID i) (tx_db t))"
proof -
  let ?T = "pa_TenantID i" and ?R = "pa_RequestID i"
  from m sound show ?thesis
  proof (cases rule: mintGrant_Inr)
    case (1 r ident agt nodeID s1)
    let ?g = "grantRow agt (newUUID env ''jti'') ?T ?R (q_user q) (q_src_node_id q) nodeID (q_resource q) b"
    have g: "g_tenant ?g = ?T" "g_request ?g = ?R" "g_binding ?g = []" by (simp_all add: grantRow_def)
    have hg: "hasGrant ?T ?R (tx_db t) = hasGrant ?T ?R s" by (simp add: hasGrant_def before)
    have fr: "findResource ?T (q_resource q) s = Some r" using 1(1) before(2) by (simp add: findResource_def)
    from 1(3) show ?thesis
    proof (cases rule: insert_grant_Inr)
      case conflict
      then show ?thesis using 1 g hg before(1) by (simp add: grantAdded_def)
    next
      case (inserted bb)
      have "issuedFor eng i s q (?g\<lparr>g_binding := bb\<rparr>)"
        unfolding issuedFor_def withinCap_binding
        using 1(2) fr inserted(4) withinCap_cong [OF before(2), of ?g]
        by (intro conjI exI [of _ r] exI [of _ agt] exI) (assumption | simp)+
      moreover have "approval_requests (markGranted ?T ?R s1) = approval_requests (markGranted ?T ?R (tx_db t))"
        "devices s1 = devices (tx_db t)" "sameWorld (tx_db t) s1"
        by (simp_all add: inserted(3) markGranted_def sameWorld_def)
      moreover have "grants (tx_db t') = grants s @ [?g\<lparr>g_binding := bb\<rparr>]" using 1 inserted(3) before(1) by simp
      moreover have "\<not> list_ex (isGrant (g_tenant (?g\<lparr>g_binding := bb\<rparr>)) (g_jti (?g\<lparr>g_binding := bb\<rparr>))) (grants s)"
        using inserted(5) before(1) by simp
      ultimately show ?thesis
        using 1 g hg inserted sameWorld_trans unfolding grantAdded_def by auto
    qed
  qed
qed

definition finalState :: "ProcessApprovalInput \<Rightarrow> ApprovalState" where
  "finalState i = (if pa_Decision i = DecisionApprove then ApprovalStateGranted else ApprovalStateDenied)"

text \<open>Everything a decision that reached the database rests on and changes.\<close>

definition decisionCommitted ::
  "prims \<Rightarrow> pg \<Rightarrow> engine \<Rightarrow> svc_env \<Rightarrow> ProcessApprovalInput \<Rightarrow> db \<Rightarrow> request_row \<Rightarrow> device_row \<Rightarrow> db \<Rightarrow> bool" where
  "decisionCommitted P G eng env i s q d s' \<longleftrightarrow>
     findRequest (pa_TenantID i) (pa_RequestID i) s = Some q \<and> q_state q = ApprovalStatePending \<and>
     findDevice (pa_TenantID i) (pa_DeviceID i) s = Some d \<and>
     VerifyApprovalResponse P (pa_SignedResponse i) (verificationKey i d) = Inr () \<and>
     dv_counter d < ar_DeviceCounter (pa_SignedResponse i) \<and>
     requestMoves (pa_TenantID i) (pa_RequestID i) (finalState i) s s' \<and>
     devices s' = devices (counterAdvanced i s) \<and> sameWorld s s' \<and>
     (if pa_Decision i = DecisionApprove then grantAdded eng i s q s' \<and> jsonb_in G [] \<noteq> None else grants s' = grants s) \<and>
     (\<exists>pre n h. audit_events s' = pre @ [goRow P G (eng_json eng) (pgNow env) (decisionEvent eng env i (q_user q)) n h])"

lemma decideBody_committed:
  assumes body: "decideBody P G eng env s0 i q epoch bnd (authzEpochOf (pa_TenantID i) s) (beginTx s) = (Inr x, t')"
    and sound: "\<not> tx_aborted t'"
    and pre: "findRequest (pa_TenantID i) (pa_RequestID i) s = Some q" "q_state q = ApprovalStatePending"
      "findDevice (pa_TenantID i) (pa_DeviceID i) s = Some d"
      "VerifyApprovalResponse P (pa_SignedResponse i) (verificationKey i d) = Inr ()"
      "dv_counter d < ar_DeviceCounter (pa_SignedResponse i)"
  shows "decisionCommitted P G eng env i s q d (tx_db t')"
  using body sound
proof (cases rule: decideBody_Inr)
  case (1 s1 t2 n result)
  let ?T = "pa_TenantID i" and ?R = "pa_RequestID i"
  let ?s2 = "counterAdvanced i (recordResponse i s1)"
  have aud: "t2 = t2" "\<not> tx_aborted t2" using InsertTx_Inr(2) [OF 1(3)] by simp_all
  note fr = InsertTx_world [OF 1(3)]
  obtain rs where s1: "s1 = s\<lparr>approval_requests := rs\<rparr>" and mv: "requestMoves ?T ?R (decidedState i) s s1"
    using 1(1) by (rule transition_Inr)
  have mv2: "requestMoves ?T ?R (decidedState i) s ?s2"
    using recordResponse_moves [OF mv] by (simp add: requestMoves_def)
  have w2: "sameWorld s ?s2" "grants ?s2 = grants s" "resources ?s2 = resources s" "devices ?s2 = devices (counterAdvanced i s)"
    by (simp_all add: s1 sameWorld_def counterAdvanced_def recordResponse_def advance_device_counter_def Let_def)
  have "requestMoves ?T ?R (finalState i) s (tx_db t2) \<and> devices (tx_db t2) = devices (counterAdvanced i s) \<and>
      sameWorld s (tx_db t2) \<and>
      (if pa_Decision i = DecisionApprove then grantAdded eng i s q (tx_db t2) \<and> jsonb_in G [] \<noteq> None
       else grants (tx_db t2) = grants s)"
  proof (cases "pa_Decision i = DecisionApprove")
    case True
    then obtain jti b where m: "mintGrant P G eng env s0 ?T ?R (q_user q) (q_src_node_id q) (pa_DeviceID i)
            (q_resource q) (q_scope q) (q_policy_version q) (q_rule_id q) bnd epoch (authzEpochOf ?T s)
            \<lparr>tx_db = ?s2, tx_aborted = False\<rparr> = (Inr (jti, b), t2)"
      using 1(2) by auto
    have "requestMoves ?T ?R ApprovalStateGranted s (markGranted ?T ?R ?s2)"
      using mv2 True by (intro markGranted_moves) (simp add: decidedState_def)
    then show ?thesis
      using mintGrant_added [OF m aud(2)] w2 True sameWorld_trans
      by (auto simp: finalState_def requestMoves_def)
  next
    case False
    then show ?thesis using 1(2) mv2 w2 by (simp add: finalState_def decidedState_def)
  qed
  then show ?thesis
    using pre fr InsertTx_Inr(4) [OF 1(3)] sameWorld_trans [of s "tx_db t2" "tx_db t'"]
    unfolding decisionCommitted_def grantAdded_def
    by (auto simp: requestMoves_def)
qed

lemma ProcessApproval_cases:
  assumes "ProcessApproval P G eng env i s = (r, s')"
  obtains (unchanged) "s' = s" | (committed) q d where "decisionCommitted P G eng env i s q d s'"
  using assms [unfolded ProcessApproval_def]
proof (cases rule: runTx_cases)
  case c: (committed x t)
  from c(1) show ?thesis
  proof (cases rule: processBody_Inr)
    case (decides q d bnd)
    from decideBody_committed [OF decides(6) c(2) decides(1-5)] c(3) show ?thesis using committed by blast
  qed simp
qed (use unchanged in blast)

end
