(* ===== verification/ApprovalFlow.thy ===== *)
theory ApprovalFlow
  imports Enforcement
begin

text \<open>
  The approval engine over time: a step is one call of one handler of
  \<open>service/internal/enforcement/engine.go\<close>, with any input, any clock and random values, any
  statement faults and any outcome of its commit. The theorems follow requests, grants and device
  counters through every sequence of such calls.
\<close>

section \<open>What each handler does to the database\<close>

text \<open>Creating a request fails before its transaction, or runs it with a pending row for the input.\<close>

lemma CreateApprovalRequest_run:
  assumes "CreateApprovalRequest P G eng env i s = (r, s')"
  obtains row body where "s' = s \<or> runTx env EnfBegin EnfCommit (createBody P G eng env i row body) s = (r, s')"
    "q_state row = ApprovalStatePending" "q_tenant row = cr_TenantID i" "q_device row = Some (cr_DeviceID i)"
    "q_user row = cr_UserID i"
proof (cases "NewNonce (osRand env) 32")
  case (Inl e)
  with assms show thesis using that [of "newRequestRow P env i 0 [] [] [] []"]
    by (simp add: CreateApprovalRequest_def newRequestRow_def)
next
  case (Inr c)
  let ?sig = "eng_SignRequest eng (requestPayload P i (newUUID env ''request'') c
      (getResourceLabel env s (cr_TenantID i) (cr_ResourceID i)))"
  show thesis
  proof (cases ?sig)
    case None
    with assms Inr show thesis using that [of "newRequestRow P env i 0 [] [] [] []"]
      by (simp add: CreateApprovalRequest_def newRequestRow_def)
  next
    case (Some bp)
    with assms Inr show thesis
      by (intro that [of "newRequestRow P env i (newUUID env ''request'') c (fst bp)
                (fst (generateCapabilities P env)) (snd (generateCapabilities P env))"
              "(snd bp, generateCapabilities P env)"])
         (simp_all add: CreateApprovalRequest_def newRequestRow_def generateCapabilities_def split: prod.splits)
  qed
qed

lemma CreateApprovalRequest_cases:
  assumes "CreateApprovalRequest P G eng env i s = (r, s')"
  obtains (unchanged) "s' = s"
  | (created) row where "approval_requests s' = approval_requests s @ [row]" "q_state row = ApprovalStatePending"
      "q_tenant row = cr_TenantID i" "q_device row = Some (cr_DeviceID i)" "q_user row = cr_UserID i"
      "\<not> list_ex (\<lambda>x. q_id x = q_id row) (approval_requests s)"
      "grants s' = grants s" "devices s' = devices s" "sameWorld s s'"
proof -
  obtain row body where run: "s' = s \<or> runTx env EnfBegin EnfCommit (createBody P G eng env i row body) s = (r, s')"
    and row: "q_state row = ApprovalStatePending" "q_tenant row = cr_TenantID i" "q_device row = Some (cr_DeviceID i)"
      "q_user row = cr_UserID i"
    using assms by (rule CreateApprovalRequest_run)
  from run show thesis
  proof
    assume "runTx env EnfBegin EnfCommit (createBody P G eng env i row body) s = (r, s')"
    then show thesis
    proof (cases rule: runTx_cases)
      case (committed x t)
      obtain b where ins: "insert_approval_request G (bindingBytes eng (cr_Binding i)) row s = Inr ((), s\<lparr>approval_requests := approval_requests s @ [row\<lparr>q_binding := b\<rparr>]\<rparr>)"
        and fresh: "\<not> list_ex (\<lambda>x. q_id x = q_id row) (approval_requests s)"
        using committed(1) by (auto simp: createBody_def insert_approval_request_def)
      obtain t0 where t0: "tx_db t0 = s\<lparr>approval_requests := approval_requests s @ [row\<lparr>q_binding := b\<rparr>]\<rparr>"
        and k: "ignoring (InsertTx P G (eng_json eng) env ''audit request'' (requestEvent eng env i (q_id row)))
           (ignoring (WriteTx G env ''notify device'' (requestMessage P env i (q_envelope row)))
             (Pair (Inr (Commit body)))) t0 = (Inr (Commit x) :: enf_error + _, t)"
        using committed(1) ins
        by (intro that [of "(beginTx s)\<lparr>tx_db := s\<lparr>approval_requests := approval_requests s @ [row\<lparr>q_binding := b\<rparr>]\<rparr>\<rparr>"])
           (auto simp: createBody_def)
      note n = notice_sound [OF k committed(2)]
      show thesis
        using n(2-5) t0 committed(3) row fresh
        by (intro created [of "row\<lparr>q_binding := b\<rparr>"]) (simp_all add: sameWorld_def)
    qed (use unchanged in blast)
  qed (use unchanged in blast)
qed

lemma CancelApprovalRequest_cases:
  assumes "CancelApprovalRequest P G eng env T R N why s = (r, s')"
  obtains (unchanged) "s' = s"
  | (cancelled) q where "findRequest T R s = Some q" "q_state q = ApprovalStatePending"
      "requestMoves T R ApprovalStateCancelled s s'" "grants s' = grants s" "devices s' = devices s" "sameWorld s s'"
      "\<not> nil_is_null G"
  using assms [unfolded CancelApprovalRequest_def]
proof (cases rule: runTx_cases)
  case (committed x t)
  obtain q b s1 where q: "findRequest T R s = Some q" "q_state q = ApprovalStatePending"
    and tr: "transition_approval_request (pgNow env) T R ApprovalStateCancelled (q_state_version q) s = Inr (b, s1)"
    and k: "ignoring (InsertTx P G (eng_json eng) env ''audit cancel'' (cancelEvent eng env T R why))
       (ignoring (WriteTx G env ''cancel device'' (cancelMessage env T)) (Pair (Inr (Commit ())))) ((beginTx s)\<lparr>tx_db := s1\<rparr>)
         = (Inr (Commit x) :: enf_error + _, t)"
    using committed(1) by (auto simp: cancelBody_def split: if_splits)
  note n = notice_sound [OF k committed(2)]
  obtain rs where "s1 = s\<lparr>approval_requests := rs\<rparr>" "requestMoves T R ApprovalStateCancelled s s1"
    using tr by (rule transition_Inr)
  moreover have "\<not> nil_is_null G" using n(6) by (simp add: cancelMessage_def sqlBytes_def split: if_splits)
  ultimately show ?thesis
    using q n(2-5) committed(3)
    by (intro cancelled [of q]) (simp_all add: sameWorld_def requestMoves_def)
qed (use unchanged in blast)

lemma ConsumeGrant_cases:
  assumes "ConsumeGrant env T J s = (r, s')"
  obtains (unchanged) "s' = s" "\<exists>e. r = Inl (ConsumeGrantError e)"
  | (refused) "s' = s" "r = Inr False"
      "\<not> (\<exists>g. find (isGrant T J) (grants s) = Some g \<and> g_consumed_at g = None \<and> clock env ''consume'' \<le> g_expires_at g)"
  | (consumed) g where "find (isGrant T J) (grants s) = Some g" "g_consumed_at g = None"
      "clock env ''consume'' \<le> g_expires_at g" "r = Inl NilTransactionPanic \<or> r = Inl (ConsumeGrantError ConnectionFault)"
      "s' = s\<lparr>grants := updateWhere (\<lambda>h. isGrant T J h \<and> g_consumed_at h = None)
               (\<lambda>h. h\<lparr>g_consumed_at := Some (clock env ''consume'')\<rparr>) (grants s)\<rparr>"
proof -
  let ?consume = "\<lambda>s. Inr (consume_grant T J (clock env ''consume'') s)"
  obtain r1 where a: "autocommit env ''consume grant'' ?consume s = (r1, s')"
    and r: "r = attempt r1 ConsumeGrantError (\<lambda>consumed. reject consumed NilTransactionPanic (Inr consumed))"
    using assms by (auto simp: ConsumeGrant_def split: prod.splits)
  show ?thesis
  proof (cases "\<exists>g. find (isGrant T J) (grants s) = Some g \<and> g_consumed_at g = None \<and> clock env ''consume'' \<le> g_expires_at g")
    case True
    then obtain g where g: "find (isGrant T J) (grants s) = Some g" "g_consumed_at g = None" "clock env ''consume'' \<le> g_expires_at g"
      by blast
    then have "list_ex (\<lambda>h. isGrant T J h \<and> g_consumed_at h = None) (grants s)"
      by (auto simp: list_ex_iff dest: find_Some_set)
    with g have "consume_grant T J (clock env ''consume'') s = (True, s\<lparr>grants := updateWhere
        (\<lambda>h. isGrant T J h \<and> g_consumed_at h = None) (\<lambda>h. h\<lparr>g_consumed_at := Some (clock env ''consume'')\<rparr>) (grants s)\<rparr>)"
      by (simp add: consume_grant_def)
    with a r show ?thesis
      by (cases rule: autocommit_cases) (use unchanged consumed [OF g] in auto)
  next
    case no: False
    then have "consume_grant T J (clock env ''consume'') s = (False, s)"
      by (auto simp: consume_grant_def split: option.splits)
    with a r show ?thesis
      by (cases rule: autocommit_cases) (use unchanged refused [OF _ _ no] in auto)
  qed
qed


section \<open>Runs\<close>

inductive engine_step :: "prims \<Rightarrow> pg \<Rightarrow> engine \<Rightarrow> db \<Rightarrow> db \<Rightarrow> bool" for P G eng where
  create: "CreateApprovalRequest P G eng env i s = (r, s') \<Longrightarrow> engine_step P G eng s s'"
| process: "ProcessApproval P G eng env j s = (ra, s') \<Longrightarrow> engine_step P G eng s s'"
| cancel: "CancelApprovalRequest P G eng env T R N why s = (rc, s') \<Longrightarrow> engine_step P G eng s s'"
| consume: "ConsumeGrant env T J s = (rb, s') \<Longrightarrow> engine_step P G eng s s'"

abbreviation engine_run :: "prims \<Rightarrow> pg \<Rightarrow> engine \<Rightarrow> db \<Rightarrow> db \<Rightarrow> bool" where
  "engine_run P G eng \<equiv> (engine_step P G eng)\<^sup>*\<^sup>*"

text \<open>
  The ways a step changes the database: a pending request is appended; a pending request moves to
  its final state, with the grant an approval adds and the counter of the device; a grant is
  consumed; nothing at all.
\<close>

lemma engine_step_cases:
  assumes "engine_step P G eng s s'"
  obtains (unchanged) "s' = s"
  | (created) row where "approval_requests s' = approval_requests s @ [row]" "q_state row = ApprovalStatePending"
      "\<not> list_ex (\<lambda>x. q_id x = q_id row) (approval_requests s)"
      "grants s' = grants s" "devices s' = devices s" "sameWorld s s'"
  | (decided) env i q d where "decisionCommitted P G eng env i s q d s'"
  | (cancelled) T R q where "findRequest T R s = Some q" "q_state q = ApprovalStatePending"
      "requestMoves T R ApprovalStateCancelled s s'" "grants s' = grants s" "devices s' = devices s" "sameWorld s s'"
  | (consumed) T J n where
      "s' = s\<lparr>grants := updateWhere (\<lambda>h. isGrant T J h \<and> g_consumed_at h = None)
               (\<lambda>h. h\<lparr>g_consumed_at := Some n\<rparr>) (grants s)\<rparr>"
  using assms
proof cases
  case (create env i r)
  then show ?thesis by (cases rule: CreateApprovalRequest_cases) (use unchanged created in blast)+
next
  case (process env j ra)
  then show ?thesis by (cases rule: ProcessApproval_cases) (use unchanged decided in blast)+
next
  case (cancel env T R N why rc)
  then show ?thesis by (cases rule: CancelApprovalRequest_cases) (use unchanged cancelled in blast)+
next
  case (consume env T J rb)
  then show ?thesis by (cases rule: ConsumeGrant_cases) (use unchanged consumed in blast)+
qed


section \<open>Decided requests\<close>

lemma decisionCommitted_findRequest:
  assumes "decisionCommitted P G eng env i s q d s'"
  shows "\<exists>q'. findRequest (pa_TenantID i) (pa_RequestID i) s' = Some q' \<and> q_state q' = finalState i"
    and "T \<noteq> pa_TenantID i \<or> R \<noteq> pa_RequestID i \<Longrightarrow> findRequest T R s' = findRequest T R s"
  using assms requestMoves_find [of "pa_TenantID i" "pa_RequestID i" "finalState i" s s']
  by (auto simp: decisionCommitted_def)

lemma engine_step_decided:
  assumes "engine_step P G eng s s'" "findRequest T R s = Some q" "q_state q \<noteq> ApprovalStatePending"
  shows "findRequest T R s' = Some q"
  using assms(1)
proof (cases rule: engine_step_cases)
  case (created row)
  then show ?thesis using assms(2) by (simp add: findRequest_def find_append)
next
  case (decided env i q0 d)
  then have "pa_TenantID i \<noteq> T \<or> pa_RequestID i \<noteq> R" using assms(2,3) by (auto simp: decisionCommitted_def)
  then show ?thesis using decisionCommitted_findRequest(2) [OF decided, of T R] assms(2) by auto
next
  case (cancelled T' R' q0)
  then have "T' \<noteq> T \<or> R' \<noteq> R" using assms(2,3) by auto
  then show ?thesis using requestMoves_find(2) [OF cancelled(3), of T R] assms(2) by auto
next
  case (consumed T' J n)
  then show ?thesis using assms(2) by (simp add: findRequest_def)
qed (use assms(2) in simp)

text \<open>
  C8: A decided request is final: in whatever order further handlers run, with whatever inputs and
  failures, a request that has left the pending state keeps its row unchanged.
\<close>

theorem decided_request_final:
  assumes "engine_run P G eng s s'" and "findRequest T R s = Some q" and "q_state q \<noteq> ApprovalStatePending"
  shows "findRequest T R s' = Some q"
  using assms by (induction) (auto intro: engine_step_decided)


section \<open>Authorization of a decision\<close>

lemma find_device_advance:
  "findDevice T D (counterAdvanced i s) =
     map_option (\<lambda>d. if isDevice (pa_TenantID i) (pa_DeviceID i) d \<and> dv_counter d < ar_DeviceCounter (pa_SignedResponse i)
                     then d\<lparr>dv_counter := ar_DeviceCounter (pa_SignedResponse i)\<rparr> else d) (findDevice T D s)"
proof -
  have "find (isDevice T D) (updateWhere (\<lambda>d. dv_tenant d = pa_TenantID i \<and> dv_id d = pa_DeviceID i \<and>
            dv_counter d < ar_DeviceCounter (pa_SignedResponse i))
          (\<lambda>d. d\<lparr>dv_counter := ar_DeviceCounter (pa_SignedResponse i)\<rparr>) (devices s))
     = map_option (\<lambda>d. if dv_tenant d = pa_TenantID i \<and> dv_id d = pa_DeviceID i \<and>
            dv_counter d < ar_DeviceCounter (pa_SignedResponse i)
          then d\<lparr>dv_counter := ar_DeviceCounter (pa_SignedResponse i)\<rparr> else d) (find (isDevice T D) (devices s))"
    by (rule find_updateWhere) (simp add: isDevice_def)
  then show ?thesis
    by (simp add: findDevice_def counterAdvanced_def advance_device_counter_def Let_def isDevice_def conj_assoc)
qed

lemma findDevice_counterAdvanced:
  assumes "findDevice (pa_TenantID i) (pa_DeviceID i) s = Some d" "dv_counter d < ar_DeviceCounter (pa_SignedResponse i)"
  shows "findDevice (pa_TenantID i) (pa_DeviceID i) (counterAdvanced i s)
      = Some (d\<lparr>dv_counter := ar_DeviceCounter (pa_SignedResponse i)\<rparr>)"
proof -
  have "isDevice (pa_TenantID i) (pa_DeviceID i) d"
    using assms(1) find_Some_set unfolding findDevice_def by fast
  then show ?thesis using assms find_device_advance [of "pa_TenantID i" "pa_DeviceID i" i s] by simp
qed

lemma decisionCommitted_changes:
  assumes "decisionCommitted P G eng env i s q d s'"
  shows "s' \<noteq> s"
  using decisionCommitted_findRequest(1) [OF assms] assms
  by (auto simp: decisionCommitted_def finalState_def split: if_splits)

text \<open>
  C1: A call of \<open>ProcessApproval\<close> that changes the database at all was sent for a pending request, with a
  response that verifies under the enrolled key of the named device that fits the decision
  (\<open>approval_auth\<close> to approve, \<open>device_auth\<close> otherwise) and whose counter is above the device's. It
  moves that request to GRANTED or DENIED, leaves every other request as it was, records the
  decision as the newest audit event, and raises the device's counter to the response's.
\<close>

theorem ProcessApproval_authorized:
  assumes "ProcessApproval P G eng env i s = (r, s')" and "s' \<noteq> s"
  shows "\<exists>q d. findRequest (pa_TenantID i) (pa_RequestID i) s = Some q \<and> q_state q = ApprovalStatePending \<and>
      findDevice (pa_TenantID i) (pa_DeviceID i) s = Some d \<and>
      VerifyApprovalResponse P (pa_SignedResponse i)
        (if pa_Decision i = DecisionApprove then dv_approval_auth_pub d else dv_device_auth_pub d) = Inr () \<and>
      dv_counter d < ar_DeviceCounter (pa_SignedResponse i) \<and>
      (\<exists>q'. findRequest (pa_TenantID i) (pa_RequestID i) s' = Some q' \<and>
         q_state q' = (if pa_Decision i = DecisionApprove then ApprovalStateGranted else ApprovalStateDenied)) \<and>
      (\<forall>T R. (T, R) \<noteq> (pa_TenantID i, pa_RequestID i) \<longrightarrow> findRequest T R s' = findRequest T R s) \<and>
      (\<exists>n h. last (audit_events s') =
         goRow P G (eng_json eng) (pgNow env) (decisionEvent eng env i (q_user q)) n h) \<and>
      (\<exists>d'. findDevice (pa_TenantID i) (pa_DeviceID i) s' = Some d' \<and>
         dv_counter d' = ar_DeviceCounter (pa_SignedResponse i))"
  using assms(1)
proof (cases rule: ProcessApproval_cases)
  case (committed q d)
  note c = committed [unfolded decisionCommitted_def]
  have v: "VerifyApprovalResponse P (pa_SignedResponse i) (verificationKey i d) = Inr ()"
    using c by simp
  have ev: "\<exists>n h. last (audit_events s') = goRow P G (eng_json eng) (pgNow env) (decisionEvent eng env i (q_user q)) n h"
    using c by (metis last_snoc)
  have dv: "\<exists>d'. findDevice (pa_TenantID i) (pa_DeviceID i) s' = Some d' \<and> dv_counter d' = ar_DeviceCounter (pa_SignedResponse i)"
    using c findDevice_counterAdvanced [of i s d] by (simp add: findDevice_def)
  show ?thesis
    using c v ev dv decisionCommitted_findRequest [OF committed]
    by (intro exI [of _ q] exI [of _ d]) (simp add: verificationKey_def finalState_def)
qed (use assms(2) in simp)

text \<open>
  A device enrolled with a key that is not 32 bytes long never decides anything: every response that is
  checked under that key ends in the panic of \<open>ed25519.Verify\<close> and changes nothing.
\<close>

theorem misfit_key_never_decides:
  assumes "findDevice (pa_TenantID i) (pa_DeviceID i) s = Some d" and "length (verificationKey i d) \<noteq> 32"
  shows "snd (ProcessApproval P G eng env i s) = s"
  using surjective_pairing [of "ProcessApproval P G eng env i s"]
proof (cases rule: ProcessApproval_cases)
  case (committed q d')
  then show ?thesis
    using assms by (auto simp: decisionCommitted_def VerifyApprovalResponse_def ed25519_PublicKeySize_def)
qed


section \<open>Replay\<close>

lemma engine_step_counter:
  assumes "engine_step P G eng s s'" "findDevice T D s = Some d"
  shows "\<exists>d'. findDevice T D s' = Some d' \<and> dv_counter d \<le> dv_counter d'"
  using assms(1)
proof (cases rule: engine_step_cases)
  case (decided env i q0 d0)
  then have "devices s' = devices (counterAdvanced i s)" by (simp add: decisionCommitted_def)
  then have "findDevice T D s' = findDevice T D (counterAdvanced i s)" by (simp add: findDevice_def)
  then show ?thesis using find_device_advance [of T D i s] assms(2) by auto
qed (use assms(2) in \<open>simp_all add: findDevice_def\<close>)

lemma engine_run_counter:
  assumes "engine_run P G eng s s'" "findDevice T D s = Some d"
  shows "\<exists>d'. findDevice T D s' = Some d' \<and> dv_counter d \<le> dv_counter d'"
  using assms
proof (induction)
  case (step y z)
  then obtain d' where "findDevice T D y = Some d'" "dv_counter d \<le> dv_counter d'" by blast
  then show ?case using engine_step_counter [OF step.hyps(2)] by fastforce
qed auto

text \<open>
  C9: No replay: once a response of a device has been acted on, no later call with a response of that
  device whose counter is the same or lower changes anything, for whatever request it is sent and
  however many handlers have run in between.
\<close>

theorem replayed_response_rejected:
  assumes "ProcessApproval P G eng env i s = (r, s1)" and "s1 \<noteq> s" and "engine_run P G eng s1 s2"
    and "ProcessApproval P G eng env' j s2 = (r', s3)"
    and "pa_TenantID j = pa_TenantID i" and "pa_DeviceID j = pa_DeviceID i"
    and "ar_DeviceCounter (pa_SignedResponse j) \<le> ar_DeviceCounter (pa_SignedResponse i)"
  shows "s3 = s2"
  using assms(1)
proof (cases rule: ProcessApproval_cases)
  case (committed q d)
  then have "devices s1 = devices (counterAdvanced i s)" and d: "findDevice (pa_TenantID i) (pa_DeviceID i) s = Some d"
      "dv_counter d < ar_DeviceCounter (pa_SignedResponse i)"
    by (simp_all add: decisionCommitted_def)
  then obtain d1 where "findDevice (pa_TenantID i) (pa_DeviceID i) s1 = Some d1"
      "dv_counter d1 = ar_DeviceCounter (pa_SignedResponse i)"
    using findDevice_counterAdvanced [OF d] by (simp add: findDevice_def)
  then obtain d2 where d2: "findDevice (pa_TenantID j) (pa_DeviceID j) s2 = Some d2"
      "ar_DeviceCounter (pa_SignedResponse j) \<le> dv_counter d2"
    using engine_run_counter [OF assms(3)] assms(5-7) by fastforce
  from assms(4) show ?thesis
  proof (cases rule: ProcessApproval_cases)
    case (committed q' d')
    then show ?thesis using d2 by (simp add: decisionCommitted_def)
  qed
qed (use assms(2) in simp)


section \<open>Grants\<close>

lemma hasGrant_append: "grants s' = grants s @ [g] \<Longrightarrow>
    hasGrant T R s' \<longleftrightarrow> hasGrant T R s \<or> g_tenant g = T \<and> g_request g = R"
  by (auto simp: hasGrant_def)

text \<open>
  The invariant of the approval tables: request identifiers are unique, the transient state APPROVED
  is never visible, there is at most one grant per request and per identifier, exactly the GRANTED
  requests have one, and every grant lives within the cap for its resource's sensitivity.
\<close>

definition engineInv :: "db \<Rightarrow> bool" where
  "engineInv s \<longleftrightarrow>
     distinct (map q_id (approval_requests s)) \<and>
     distinct (map (\<lambda>g. (g_tenant g, g_request g)) (grants s)) \<and>
     distinct (map (\<lambda>g. (g_tenant g, g_jti g)) (grants s)) \<and>
     (\<forall>q \<in> set (approval_requests s). q_state q \<noteq> ApprovalStateApproved \<and>
        (q_state q = ApprovalStateGranted \<longleftrightarrow> hasGrant (q_tenant q) (q_id q) s)) \<and>
     (\<forall>g \<in> set (grants s). requestExists (g_tenant g) (g_request g) s \<and> withinCap s g)"

lemma requestMoves_rows:
  assumes "requestMoves T R fin s s'"
  shows "map q_id (approval_requests s') = map q_id (approval_requests s)"
    and "requestExists U Q s' = requestExists U Q s"
    and "q' \<in> set (approval_requests s') \<Longrightarrow>
      q_tenant q' = T \<and> q_id q' = R \<and> q_state q' = fin \<or> \<not> isRequest T R q' \<and> q' \<in> set (approval_requests s)"
proof -
  obtain f where f: "approval_requests s' = updateWhere (isRequest T R) f (approval_requests s)"
    and p: "\<And>r. sameRequest r (f r) \<and> q_state (f r) = fin" using assms unfolding requestMoves_def by blast
  show "map q_id (approval_requests s') = map q_id (approval_requests s)"
    unfolding f by (rule updateWhere_keys) (use p in \<open>simp add: sameRequest_def\<close>)
  have "isRequest U Q (f r) = isRequest U Q r" for U Q r using p sameRequest_isRequest by blast
  then show "requestExists U Q s' = requestExists U Q s"
    unfolding requestExists_def f by (rule list_ex_updateWhere)
  show "q_tenant q' = T \<and> q_id q' = R \<and> q_state q' = fin \<or> \<not> isRequest T R q' \<and> q' \<in> set (approval_requests s)"
    if "q' \<in> set (approval_requests s')"
    using that p unfolding f set_updateWhere by (fastforce simp: isRequest_def sameRequest_def)
qed

lemma engineInv_moves:
  assumes inv: "engineInv s" and mv: "requestMoves T R fin s s'" and w: "resources s' = resources s"
    and fin: "fin \<noteq> ApprovalStateApproved"
    and gr: "if fin = ApprovalStateGranted
             then \<exists>g. grants s' = grants s @ [g] \<and> g_tenant g = T \<and> g_request g = R \<and> withinCap s g \<and>
                    \<not> list_ex (isGrant (g_tenant g) (g_jti g)) (grants s) \<and> requestExists T R s
             else grants s' = grants s"
    and no: "\<not> hasGrant T R s"
  shows "engineInv s'"
proof -
  note rows = requestMoves_rows [OF mv]
  have st: "q_state q' \<noteq> ApprovalStateApproved \<and> (q_state q' = ApprovalStateGranted \<longleftrightarrow> hasGrant (q_tenant q') (q_id q') s')"
    if "q' \<in> set (approval_requests s')" for q'
    using rows(3) [OF that] inv gr no fin hasGrant_append [of s' s]
    by (auto simp: engineInv_def isRequest_def hasGrant_def split: if_splits)
  have ex: "requestExists (g_tenant g) (g_request g) s' \<and> withinCap s' g" if "g \<in> set (grants s')" for g
    using that gr inv rows(2) withinCap_cong [OF w, of g] by (auto simp: engineInv_def split: if_splits)
  have "distinct (map (\<lambda>g. (g_tenant g, g_request g)) (grants s'))" "distinct (map (\<lambda>g. (g_tenant g, g_jti g)) (grants s'))"
    using gr inv no by (force simp: engineInv_def hasGrant_def list_ex_iff isGrant_def split: if_splits)+
  then show ?thesis using inv rows(1) st ex by (simp add: engineInv_def)
qed

lemma findRequest_SomeD:
  "findRequest T R s = Some q \<Longrightarrow> q \<in> set (approval_requests s) \<and> q_tenant q = T \<and> q_id q = R"
  unfolding findRequest_def by (drule find_Some_set) (simp add: isRequest_def)

lemma engineInv_pending: "engineInv s \<Longrightarrow> findRequest T R s = Some q \<Longrightarrow> q_state q = ApprovalStatePending \<Longrightarrow> \<not> hasGrant T R s"
  by (drule findRequest_SomeD) (auto simp: engineInv_def)

lemma engineInv_step:
  assumes "engine_step P G eng s s'" "engineInv s"
  shows "engineInv s'"
  using assms(1)
proof (cases rule: engine_step_cases)
  case (created row)
  have ng: "\<not> hasGrant (q_tenant row) (q_id row) s"
    using created(3) assms(2) by (force simp: engineInv_def hasGrant_def requestExists_def list_ex_iff isRequest_def)
  have "withinCap s' g = withinCap s g" for g using created(6) by (intro withinCap_cong) (simp add: sameWorld_def)
  moreover have "hasGrant T R s' = hasGrant T R s" for T R using created(4) by (simp add: hasGrant_def)
  moreover have "requestExists T R s \<Longrightarrow> requestExists T R s'" for T R using created(1) by (simp add: requestExists_def)
  ultimately show ?thesis using created assms(2) ng by (auto simp: engineInv_def list_ex_iff)
next
  case (decided env i q d)
  note c = decided [unfolded decisionCommitted_def]
  have no: "\<not> hasGrant (pa_TenantID i) (pa_RequestID i) s" using engineInv_pending [OF assms(2)] c by blast
  have re: "requestExists (pa_TenantID i) (pa_RequestID i) s"
    using c findRequest_SomeD [of _ _ s q] by (auto simp: requestExists_def list_ex_iff isRequest_def)
  show ?thesis
    using c no re by (intro engineInv_moves [OF assms(2), of "pa_TenantID i" "pa_RequestID i" "finalState i"])
      (auto simp: finalState_def grantAdded_def issuedFor_def sameWorld_def)
next
  case (cancelled T R q)
  have "\<not> hasGrant T R s" using engineInv_pending [OF assms(2)] cancelled by blast
  then show ?thesis using cancelled
    by (intro engineInv_moves [OF assms(2), of T R ApprovalStateCancelled]) (simp_all add: sameWorld_def)
next
  case (consumed T J n)
  let ?f = "\<lambda>h. h\<lparr>g_consumed_at := Some n\<rparr>"
  have k: "map (\<lambda>g. (g_tenant g, g_request g)) (grants s') = map (\<lambda>g. (g_tenant g, g_request g)) (grants s)"
    "map (\<lambda>g. (g_tenant g, g_jti g)) (grants s') = map (\<lambda>g. (g_tenant g, g_jti g)) (grants s)"
    by (simp_all add: consumed, (rule updateWhere_keys, simp)+)
  have "hasGrant U Q s' = hasGrant U Q s" for U Q
    by (simp add: hasGrant_def consumed list_ex_updateWhere)
  moreover have "withinCap s' g = withinCap s g" for g by (rule withinCap_cong) (simp add: consumed)
  moreover have "requestExists U Q s' = requestExists U Q s" for U Q by (simp add: consumed requestExists_def)
  moreover have "withinCap s (?f g) = withinCap s g" for g by (simp add: withinCap_def)
  ultimately show ?thesis using k assms(2)
    by (auto simp: engineInv_def consumed set_updateWhere split: if_splits)
qed (use assms(2) in simp)

text \<open>
  C4: From a database that satisfies the invariant, whatever handlers run, with whatever inputs and
  failures: at most one grant per request, a grant exactly for the GRANTED requests, no grant beyond
  the lifetime its scope and its resource's sensitivity allow, and no request left in the state
  APPROVED. The last is the code's way and not that of DR-SVC-2, which has the approval persisted as
  APPROVED before a grant is minted: here both are one transaction, so a failure to sign loses the approval.
\<close>

theorem engine_invariant:
  assumes "engine_run P G eng s s'" and "engineInv s"
  shows "engineInv s'"
  using assms by (induction) (auto intro: engineInv_step)

section \<open>Consumption\<close>

text \<open>The grant that a lookup finds stays the one it finds, and once consumed it stays consumed.\<close>

lemma engine_step_consumed:
  assumes "engine_step P G eng s s'" "find (isGrant T J) (grants s) = Some g"
  shows "\<exists>g'. find (isGrant T J) (grants s') = Some g' \<and> (g_consumed_at g \<noteq> None \<longrightarrow> g' = g)"
  using assms(1)
proof (cases rule: engine_step_cases)
  case (decided env i q d)
  then have "\<exists>gs. grants s' = grants s @ gs"
    by (auto simp: decisionCommitted_def grantAdded_def split: if_splits)
  then show ?thesis using assms(2) by (auto simp: find_append)
next
  case (consumed T' J' n)
  have "find (isGrant T J) (grants s') = map_option (\<lambda>h. if isGrant T' J' h \<and> g_consumed_at h = None
          then h\<lparr>g_consumed_at := Some n\<rparr> else h) (find (isGrant T J) (grants s))"
    unfolding consumed by (simp add: find_updateWhere isGrant_def)
  then show ?thesis using assms(2) by auto
qed (use assms(2) in auto)

lemma engine_run_consumed:
  assumes "engine_run P G eng s s'" "find (isGrant T J) (grants s) = Some g" "g_consumed_at g \<noteq> None"
  shows "find (isGrant T J) (grants s') = Some g"
  using assms by (induction) (use engine_step_consumed in fastforce)+

text \<open>
  A grant is consumed at most once at the service: after a call of \<open>ConsumeGrant\<close> that changed the
  database, every later call for the same grant leaves the database unchanged, and reports that the
  grant was not consumed unless its statement fails. The first call is not reported as a
  consumption either: it ends in the panic of an audit insert without a transaction, or its answer
  was lost.
\<close>

theorem ConsumeGrant_once:
  assumes "ConsumeGrant env T J s = (r, s1)" and "s1 \<noteq> s" and "engine_run P G eng s1 s2"
    and "ConsumeGrant env' T J s2 = (r', s3)"
  shows "(r = Inl NilTransactionPanic \<or> r = Inl (ConsumeGrantError ConnectionFault)) \<and> s3 = s2 \<and> (r' = Inr False \<or> (\<exists>e. r' = Inl (ConsumeGrantError e)))"
  using assms(1)
proof (cases rule: ConsumeGrant_cases)
  case (consumed g)
  have "find (isGrant T J) (grants s1) = Some (g\<lparr>g_consumed_at := Some (clock env ''consume'')\<rparr>)"
    using consumed(1,2) find_Some_set [OF consumed(1)] unfolding consumed(5)
    by (simp add: find_updateWhere isGrant_def)
  then have g2: "find (isGrant T J) (grants s2) = Some (g\<lparr>g_consumed_at := Some (clock env ''consume'')\<rparr>)"
    using engine_run_consumed [OF assms(3)] by simp
  from assms(4) show ?thesis
    by (cases rule: ConsumeGrant_cases) (use g2 consumed(4) in auto)
qed (use assms(2) in auto)


section \<open>What the documents and the schema say otherwise\<close>

text \<open>
  DR-SVC-2 wants a verified approval persisted first, so that minting can be retried after the key service
  failed. \<open>ProcessApproval\<close> mints in the transaction that records the decision: while grants cannot be
  signed, an approval leaves no trace, neither on the request nor on the device's counter.
\<close>

theorem signing_failure_discards_approval:
  assumes "\<And>p. eng_SignGrant eng p = None" and "pa_Decision i = DecisionApprove" and "ProcessApproval P G eng env i s = (r, s')"
  shows "s' = s"
  using assms(3) [unfolded ProcessApproval_def]
proof (cases rule: runTx_cases)
  case (committed x t)
  from committed(1) show ?thesis
  proof (cases rule: processBody_Inr)
    case (decides q d bnd)
    then obtain t1 jti b t2 where "mintGrant P G eng env s (pa_TenantID i) (pa_RequestID i) (q_user q) (q_src_node_id q)
        (pa_DeviceID i) (q_resource q) (q_scope q) (q_policy_version q) (q_rule_id q) bnd (sourceKeyEpoch s q)
        (authzEpochOf (pa_TenantID i) s) t1 = (Inr (jti, b), t2)"
      using assms(2) by (auto simp: decideBody_def ignoring_def)
    then show ?thesis by (auto simp: mintGrant_def assms(1) Let_def split: sum.splits)
  qed simp
qed

text \<open>
  The column \<open>grants.binding\<close> is \<open>jsonb\<close> and a grant is inserted with an empty byte string for it. With
  a PostgreSQL that rejects the empty string as JSON no approval ever takes effect: the database is
  left unchanged and no grant is returned, whatever the request, the response and the device.
\<close>

theorem approve_needs_empty_json:
  assumes "jsonb_in G [] = None" and "pa_Decision i = DecisionApprove" and "ProcessApproval P G eng env i s = (r, s')"
  shows "s' = s \<and> (\<forall>x. r = Inr x \<longrightarrow> res_GrantJTI x = None)"
proof -
  have same: "s' = s"
    using assms(3) by (cases rule: ProcessApproval_cases) (use assms(1,2) in \<open>auto simp: decisionCommitted_def\<close>)
  have "res_GrantJTI x = None" if r: "r = Inr x" for x
    using runTx_Inr [OF assms(3) [unfolded ProcessApproval_def r]]
  proof (elim disjE exE conjE)
    fix t assume "processBody P G eng env s i (beginTx s) = (Inr (Commit x), t)" "\<not> tx_aborted t"
    then show ?thesis
    proof (cases rule: processBody_Inr)
      case (decides q d bnd)
      from decideBody_committed [OF decides(6) \<open>\<not> tx_aborted t\<close> decides(1-5)] assms(1,2)
      show ?thesis by (simp add: decisionCommitted_def)
    qed simp
  next
    fix t assume "processBody P G eng env s i (beginTx s) = (Inr (Rollback x), t)"
    then show ?thesis
    proof (cases rule: processBody_Inr)
      case (decides q d bnd)
      then show ?thesis by (auto simp: decideBody_def ignoring_def split: if_splits)
    qed simp
  qed
  with same show ?thesis by blast
qed

text \<open>
  \<open>CancelApprovalRequest\<close> notifies the device with a message that has no payload, and \<open>outbox.payload\<close>
  is NOT NULL. Where the driver passes a nil slice as NULL, cancelling a pending request never
  takes effect and never succeeds.
\<close>

theorem cancel_never_takes_effect:
  assumes "nil_is_null G" and "findRequest T R s = Some q" and "q_state q = ApprovalStatePending"
  shows "snd (CancelApprovalRequest P G eng env T R N why s) = s \<and>
         (\<exists>e. fst (CancelApprovalRequest P G eng env T R N why s) = Inl e)"
proof -
  obtain r s' where run: "CancelApprovalRequest P G eng env T R N why s = (r, s')" by fastforce
  have "s' = s" using run by (cases rule: CancelApprovalRequest_cases) (use assms(1) in auto)
  moreover have "r \<noteq> Inr u" for u
  proof
    assume r: "r = Inr u"
    from runTx_Inr [OF run [unfolded CancelApprovalRequest_def r]] show False
    proof (elim disjE exE conjE)
      fix t assume "cancelBody P G eng env T R why (beginTx s) = (Inr (Commit u), t)" "\<not> tx_aborted t"
      then obtain t0 where "ignoring (InsertTx P G (eng_json eng) env ''audit cancel'' (cancelEvent eng env T R why))
         (ignoring (WriteTx G env ''cancel device'' (cancelMessage env T)) (Pair (Inr (Commit ())))) t0
           = (Inr (Commit u) :: enf_error + _, t)"
        using assms by (auto simp: cancelBody_def)
      from notice_sound(6) [OF this \<open>\<not> tx_aborted t\<close>] assms(1) show False
        by (simp add: cancelMessage_def sqlBytes_def)
    next
      fix t assume "cancelBody P G eng env T R why (beginTx s) = (Inr (Rollback u), t)"
      then show False using assms by (auto simp: cancelBody_def ignoring_def)
    qed
  qed
  ultimately show ?thesis using run by (cases r) auto
qed

end
