(* ===== verification/ApprovalSuccess.thy ===== *)
theory ApprovalSuccess
  imports ApprovalFlow
begin

text \<open>
  What the approval engine does with a valid decision: on a healthy connection a denial is recorded; an
  approval for a pending request of a known resource is granted, unless PostgreSQL refuses the empty
  byte string that the engine writes into a \<open>jsonb\<close> column, in which case the call fails. Together with the
  safety theorems of \<open>ApprovalFlow\<close> this pins down \<open>ProcessApproval\<close> on valid decisions. The last section
  runs the engine on a small database and instantiates the theorems there.
\<close>

section \<open>When an insert succeeds\<close>

text \<open>What the payload column is given is NULL or valid JSON.\<close>

definition storable :: "pg \<Rightarrow> audit_json \<Rightarrow> AuditEvent \<Rightarrow> bool" where
  "storable G J ev \<longleftrightarrow> (case eventBytes G J ev of None \<Rightarrow> True | Some d \<Rightarrow> jsonb_in G d \<noteq> None)"

lemma auditInv_fresh: "auditInv T s \<Longrightarrow> \<not> list_ex (isAudit T (headSeq T s + 1)) (audit_events s)"
proof
  assume "auditInv T s" "list_ex (isAudit T (headSeq T s + 1)) (audit_events s)"
  then have "headSeq T s + 1 \<in> set (map a_seq (tenantEvents T s))"
    by (force simp: list_ex_iff isAudit_def tenantEvents_def)
  with \<open>auditInv T s\<close> show False by (simp add: auditInv_def)
qed

lemma InsertTx_succeeds:
  assumes "\<not> tx_aborted t" "\<forall>l. \<not> fault env l" "ev_TenantID ev = T" "T \<in> set (tenants (tx_db t))"
    "ev_Producer ev = ''service''" "storable G J ev" "auditInv T (tx_db t)" "headSeq T (tx_db t) + 1 < 2 ^ 63"
  shows "\<exists>n t'. InsertTx P G J env l ev t = (Inr n, t') \<and> auditInv T (tx_db t') \<and>
           headSeq T (tx_db t') = headSeq T (tx_db t) + 1"
proof -
  let ?n = "headSeq T (tx_db t) + 1"
  obtain h s1 where e: "ensureHead T (tx_db t) = Inr (headSeq T (tx_db t), h, s1)"
    using assms(4) by (cases "findHead T (tx_db t)") (auto simp: ensureHead_def headSeq_def)
  obtain hs where s1: "s1 = (tx_db t)\<lparr>audit_heads := hs\<rparr>" using ensureHead_Inr(3) [OF e] by blast
  have n: "inInt64 ?n" using assms(7,8) by (simp add: inInt64_def auditInv_def)
  have "\<not> list_ex (\<lambda>a. a_tenant a = T \<and> a_seq a = ?n) (audit_events s1)"
    using auditInv_fresh [OF assms(7)] by (simp add: s1 isAudit_def list_ex_iff)
  then have "\<exists>s'. insert_audit_event P G (pgNow env) T (ev_EventType ev) (ev_Producer ev) (eventBytes G J ev) (tx_db t) = Inr (?n, s')"
    using e n assms(5,6)
    by (cases "eventBytes G J ev") (auto simp: insert_audit_event_def storable_def bigint_def Let_def)
  then obtain t' where t': "InsertTx P G J env l ev t = (Inr ?n, t')"
    using assms(1-3) by (auto simp: InsertTx_def eventBytes_def Let_def)
  moreover have "headSeq T (tx_db t') = ?n" using InsertTx_Inr(5) [OF t', of T] assms(3) by (simp add: headSeq_def)
  moreover have "auditInv T (tx_db t')"
    using keepsD [OF keeps_InsertTx_auditInv [of T P G J env l ev], of t] assms(7) t' by simp
  ultimately show ?thesis by blast
qed

lemma WriteTx_succeeds:
  assumes "\<not> tx_aborted t" "\<forall>l. \<not> fault env l" "om_Payload msg = Some b" "outboxInv (tx_db t)"
    "int (length (outbox (tx_db t))) + 1 < 2 ^ 63"
  shows "\<exists>t'. WriteTx G env l msg t = (Inr (), t')"
proof -
  let ?q = "queueOf (om_TenantID msg) (om_Consumer msg) (tx_db t)"
  have "maxOr 0 (map o_seq ?q) = int (length ?q)" using assms(4) by (simp add: outboxInv_def maxOr_upto)
  moreover have "length ?q \<le> length (outbox (tx_db t))" by (simp add: queueOf_def)
  ultimately have "inInt64 (maxOr 0 (map o_seq ?q) + 1)" using assms(5) by (simp add: inInt64_def)
  then show ?thesis using assms(1-3) by (auto simp: WriteTx_def insert_outbox_def bigint_def sqlBytes_def)
qed

section \<open>The caps of the service and of the database\<close>

text \<open>
  The lifetime cap of \<open>MaxGrantTTL\<close> in Go and that of the trigger \<open>validate_grant_ttl\<close> in SQL are the
  same function of scope and sensitivity, prohibited combinations (both zero) included.
\<close>

theorem MaxGrantTTL_agrees_with_trigger:
  "MaxGrantTTL scope sensitivity = grant_max_seconds scope (Some sensitivity) * second"
  by (simp add: MaxGrantTTL_def grant_max_seconds_def minute_def hour_def second_def)


section \<open>A valid decision takes effect\<close>

text \<open>The connection works, and what the engine writes fits its columns.\<close>

definition healthy :: "prims \<Rightarrow> pg \<Rightarrow> engine \<Rightarrow> svc_env \<Rightarrow> uuid \<Rightarrow> db \<Rightarrow> bool" where
  "healthy P G eng env T s \<longleftrightarrow>
     (\<forall>l. \<not> fault env l) \<and> commitAs env = CommitOk \<and> uuid_text_ok P \<and>
     (\<forall>ev. storable G (eng_json eng) ev) \<and> (\<forall>p. eng_SignGrant eng p \<noteq> None) \<and> signsFaithfully (eng_SignGrant eng) \<and>
     \<not> isZero (clock env ''mint'') \<and> \<not> list_ex (isGrant T (newUUID env ''jti'')) (grants s) \<and>
     T \<in> set (tenants s) \<and> auditInv T s \<and> headSeq T s + 2 < 2 ^ 63 \<and>
     outboxInv s \<and> int (length (outbox s)) + 1 < 2 ^ 63"

text \<open>A pending request with the rows it refers to, and a response that a device signed for it.\<close>

definition approvable :: "prims \<Rightarrow> engine \<Rightarrow> ProcessApprovalInput \<Rightarrow> db \<Rightarrow> bool" where
  "approvable P eng i s \<longleftrightarrow>
     (\<exists>q d r. findRequest (pa_TenantID i) (pa_RequestID i) s = Some q \<and> q_state q = ApprovalStatePending \<and>
        findDevice (pa_TenantID i) (pa_DeviceID i) s = Some d \<and>
        VerifyApprovalResponse P (pa_SignedResponse i) (dv_approval_auth_pub d) = Inr () \<and>
        dv_counter d < ar_DeviceCounter (pa_SignedResponse i) \<and>
        (\<exists>b. (if q_binding q \<noteq> []
              then DecodeCanonical (decModeOK (ec_cose (eng_codec eng))) (unmarshal_Binding (eng_codec eng)) (q_binding q)
              else Inr emptyBinding) = Inr b) \<and>
        userExists (pa_TenantID i) (q_user q) s \<and> findResource (pa_TenantID i) (q_resource q) s = Some r \<and>
        nodeExists (pa_TenantID i) (r_protected_node_id r) s \<and> MaxGrantTTL (q_scope q) (r_sensitivity r) \<noteq> 0)"

lemma event_sel [simp]:
  "ev_TenantID (grantEvent eng env T R usr scope agt) = T" "ev_Producer (grantEvent eng env T R usr scope agt) = ''service''"
  "ev_TenantID (decisionEvent eng env i usr) = pa_TenantID i" "ev_Producer (decisionEvent eng env i usr) = ''service''"
  "om_Payload (grantMessage env T agt b) = Some b"
  by (simp_all add: grantEvent_def decisionEvent_def grantMessage_def)

text \<open>The first half of minting: identity and token, then the row.\<close>

lemma healthy_grant_signed:
  assumes h: "healthy P G eng env T s" and u: "userExists T usr s"
    and rd: "rd_NodeID rd = uuid_String P (r_protected_node_id r)" "rd_Sensitivity rd = r_sensitivity r"
  obtains ident b agt where "resolveUserIdentity P env s T usr = Inr ident"
    "eng_SignGrant eng (agtFor (newUUID env ''jti'') T ident src ep dev rd scope bnd pv rule az (clock env ''mint'')) = Some (b, agt)"
    "uuid_Parse P (res_ProtectedNodeID (agt_Resource agt)) = Some (r_protected_node_id r)"
    "agt_Scope agt = scope" "agt_IssuedAt agt = clock env ''mint''" "agt_ApproverDeviceID agt = dev"
    "agt_ExpiresAt agt = clock env ''mint'' + MaxGrantTTL scope (r_sensitivity r)"
proof -
  obtain ident where ident: "resolveUserIdentity P env s T usr = Inr ident"
    using u h find_None_list_ex [of "\<lambda>u. u_tenant u = T \<and> u_id u = usr" "users s"]
    by (cases "find (\<lambda>u. u_tenant u = T \<and> u_id u = usr) (users s)")
       (auto simp: healthy_def resolveUserIdentity_def userExists_def)
  let ?agt0 = "agtFor (newUUID env ''jti'') T ident src ep dev rd scope bnd pv rule az (clock env ''mint'')"
  obtain b agt where sg: "eng_SignGrant eng ?agt0 = Some (b, agt)"
    using h unfolding healthy_def by (metis option.exhaust surj_pair)
  have agt: "agt = ?agt0\<lparr>agt_Ver := agt_Ver agt\<rparr>"
    using h sg unfolding healthy_def signsFaithfully_def by fastforce
  have f: "agt_Scope agt = scope" "agt_IssuedAt agt = clock env ''mint''" "agt_ApproverDeviceID agt = dev"
    "agt_ExpiresAt agt = clock env ''mint'' + MaxGrantTTL scope (r_sensitivity r)"
    "res_ProtectedNodeID (agt_Resource agt) = uuid_String P (r_protected_node_id r)"
    by (subst agt, simp add: agtFor_def rd)+
  have nid: "uuid_Parse P (res_ProtectedNodeID (agt_Resource agt)) = Some (r_protected_node_id r)"
    using h by (simp add: f healthy_def uuid_text_ok_def)
  from that [OF ident sg nid f(1-4)] show ?thesis .
qed

lemma healthy_grant_inserted:
  assumes h: "healthy P G eng env T s" and json: "jsonb_in G [] \<noteq> None"
    and t: "grants (tx_db t) = grants s" "sameWorld s (tx_db t)"
    and no: "\<not> hasGrant T R s" and rq: "requestExists T R (tx_db t)" "deviceExists T dev (tx_db t)"
    and u: "userExists T usr s" and r: "findResource T res (tx_db t) = Some r" and nd: "nodeExists T (r_protected_node_id r) s"
    and ttl: "MaxGrantTTL scope (r_sensitivity r) \<noteq> 0"
    and f: "agt_Scope agt = scope" "agt_IssuedAt agt = clock env ''mint''" "agt_ApproverDeviceID agt = dev"
      "agt_ExpiresAt agt = clock env ''mint'' + MaxGrantTTL scope (r_sensitivity r)"
  obtains s1 where
    "insert_grant G (grantRow agt (newUUID env ''jti'') T R usr src (r_protected_node_id r) res b) (tx_db t) = Inr ((), s1)"
    "sameWorld (tx_db t) s1" "outbox s1 = outbox (tx_db t)" "audit_events s1 = audit_events (tx_db t)" "audit_heads s1 = audit_heads (tx_db t)"
proof -
  have re: "resourceExists T res (tx_db t)"
    using r find_None_list_ex [of "\<lambda>r. r_tenant r = T \<and> r_id r = res" "resources (tx_db t)"]
    by (auto simp: findResource_def resourceExists_def)
  let ?g = "grantRow agt (newUUID env ''jti'') T R usr src (r_protected_node_id r) res b"
  have "\<exists>s1. insert_grant G ?g (tx_db t) = Inr ((), s1) \<and> sameWorld (tx_db t) s1 \<and> outbox s1 = outbox (tx_db t) \<and>
      audit_events s1 = audit_events (tx_db t) \<and> audit_heads s1 = audit_heads (tx_db t)"
    using h json no t ttl rq re nd u f r MaxGrantTTL_agrees_with_trigger [of scope "r_sensitivity r"]
    by (auto simp: insert_grant_def healthy_def validate_grant_ttl_def hasGrant_def grantRow_def sameWorld_def
        userExists_def nodeExists_def Let_def)
  then show ?thesis by (auto intro: that)
qed

text \<open>The second half: an audit event and a message.\<close>

lemma healthy_notices:
  assumes h: "healthy P G eng env T s"
    and t: "\<not> tx_aborted t" "tenants (tx_db t) = tenants s" "outbox (tx_db t) = outbox s"
      "audit_events (tx_db t) = audit_events s" "audit_heads (tx_db t) = audit_heads s"
    and ev: "ev_TenantID ev = T" "ev_Producer ev = ''service''" and msg: "om_Payload msg = Some b"
  obtains n t1 t2 where "InsertTx P G (eng_json eng) env l1 ev t = (Inr n, t1)" "WriteTx G env l2 msg t1 = (Inr (), t2)"
    "\<not> tx_aborted t2" "auditInv T (tx_db t2)" "headSeq T (tx_db t2) = headSeq T s + 1" "tenants (tx_db t2) = tenants s"
proof -
  have w: "findHead T (tx_db t) = findHead T s" "tenantEvents T (tx_db t) = tenantEvents T s"
    using t by (simp_all add: findHead_def tenantEvents_def)
  have a: "auditInv T (tx_db t)" "headSeq T (tx_db t) = headSeq T s"
    using h auditInv_cong [OF w(2,1)] w(1) by (simp_all add: healthy_def headSeq_def)
  obtain n t1 where i1: "InsertTx P G (eng_json eng) env l1 ev t = (Inr n, t1)"
    and a1: "auditInv T (tx_db t1)" "headSeq T (tx_db t1) = headSeq T s + 1"
    using InsertTx_succeeds [of t env ev T G "eng_json eng" P l1] h t a ev by (auto simp: healthy_def)
  have t1: "outbox (tx_db t1) = outbox s" "tenants (tx_db t1) = tenants s" "\<not> tx_aborted t1"
    using InsertTx_world [OF i1] InsertTx_Inr(3) [OF i1] t by (simp_all add: sameWorld_def)
  obtain t2 where i2: "WriteTx G env l2 msg t1 = (Inr (), t2)"
    using WriteTx_succeeds [of t1 env msg b G l2] h t1 msg outboxInv_cong [OF t1(1)] by (auto simp: healthy_def)
  have "auditInv T (tx_db t2)" "headSeq T (tx_db t2) = headSeq T s + 1" "tenants (tx_db t2) = tenants s" "\<not> tx_aborted t2"
    using a1 t1 WriteTx_world [OF i2] WriteTx_Inr(3) [OF i2] auditInv_cong [of T "tx_db t2" "tx_db t1"]
    by (simp_all add: sameWorld_def tenantEvents_def findHead_def headSeq_def)
  with i1 i2 show ?thesis by (intro that)
qed

lemma mintGrant_succeeds:
  assumes h: "healthy P G eng env T s" and json: "jsonb_in G [] \<noteq> None"
    and t: "\<not> tx_aborted t" "grants (tx_db t) = grants s" "sameWorld s (tx_db t)" "outbox (tx_db t) = outbox s"
      "audit_events (tx_db t) = audit_events s" "audit_heads (tx_db t) = audit_heads s"
    and no: "\<not> hasGrant T R s" and rq: "requestExists T R (tx_db t)" "deviceExists T dev (tx_db t)"
    and u: "userExists T usr s" and r: "findResource T res s = Some r" and nd: "nodeExists T (r_protected_node_id r) s"
    and ttl: "MaxGrantTTL scope (r_sensitivity r) \<noteq> 0"
  shows "\<exists>b t'. mintGrant P G eng env s T R usr src dev res scope pv rule bnd ep az t
            = (Inr (newUUID env ''jti'', b), t') \<and> \<not> tx_aborted t' \<and> auditInv T (tx_db t') \<and>
          headSeq T (tx_db t') = headSeq T s + 1 \<and> tenants (tx_db t') = tenants s"
proof -
  let ?rd = "\<lparr>rd_NodeID = uuid_String P (r_protected_node_id r), rd_ServiceID = r_service_id r, rd_Port = r_port r,
        rd_DeploymentMode = r_deployment_mode r, rd_Protocol = ''TCP'', rd_Sensitivity = r_sensitivity r\<rparr>"
  let ?jti = "newUUID env ''jti''"
  have rt: "findResource T res (tx_db t) = Some r" using r t(3) by (simp add: sameWorld_def findResource_def)
  obtain ident b agt where sg: "resolveUserIdentity P env s T usr = Inr ident"
      "eng_SignGrant eng (agtFor ?jti T ident src ep dev ?rd scope bnd pv rule az (clock env ''mint'')) = Some (b, agt)"
      "uuid_Parse P (res_ProtectedNodeID (agt_Resource agt)) = Some (r_protected_node_id r)"
    and f: "agt_Scope agt = scope" "agt_IssuedAt agt = clock env ''mint''" "agt_ApproverDeviceID agt = dev"
      "agt_ExpiresAt agt = clock env ''mint'' + MaxGrantTTL scope (r_sensitivity r)"
    by (rule healthy_grant_signed [OF h u, where rd = ?rd and r = r and src = src and ep = ep and dev = dev and scope = scope
          and bnd = bnd and pv = pv and rule = rule and az = az]) (simp, simp, rule that)
  obtain s1 where ins: "insert_grant G (grantRow agt ?jti T R usr src (r_protected_node_id r) res b) (tx_db t) = Inr ((), s1)"
    and w: "sameWorld (tx_db t) s1" "outbox s1 = outbox (tx_db t)" "audit_events s1 = audit_events (tx_db t)"
      "audit_heads s1 = audit_heads (tx_db t)"
    by (rule healthy_grant_inserted [OF h json t(2,3) no rq u rt nd ttl f])
  note m = sg ins
  let ?t2 = "t\<lparr>tx_db := markGranted T R s1\<rparr>"
  have t2: "\<not> tx_aborted ?t2" "tenants (tx_db ?t2) = tenants s" "outbox (tx_db ?t2) = outbox s"
      "audit_events (tx_db ?t2) = audit_events s" "audit_heads (tx_db ?t2) = audit_heads s"
    using t w by (simp_all add: markGranted_def sameWorld_def)
  obtain n t3 t4 where i: "InsertTx P G (eng_json eng) env ''audit grant'' (grantEvent eng env T R usr scope agt)
        ?t2 = (Inr n, t3)"
      "WriteTx G env ''deliver grant'' (grantMessage env T agt b) t3 = (Inr (), t4)"
    and t4: "\<not> tx_aborted t4" "auditInv T (tx_db t4)" "headSeq T (tx_db t4) = headSeq T s + 1" "tenants (tx_db t4) = tenants s"
    by (rule healthy_notices [OF h t2 event_sel(1,2,5)])
  have "mintGrant P G eng env s T R usr src dev res scope pv rule bnd ep az t = (Inr (?jti, b), t4)"
    using h rt m i t(1)
    by (simp add: mintGrant_def getResourceDetails_def Let_def step_def query_def exec_def ignoring_def healthy_def)
  with t4 show ?thesis by blast
qed

text \<open>The identifier of the row that minting adds.\<close>

lemma mintGrant_jti:
  assumes "mintGrant P G eng env s0 T R usr src dev res scope pv rule bnd ep az t = (Inr (jti, b), t')" and "\<not> tx_aborted t'"
    and "\<not> hasGrant T R (tx_db t)" and "grants (tx_db t') = grants (tx_db t) @ [g]"
  shows "g_jti g = newUUID env ''jti''"
  using assms(1,2)
proof (cases rule: mintGrant_Inr)
  case (1 r ident agt nodeID s1)
  from 1(3) show ?thesis
  proof (cases rule: insert_grant_Inr)
    case (inserted x)
    then show ?thesis using assms(4) 1(7) by auto
  qed (use assms(3) in \<open>simp add: hasGrant_def\<close>)
qed

text \<open>The response recorded and the counter advanced, the rows that a grant refers to are there.\<close>

lemma recorded_world:
  assumes tr: "transition_approval_request nw (pa_TenantID i) (pa_RequestID i) st v s = Inr (True, s1)"
    and q: "findRequest (pa_TenantID i) (pa_RequestID i) s = Some q"
    and d: "findDevice (pa_TenantID i) (pa_DeviceID i) s = Some d" "dv_counter d < ar_DeviceCounter (pa_SignedResponse i)"
  defines "s2 \<equiv> counterAdvanced i (recordResponse i s1)"
  shows "grants s2 = grants s" "sameWorld s s2" "outbox s2 = outbox s" "audit_events s2 = audit_events s"
    "audit_heads s2 = audit_heads s" "requestExists (pa_TenantID i) (pa_RequestID i) s2"
    "deviceExists (pa_TenantID i) (pa_DeviceID i) s2"
proof -
  let ?T = "pa_TenantID i" and ?R = "pa_RequestID i"
  obtain rs where s1: "s1 = s\<lparr>approval_requests := rs\<rparr>" and mv: "requestMoves ?T ?R st s s1"
    using tr by (rule transition_Inr)
  show "grants s2 = grants s" "sameWorld s s2" "outbox s2 = outbox s" "audit_events s2 = audit_events s" "audit_heads s2 = audit_heads s"
    by (simp_all add: s2_def s1 sameWorld_def counterAdvanced_def recordResponse_def advance_device_counter_def Let_def)
  have "requestExists ?T ?R s" using q findRequest_SomeD [of ?T ?R s q] by (auto simp: requestExists_def list_ex_iff isRequest_def)
  then show "requestExists ?T ?R s2"
    using requestMoves_rows(2) [OF recordResponse_moves [OF mv]] by (simp add: requestExists_def s2_def)
  have "findDevice ?T (pa_DeviceID i) (recordResponse i s1) = Some d" using d(1) by (simp add: findDevice_def s1)
  then have "findDevice ?T (pa_DeviceID i) s2 \<noteq> None" using d(2) findDevice_counterAdvanced unfolding s2_def by fastforce
  then show "deviceExists ?T (pa_DeviceID i) s2"
    using find_None_list_ex [of "isDevice ?T (pa_DeviceID i)" "devices s2"]
    by (simp add: findDevice_def deviceExists_def list_ex_iff isDevice_def)
qed

text \<open>The transaction of an approval on a healthy connection, up to its commit.\<close>

lemma approval_body_succeeds:
  assumes h: "healthy P G eng env (pa_TenantID i) s" and json: "jsonb_in G [] \<noteq> None" and dec: "pa_Decision i = DecisionApprove"
    and no: "\<not> hasGrant (pa_TenantID i) (pa_RequestID i) s"
    and q: "findRequest (pa_TenantID i) (pa_RequestID i) s = Some q" "q_state q = ApprovalStatePending"
    and d: "findDevice (pa_TenantID i) (pa_DeviceID i) s = Some d" "dv_counter d < ar_DeviceCounter (pa_SignedResponse i)"
    and r: "userExists (pa_TenantID i) (q_user q) s" "findResource (pa_TenantID i) (q_resource q) s = Some r"
      "nodeExists (pa_TenantID i) (r_protected_node_id r) s" "MaxGrantTTL (q_scope q) (r_sensitivity r) \<noteq> 0"
  obtains b t where
    "decideBody P G eng env s i q (sourceKeyEpoch s q) bnd (authzEpochOf (pa_TenantID i) s) (beginTx s) =
       (Inr (Commit \<lparr>res_NewState = ApprovalStateGranted, res_GrantJTI = Some (newUUID env ''jti''), res_AGTBytes = b\<rparr>), t)"
    "\<not> tx_aborted t" "\<And>g. grants (tx_db t) = grants s @ [g] \<Longrightarrow> g_jti g = newUUID env ''jti''"
proof -
  let ?T = "pa_TenantID i" and ?R = "pa_RequestID i"
  have fl: "\<not> fault env l" for l using h by (simp add: healthy_def)
  obtain s1 where tr: "transition_approval_request (pgNow env) ?T ?R ApprovalStateApproved (q_state_version q) s = Inr (True, s1)"
    using q by (simp add: transition_approval_request_def)
  note w = recorded_world [OF tr q(1) d]
  let ?t2 = "\<lparr>tx_db = counterAdvanced i (recordResponse i s1), tx_aborted = False\<rparr>"
  obtain b t3 where m: "mintGrant P G eng env s ?T ?R (q_user q) (q_src_node_id q) (pa_DeviceID i) (q_resource q) (q_scope q)
      (q_policy_version q) (q_rule_id q) bnd (sourceKeyEpoch s q) (authzEpochOf ?T s) ?t2 = (Inr (newUUID env ''jti'', b), t3)"
    and t3: "\<not> tx_aborted t3" "auditInv ?T (tx_db t3)" "headSeq ?T (tx_db t3) = headSeq ?T s + 1" "tenants (tx_db t3) = tenants s"
    using mintGrant_succeeds [OF h json, of ?t2 ?R "pa_DeviceID i" "q_user q" "q_resource q" r "q_scope q" "q_src_node_id q"
        "q_policy_version q" "q_rule_id q" bnd "sourceKeyEpoch s q" "authzEpochOf ?T s"] w no r
    by auto
  obtain n t4 where i4: "InsertTx P G (eng_json eng) env ''audit decision'' (decisionEvent eng env i (q_user q)) t3 = (Inr n, t4)"
    using InsertTx_succeeds [of t3 env "decisionEvent eng env i (q_user q)" ?T G "eng_json eng" P "''audit decision''"] h t3
    by (auto simp: healthy_def)
  have g: "g_jti g = newUUID env ''jti''" if "grants (tx_db t4) = grants s @ [g]" for g
    using mintGrant_jti [OF m t3(1)] that no w(1) InsertTx_world [OF i4] by (simp add: hasGrant_def)
  have "decideBody P G eng env s i q (sourceKeyEpoch s q) bnd (authzEpochOf ?T s) (beginTx s) =
      (Inr (Commit \<lparr>res_NewState = ApprovalStateGranted, res_GrantJTI = Some (newUUID env ''jti''), res_AGTBytes = b\<rparr>), t4)"
    using tr m i4 fl dec
    by (simp add: decideBody_def step_def exec_def ignoring_def decidedState_def advanceDeviceCounter_def beginTx_def
        counterAdvanced_def split_beta)
  then show ?thesis using InsertTx_Inr(3) [OF i4] g by (rule that)
qed

lemma ProcessApproval_succeeds:
  assumes "healthy P G eng env (pa_TenantID i) s" and "approvable P eng i s" and "pa_Decision i = DecisionApprove"
    and "\<not> hasGrant (pa_TenantID i) (pa_RequestID i) s" and "jsonb_in G [] \<noteq> None"
  shows "\<exists>b s'. ProcessApproval P G eng env i s
             = (Inr \<lparr>res_NewState = ApprovalStateGranted, res_GrantJTI = Some (newUUID env ''jti''), res_AGTBytes = b\<rparr>, s') \<and>
           (\<exists>q'. findRequest (pa_TenantID i) (pa_RequestID i) s' = Some q' \<and> q_state q' = ApprovalStateGranted) \<and>
           (\<exists>g. grants s' = grants s @ [g] \<and> g_jti g = newUUID env ''jti'' \<and> g_request g = pa_RequestID i)"
proof -
  let ?T = "pa_TenantID i" and ?R = "pa_RequestID i"
  from assms(2) obtain q d r bnd where q: "findRequest ?T ?R s = Some q" "q_state q = ApprovalStatePending"
    and d: "findDevice ?T (pa_DeviceID i) s = Some d" "VerifyApprovalResponse P (pa_SignedResponse i) (dv_approval_auth_pub d) = Inr ()"
      "dv_counter d < ar_DeviceCounter (pa_SignedResponse i)"
    and bnd: "(if q_binding q \<noteq> []
            then DecodeCanonical (decModeOK (ec_cose (eng_codec eng))) (unmarshal_Binding (eng_codec eng)) (q_binding q)
            else Inr emptyBinding) = Inr bnd"
    and r: "userExists ?T (q_user q) s" "findResource ?T (q_resource q) s = Some r" "nodeExists ?T (r_protected_node_id r) s"
      "MaxGrantTTL (q_scope q) (r_sensitivity r) \<noteq> 0"
    unfolding approvable_def by (elim exE conjE)
  obtain b t where dec: "decideBody P G eng env s i q (sourceKeyEpoch s q) bnd (authzEpochOf ?T s) (beginTx s) =
       (Inr (Commit \<lparr>res_NewState = ApprovalStateGranted, res_GrantJTI = Some (newUUID env ''jti''), res_AGTBytes = b\<rparr>), t)"
    and t: "\<not> tx_aborted t" "\<And>g. grants (tx_db t) = grants s @ [g] \<Longrightarrow> g_jti g = newUUID env ''jti''"
    by (rule approval_body_succeeds [OF assms(1,5,3,4) q d(1,3) r]) blast
  have fl: "\<not> fault env l" for l using assms(1) by (simp add: healthy_def)
  have v: "VerifyApprovalResponse P (pa_SignedResponse i) (verificationKey i d) = Inr ()"
    using d(2) assms(3) by (simp add: verificationKey_def)
  have "processBody P G eng env s i (beginTx s) =
      (Inr (Commit \<lparr>res_NewState = ApprovalStateGranted, res_GrantJTI = Some (newUUID env ''jti''), res_AGTBytes = b\<rparr>), t)"
    using q d bnd fl v dec by (simp add: processBody_def step_def query_def Let_def del: if_split)
  then have run: "ProcessApproval P G eng env i s =
      (Inr \<lparr>res_NewState = ApprovalStateGranted, res_GrantJTI = Some (newUUID env ''jti''), res_AGTBytes = b\<rparr>, tx_db t)"
    using fl assms(1) t(1) by (simp add: ProcessApproval_def runTx_def commitTx_def healthy_def)
  have c: "decisionCommitted P G eng env i s q d (tx_db t)"
    by (rule decideBody_committed [OF dec t(1) q d(1) v d(3)])
  then obtain g where g: "grants (tx_db t) = grants s @ [g]" "issuedFor eng i s q g"
    using assms(3,4) by (auto simp: decisionCommitted_def grantAdded_def)
  show ?thesis
    using run g t(2) [OF g(1)] decisionCommitted_findRequest(1) [OF c] assms(3) by (auto simp: finalState_def issuedFor_def)
qed








section \<open>Concrete runs\<close>

definition demo_engine :: engine where
  "demo_engine =
     \<lparr>eng_SignRequest = (\<lambda>p. Some ([5], p\<lparr>rp_Ver := 2\<rparr>)), eng_SignGrant = (\<lambda>p. Some ([6], p\<lparr>agt_Ver := 2\<rparr>)),
      eng_codec = demo_codec ''dnivio-agt-v2'' demo_req, eng_json = demo_json, eng_detail = (\<lambda>d. [7])\<rparr>"

definition demo_request :: request_row where
  "demo_request =
     \<lparr>q_id = 9, q_tenant = 1, q_user = 2, q_device = Some 3, q_node = 4, q_src_node_id = ''n'', q_requesting_ip = ''ip'',
      q_resource = 5, q_protocol = ''TCP'', q_ssh_account = [], q_scope = ScopeRequest, q_binding = [], q_challenge = [1],
      q_envelope = [2], q_envelope_sig = [], q_policy_version = 1, q_rule_id = ''r'', q_state = ApprovalStatePending,
      q_state_version = 0, q_response_decision = None, q_response_sig = [], q_response_key_id = [],
      q_device_counter = None, q_response_nonce = [], q_poll_cap_hash = [], q_redeem_cap_hash = [],
      q_expires_at = 0, q_decided_at = None\<rparr>"

definition demo_db :: db where
  "demo_db = emptyDb\<lparr>tenants := [1],
     users := [\<lparr>u_tenant = 1, u_id = 2, u_issuer = ''iss'', u_subject = ''sub''\<rparr>],
     devices := [\<lparr>dv_tenant = 1, dv_id = 3, dv_user = 2, dv_device_auth_pub = replicate 32 10,
        dv_approval_auth_pub = replicate 32 11,
        dv_attestation = [], dv_security_level = ''TEE'', dv_counter = 0, dv_state = ''ENROLLED'', dv_revoked_at = None\<rparr>],
     nodes := [\<lparr>n_tenant = 1, n_id = 4, n_ts_stable_node_id = ''n'', n_tailnet_id = ''t'', n_cert_serial = ''dnivio-4'',
       n_cert_state = ''ACTIVE'', n_node_key_epoch = 1\<rparr>],
     resources := [\<lparr>r_tenant = 1, r_id = 5, r_protected_node_id = 4, r_service_id = ''svc'', r_port = 22,
        r_transport = ''TCP'', r_deployment_mode = ''OPENSSH'', r_sensitivity = ''HIGH'', r_display_label = None\<rparr>],
     approval_requests := [demo_request]\<rparr>"

definition demo_answer :: "bytes \<Rightarrow> int \<Rightarrow> ApprovalResponse" where
  "demo_answer key c =
    (let r = \<lparr>ar_RequestID = 9, ar_Decision = DecisionApprove, ar_DeviceID = 3, ar_KeyID = ''k'', ar_SignedAt = 0,
              ar_DeviceCounter = c, ar_ChannelBinding = [], ar_ResponseNonce = [2], ar_RequestHash = [1],
              ar_Signature = []\<rparr>
     in r\<lparr>ar_Signature := key @ approval_toSign r\<rparr>)"

definition demo_decide :: "Decision \<Rightarrow> ProcessApprovalInput" where
  "demo_decide dec = \<lparr>pa_TenantID = 1, pa_RequestID = 9, pa_DeviceID = 3, pa_Decision = dec,
     pa_SignedResponse = demo_answer (if dec = DecisionApprove then replicate 32 11 else replicate 32 10) 1\<rparr>"

lemma demo_answer_ok [simp]:
  "length k = 32 \<Longrightarrow> VerifyApprovalResponse demo_prims (demo_answer k c) k = Inr ()" "ar_DeviceCounter (demo_answer k c) = c"
  by (simp_all add: demo_answer_def approval_toSign_def Let_def VerifyApprovalResponse_def ed25519_PublicKeySize_def)

abbreviation demo_healthy_env :: svc_env where "demo_healthy_env \<equiv> demo_svc (100 * second)"

lemma demo_engine_signs: "signsFaithfully (eng_SignGrant demo_engine)"
  by (simp add: signsFaithfully_def demo_engine_def)

lemma demo_healthy: "healthy demo_prims demo_pg demo_engine demo_healthy_env 1 demo_db"
  unfolding healthy_def using demo_engine_signs
  by (auto simp: demo_engine_def demo_json_def storable_def eventBytes_def sqlBytes_def demo_db_def emptyDb_def isZero_def
      second_def auditInv_def headSeq_def findHead_def tenantEvents_def outboxInv_def queueOf_def)

lemma demo_approvable: "approvable demo_prims demo_engine (demo_decide DecisionApprove) demo_db"
  by (simp add: approvable_def findRequest_def isRequest_def demo_db_def demo_request_def demo_decide_def findDevice_def
      isDevice_def userExists_def findResource_def nodeExists_def MaxGrantTTL_def second_def)

text \<open>The run of the concrete approval, and of a consumption of a grant.\<close>

lemma demo_no_grant: "\<not> hasGrant T R demo_db"
  by (simp add: hasGrant_def demo_db_def emptyDb_def)

lemma demo_decide_sel [simp]:
  "pa_TenantID (demo_decide dec) = 1" "pa_RequestID (demo_decide dec) = 9" "pa_DeviceID (demo_decide dec) = 3"
  "pa_Decision (demo_decide dec) = dec"
  by (simp_all add: demo_decide_def)

lemma demo_approved:
  obtains r s' q where
    "ProcessApproval demo_prims demo_pg demo_engine demo_healthy_env (demo_decide DecisionApprove) demo_db = (r, s')" "s' \<noteq> demo_db"
    "findRequest 1 9 s' = Some q" "q_state q = ApprovalStateGranted"
proof -
  obtain b s' q' where run: "ProcessApproval demo_prims demo_pg demo_engine demo_healthy_env (demo_decide DecisionApprove) demo_db
       = (Inr \<lparr>res_NewState = ApprovalStateGranted, res_GrantJTI = Some 77, res_AGTBytes = b\<rparr>, s')"
    and q': "findRequest 1 9 s' = Some q'" "q_state q' = ApprovalStateGranted"
    using ProcessApproval_succeeds [OF _ demo_approvable, of demo_pg demo_healthy_env] demo_healthy demo_no_grant by fastforce
  have "findRequest 1 9 demo_db = Some demo_request" "q_state demo_request = ApprovalStatePending"
    by (simp_all add: findRequest_def demo_db_def demo_request_def isRequest_def)
  then have "s' \<noteq> demo_db" using q' by auto
  with run q' show thesis using that by blast
qed






theorem signing_failure_discards_approval_witness:
  "snd (ProcessApproval demo_prims demo_pg (demo_engine\<lparr>eng_SignGrant := (\<lambda>p. None)\<rparr>) demo_healthy_env
      (demo_decide DecisionApprove) demo_db) = demo_db"
proof -
  obtain r s' where run: "ProcessApproval demo_prims demo_pg (demo_engine\<lparr>eng_SignGrant := (\<lambda>p. None)\<rparr>) demo_healthy_env
      (demo_decide DecisionApprove) demo_db = (r, s')" by fastforce
  from signing_failure_discards_approval [OF _ _ run] run show ?thesis by simp
qed

theorem ProcessApproval_authorized_witness:
  "\<exists>q d. findRequest 1 9 demo_db = Some q \<and> findDevice 1 3 demo_db = Some d \<and>
     VerifyApprovalResponse demo_prims (pa_SignedResponse (demo_decide DecisionApprove)) (dv_approval_auth_pub d) = Inr ()"
proof -
  obtain r s' where run: "ProcessApproval demo_prims demo_pg demo_engine demo_healthy_env (demo_decide DecisionApprove) demo_db = (r, s')"
    and ne: "s' \<noteq> demo_db" by (rule demo_approved)
  from ProcessApproval_authorized [OF run ne] show ?thesis by auto
qed

theorem decided_request_final_witness:
  "\<exists>s s' q. engine_run demo_prims demo_pg demo_engine s s' \<and> s \<noteq> demo_db \<and>
     findRequest 1 9 s' = Some q \<and> q_state q = ApprovalStateGranted"
proof -
  obtain r s' q where s': "s' \<noteq> demo_db" "findRequest 1 9 s' = Some q" "q_state q = ApprovalStateGranted"
    by (rule demo_approved)
  obtain s2 r2 where "CancelApprovalRequest demo_prims demo_pg demo_engine demo_healthy_env 1 9 4 ''late'' s' = (r2, s2)" by fastforce
  then have run: "engine_run demo_prims demo_pg demo_engine s' s2" by (intro r_into_rtranclp) (rule engine_step.cancel)
  from decided_request_final [OF run s'(2)] s' run show ?thesis by auto
qed

theorem replayed_response_rejected_witness:
  "\<exists>s r. s \<noteq> demo_db \<and>
     ProcessApproval demo_prims demo_pg demo_engine demo_healthy_env (demo_decide DecisionApprove) s = (r, s)"
proof -
  obtain r s' where run: "ProcessApproval demo_prims demo_pg demo_engine demo_healthy_env (demo_decide DecisionApprove) demo_db = (r, s')"
    and ne: "s' \<noteq> demo_db" by (rule demo_approved)
  obtain r2 s2 where again: "ProcessApproval demo_prims demo_pg demo_engine demo_healthy_env (demo_decide DecisionApprove) s' = (r2, s2)"
    by fastforce
  from replayed_response_rejected [OF run ne rtranclp.rtrancl_refl again] ne again show ?thesis by auto
qed

theorem engine_invariant_witness:
  "\<exists>s'. engineInv s' \<and> (\<exists>q. findRequest 1 9 s' = Some q \<and> q_state q = ApprovalStateGranted)"
proof -
  obtain r s' q where run: "ProcessApproval demo_prims demo_pg demo_engine demo_healthy_env (demo_decide DecisionApprove) demo_db = (r, s')"
    and q: "findRequest 1 9 s' = Some q" "q_state q = ApprovalStateGranted" by (rule demo_approved)
  have "engineInv demo_db"
    by (simp add: engineInv_def demo_db_def emptyDb_def demo_request_def hasGrant_def)
  moreover have "engine_run demo_prims demo_pg demo_engine demo_db s'"
    by (rule r_into_rtranclp) (rule engine_step.process [OF run])
  ultimately show ?thesis using engine_invariant q by blast
qed

theorem approve_needs_empty_json_witness:
  "snd (ProcessApproval demo_prims (demo_pg\<lparr>jsonb_in := (\<lambda>b. if b = [] then None else Some b)\<rparr>) demo_engine demo_healthy_env
      (demo_decide DecisionApprove) demo_db) = demo_db"
proof -
  obtain r s' where run: "ProcessApproval demo_prims (demo_pg\<lparr>jsonb_in := (\<lambda>b. if b = [] then None else Some b)\<rparr>) demo_engine demo_healthy_env
      (demo_decide DecisionApprove) demo_db = (r, s')" by fastforce
  from approve_needs_empty_json [OF _ _ run] run show ?thesis by simp
qed

theorem cancel_never_takes_effect_witness:
  "snd (CancelApprovalRequest demo_prims demo_pg demo_engine demo_healthy_env 1 9 4 ''user'' demo_db) = demo_db"
proof -
  have "findRequest 1 9 demo_db = Some demo_request" "q_state demo_request = ApprovalStatePending"
    by (simp_all add: findRequest_def demo_db_def demo_request_def isRequest_def)
  from cancel_never_takes_effect [OF _ this] show ?thesis by simp
qed

definition demo_grant :: grant_row where
  "demo_grant = (grantRow demo_agt 7 1 9 2 ''n'' 4 5 [6])"

definition demo_granted_db :: db where
  "demo_granted_db = demo_db\<lparr>approval_requests := [demo_request\<lparr>q_state := ApprovalStateGranted\<rparr>], grants := [demo_grant]\<rparr>"

lemma demo_service_consume: "ConsumeGrant demo_healthy_env 1 7 demo_granted_db
    = (Inl NilTransactionPanic, demo_granted_db\<lparr>grants := [demo_grant\<lparr>g_consumed_at := Some (100 * second)\<rparr>]\<rparr>)"
  by (simp add: ConsumeGrant_def autocommit_def consume_grant_def demo_granted_db_def demo_grant_def grantRow_def demo_agt_def isGrant_def
      updateWhere_def second_def)

theorem ConsumeGrant_once_witness:
  "ConsumeGrant demo_healthy_env 1 7 (demo_granted_db\<lparr>grants := [demo_grant\<lparr>g_consumed_at := Some (100 * second)\<rparr>]\<rparr>)
     = (Inr False, demo_granted_db\<lparr>grants := [demo_grant\<lparr>g_consumed_at := Some (100 * second)\<rparr>]\<rparr>)"
proof -
  let ?s = "demo_granted_db\<lparr>grants := [demo_grant\<lparr>g_consumed_at := Some (100 * second)\<rparr>]\<rparr>"
  have "map g_consumed_at (grants ?s) \<noteq> map g_consumed_at (grants demo_granted_db)"
    by (simp add: demo_granted_db_def demo_grant_def grantRow_def)
  then have ne: "?s \<noteq> demo_granted_db" by metis
  obtain r s3 where again: "ConsumeGrant demo_healthy_env 1 7 ?s = (r, s3)" by fastforce
  from ConsumeGrant_once [OF demo_service_consume ne rtranclp.rtrancl_refl again] have "s3 = ?s" "r = Inr False \<or> (\<exists>e. r = Inl (ConsumeGrantError e))"
    by blast+
  moreover from again have "r \<noteq> Inl (ConsumeGrantError e)" for e
    by (auto simp: ConsumeGrant_def autocommit_def reject_def split: if_splits prod.splits)
  ultimately show ?thesis using again by auto
qed

end
