(* ===== verification/ServiceMain.thy ===== *)
theory ServiceMain
  imports KeyManager WireCodec ApprovalSuccess
begin

text \<open>
  \<open>service/internal/config/config.go\<close> and \<open>service/cmd/approval-service/main.go\<close>: the configuration
  with its defaults and its validation, the start of the service up to its servers, and the adapters
  through which the approval engine signs with the key manager. Environment variables, files, the SQL
  drivers linked into the binary and the JSON decoder are arguments. The last section composes the
  parts: what the engine mints, a daemon accepts.
\<close>

section \<open>Configuration\<close>

record ServiceConfig =
  sc_ListenAddr :: string
  sc_HTTPListenAddr :: string
  sc_MaxDaemons :: int
  sc_MaxApprovers :: int

record DatabaseConfig =
  dc_Host :: string
  dc_Port :: int
  dc_Database :: string
  dc_User :: string
  dc_PasswordFile :: string
  dc_MaxConns :: int
  dc_MinConns :: int
  dc_MaxIdleTime :: duration
  dc_ConnectTimeout :: duration
  dc_SSLMode :: string

record VaultConfig =
  vc_Addr :: string
  vc_TokenFile :: string
  vc_TransitPath :: string
  vc_KeyPrefix :: string
  vc_RequestTimeout :: duration
  vc_MaxRetries :: int

record CryptoConfig =
  cc_RootPubKeyFile :: string
  cc_RootSigFile :: string

record ValkeyConfig =
  yc_Addrs :: "string list"
  yc_PasswordFile :: string
  yc_DB :: int
  yc_MaxRetries :: int
  yc_DialTimeout :: duration

record OIDCIssuer =
  oi_IssuerURL :: string
  oi_ClientID :: string
  oi_ClientSecretFile :: string

record OIDCConfig =
  oc_AllowedIssuers :: "OIDCIssuer list"
  oc_RedirectBaseURL :: string
  oc_SessionDuration :: duration
  oc_EnrollmentTicketTTL :: duration

record AuditConfig =
  ac_CheckpointInterval :: int
  ac_CheckpointMaxEvents :: int
  ac_S3Endpoint :: string
  ac_S3Bucket :: string
  ac_S3Region :: string
  ac_ObjectLockEnabled :: bool
  ac_OnlineRetentionDays :: int
  ac_ImmutableRetentionYears :: int

record RateLimitConfig =
  rl_Enabled :: bool
  rl_ApprovalsPerMinuteUser :: int
  rl_ApprovalsPerMinuteSrcNode :: int
  rl_ApprovalsPerMinuteProtectedNode :: int
  rl_ApprovalsPerMinuteTenant :: int
  rl_MaxPendingPerUser :: int
  rl_MaxPromptsPerMinuteDevice :: int
  rl_MaxPendingConnectionsResource :: int
  rl_MaxPendingConnectionsNode :: int
  rl_MaxPreApprovalBytes :: int
  rl_MaxPreApprovalMemoryNode :: int

record EnforcementConfig =
  fc_RevocationFreshnessBound :: duration
  fc_PolicyMaxOfflineAge :: duration
  fc_PolicyRefreshInterval :: duration
  fc_RequestTTL :: duration
  fc_BackendProbeInterval :: duration
  fc_FirewallVerifyInterval :: duration

text \<open>The sample rate is the bit pattern of its \<open>float64\<close>; the service never computes with it.\<close>

record ObservabilityConfig =
  bc_OTelExporterEndpoint :: string
  bc_LogLevel :: string
  bc_LogFormat :: string
  bc_MetricsPort :: int
  bc_TracingSampleRate :: "64 word"

record Config =
  cf_Version :: int
  cf_Service :: ServiceConfig
  cf_Database :: DatabaseConfig
  cf_Vault :: VaultConfig
  cf_Crypto :: CryptoConfig
  cf_Valkey :: ValkeyConfig
  cf_OIDC :: OIDCConfig
  cf_Audit :: AuditConfig
  cf_RateLimit :: RateLimitConfig
  cf_Enforcement :: EnforcementConfig
  cf_Observability :: ObservabilityConfig

definition DefaultConfig :: Config where
  "DefaultConfig =
     \<lparr>cf_Version = 1,
      cf_Service = \<lparr>sc_ListenAddr = '':8443'', sc_HTTPListenAddr = '':8444'', sc_MaxDaemons = 10000,
        sc_MaxApprovers = 100000\<rparr>,
      cf_Database = \<lparr>dc_Host = ''localhost'', dc_Port = 5432, dc_Database = ''dnivio'', dc_User = ''dnivio_app'',
        dc_PasswordFile = [], dc_MaxConns = 200, dc_MinConns = 20, dc_MaxIdleTime = 5 * minute,
        dc_ConnectTimeout = 10 * second, dc_SSLMode = ''require''\<rparr>,
      cf_Vault = \<lparr>vc_Addr = [], vc_TokenFile = [], vc_TransitPath = [], vc_KeyPrefix = [], vc_RequestTimeout = 0,
        vc_MaxRetries = 0\<rparr>,
      cf_Crypto = \<lparr>cc_RootPubKeyFile = [], cc_RootSigFile = []\<rparr>,
      cf_Valkey = \<lparr>yc_Addrs = [], yc_PasswordFile = [], yc_DB = 0, yc_MaxRetries = 0, yc_DialTimeout = 0\<rparr>,
      cf_OIDC = \<lparr>oc_AllowedIssuers = [], oc_RedirectBaseURL = [], oc_SessionDuration = 0, oc_EnrollmentTicketTTL = 0\<rparr>,
      cf_Audit = \<lparr>ac_CheckpointInterval = 60, ac_CheckpointMaxEvents = 10000, ac_S3Endpoint = [], ac_S3Bucket = [],
        ac_S3Region = [], ac_ObjectLockEnabled = True, ac_OnlineRetentionDays = 400, ac_ImmutableRetentionYears = 7\<rparr>,
      cf_RateLimit = \<lparr>rl_Enabled = True, rl_ApprovalsPerMinuteUser = 20, rl_ApprovalsPerMinuteSrcNode = 60,
        rl_ApprovalsPerMinuteProtectedNode = 300, rl_ApprovalsPerMinuteTenant = 1000, rl_MaxPendingPerUser = 5,
        rl_MaxPromptsPerMinuteDevice = 3, rl_MaxPendingConnectionsResource = 100,
        rl_MaxPendingConnectionsNode = 10000, rl_MaxPreApprovalBytes = 65536, rl_MaxPreApprovalMemoryNode = 268435456\<rparr>,
      cf_Enforcement = \<lparr>fc_RevocationFreshnessBound = 10 * second, fc_PolicyMaxOfflineAge = 5 * minute,
        fc_PolicyRefreshInterval = 30 * second, fc_RequestTTL = 60 * second, fc_BackendProbeInterval = 30 * second,
        fc_FirewallVerifyInterval = 1 * second\<rparr>,
      cf_Observability = \<lparr>bc_OTelExporterEndpoint = [], bc_LogLevel = ''info'', bc_LogFormat = ''json'',
        bc_MetricsPort = 9090, bc_TracingSampleRate = 0x3FB999999999999A\<rparr>\<rparr>"

datatype config_error =
    UnsupportedVersion int
  | ListenAddrRequired
  | DatabaseHostRequired
  | FreshnessBoundTooLong
  | OfflineAgeTooLong
  | OnlineRetentionTooShort
  | ImmutableRetentionTooShort

definition Validate :: "Config \<Rightarrow> config_error + unit" where
  "Validate c =
     reject (cf_Version c \<noteq> 1) (UnsupportedVersion (cf_Version c)) (
     reject (sc_ListenAddr (cf_Service c) = []) ListenAddrRequired (
     reject (dc_Host (cf_Database c) = []) DatabaseHostRequired (
     reject (fc_RevocationFreshnessBound (cf_Enforcement c) > 10 * second) FreshnessBoundTooLong (
     reject (fc_PolicyMaxOfflineAge (cf_Enforcement c) > 5 * minute) OfflineAgeTooLong (
     reject (ac_OnlineRetentionDays (cf_Audit c) < 400) OnlineRetentionTooShort (
     reject (ac_ImmutableRetentionYears (cf_Audit c) < 7) ImmutableRetentionTooShort (
     Inr ())))))))"

datatype start_error =
    ConfigRead string
  | ConfigParse string
  | ConfigInvalid config_error
  | DbPassword
  | DbOpen
  | DbPing
  | CryptoInit key_error

text \<open>The JSON decoder fills the fields a file has into the defaults; fields it does not know it skips.\<close>

definition LoadFromFile ::
  "(bytes \<Rightarrow> Config \<Rightarrow> Config option) \<Rightarrow> (string \<Rightarrow> bytes option) \<Rightarrow> string \<Rightarrow> start_error + Config" where
  "LoadFromFile unmarshal readFile path =
     need (readFile path) (ConfigRead path) (\<lambda>data.
     need (unmarshal data DefaultConfig) (ConfigParse path) (\<lambda>cfg.
     attempt (Validate cfg) ConfigInvalid (\<lambda>u. Inr cfg)))"


section \<open>Start of the service\<close>

definition readFileIfExists :: "(string \<Rightarrow> bytes option) \<Rightarrow> string \<Rightarrow> start_error + bytes" where
  "readFileIfExists readFile path =
     (if path = [] then Inr [] else need (readFile path) DbPassword Inr)"

text \<open>What the process gets from its surroundings.\<close>

record host =
  ho_getenv :: "string \<Rightarrow> string"
  ho_readFile :: "string \<Rightarrow> bytes option"
  ho_unmarshal :: "bytes \<Rightarrow> Config \<Rightarrow> Config option"
  ho_drivers :: "string list"
  ho_dsnOK :: "bytes \<Rightarrow> bool"
  ho_ping :: "bytes \<Rightarrow> bool"
  ho_schema :: "bytes \<Rightarrow> bool"
  ho_rootPair :: "(bytes \<times> bytes) option"
  ho_now :: gotime
  ho_keyEnv :: "KeyPurpose \<Rightarrow> key_env"

record dbHandle =
  dh_dsn :: bytes
  dh_maxOpen :: int
  dh_maxIdle :: int
  dh_maxIdleTime :: duration

text \<open>
  \<open>int(d.Seconds())\<close>: the whole seconds, towards zero. The source goes through a \<open>float64\<close>, which is
  exact enough for this below 2^23 seconds.
\<close>

definition wholeSeconds :: "duration \<Rightarrow> int" where
  "wholeSeconds d = (if d < 0 then - ((- d) div second) else d div second)"

definition dsnOf :: "DatabaseConfig \<Rightarrow> bytes \<Rightarrow> bytes" where
  "dsnOf c password =
     str_bytes (''host='' @ dc_Host c @ '' port='' @ show_int (dc_Port c) @ '' dbname='' @ dc_Database c
       @ '' user='' @ dc_User c @ '' password='') @ password
     @ str_bytes ('' sslmode='' @ dc_SSLMode c @ '' connect_timeout='' @ show_int (wholeSeconds (dc_ConnectTimeout c)))"

definition initDatabase :: "host \<Rightarrow> Config \<Rightarrow> start_error + dbHandle" where
  "initDatabase H cfg =
     attempt (readFileIfExists (ho_readFile H) (dc_PasswordFile (cf_Database cfg))) (\<lambda>e. e) (\<lambda>password.
     let dsn = dsnOf (cf_Database cfg) password in
     reject (\<not> (''postgres'' \<in> set (ho_drivers H) \<and> ho_dsnOK H dsn)) DbOpen (
     reject (\<not> ho_ping H dsn) DbPing (
     Inr \<lparr>dh_dsn = dsn, dh_maxOpen = dc_MaxConns (cf_Database cfg), dh_maxIdle = dc_MinConns (cf_Database cfg),
          dh_maxIdleTime = dc_MaxIdleTime (cf_Database cfg)\<rparr>)))"

text \<open>The result is the two log lines that may be written; the function never fails.\<close>

definition runMigrations :: "host \<Rightarrow> dbHandle \<Rightarrow> start_error + bool" where
  "runMigrations H d = Inr (\<not> ho_schema H (dh_dsn d))"

definition developmentMode :: "host \<Rightarrow> bool" where
  "developmentMode H \<longleftrightarrow> ho_getenv H ''DNIVIO_DEVELOPMENT'' = ''true''"

definition rootKeyOf :: "prims \<Rightarrow> host \<Rightarrow> Config \<Rightarrow> key_error + bytes \<times> string" where
  "rootKeyOf P H cfg =
     (if cc_RootPubKeyFile (cf_Crypto cfg) \<noteq> []
      then LoadRootPubKey P (ho_readFile H) (cc_RootPubKeyFile (cf_Crypto cfg))
      else if developmentMode H
      then attempt (NewRootKey P (ho_rootPair H)) (\<lambda>e. e) (\<lambda>(pub, priv, fp). Inr (pub, fp))
      else Inl RootPubKeyRequired)"

definition rootSigned :: "prims \<Rightarrow> host \<Rightarrow> Config \<Rightarrow> 's KeyManager \<Rightarrow> (key_error + unit) \<times> 's KeyManager" where
  "rootSigned P H cfg km =
     (if cc_RootSigFile (cf_Crypto cfg) \<noteq> []
      then LoadRootSignature P (ho_readFile H) (cc_RootSigFile (cf_Crypto cfg)) km
      else if developmentMode H then (Inr (), km)
      else (Inl RootSigRequired, km))"

definition initCrypto ::
  "prims \<Rightarrow> host \<Rightarrow> Config \<Rightarrow> key_error + InMemorySigner KeyManager \<times> RootTrustAnchor \<times> InMemoryEncrypter" where
  "initCrypto P H cfg =
     attempt (NewSignerForMode (developmentMode H) (vc_Addr (cf_Vault cfg))) (\<lambda>e. e) (\<lambda>signer.
     attempt (NewEncrypterForMode (developmentMode H) (vc_Addr (cf_Vault cfg))) (\<lambda>e. e) (\<lambda>encrypter.
     attempt (rootKeyOf P H cfg) (\<lambda>e. e) (\<lambda>(rootPub, rootFP).
     case Initialize (inMemorySigner P) (ho_now H) (ho_keyEnv H) (NewKeyManager signer rootPub) of
       (Inl e, km) \<Rightarrow> Inl e
     | (Inr keySet, km) \<Rightarrow>
        (case rootSigned P H cfg km of
           (Inl e, km') \<Rightarrow> Inl e
         | (Inr u, km') \<Rightarrow> Inr (km', \<lparr>ra_PubKey = rootPub, ra_Fingerprint = rootFP\<rparr>, encrypter)))))"

record service =
  sv_config :: Config
  sv_db :: dbHandle
  sv_keyManager :: "InMemorySigner KeyManager"
  sv_anchor :: RootTrustAnchor
  sv_encrypter :: InMemoryEncrypter

text \<open>\<open>main\<close> up to the point where its servers listen; every \<open>log.Fatalf\<close> ends the process.\<close>

definition startService :: "prims \<Rightarrow> host \<Rightarrow> string \<Rightarrow> start_error + service" where
  "startService P H configPath =
     attempt (LoadFromFile (ho_unmarshal H) (ho_readFile H) configPath) (\<lambda>e. e) (\<lambda>cfg.
     attempt (initDatabase H cfg) (\<lambda>e. e) (\<lambda>d.
     attempt (runMigrations H d) (\<lambda>e. e) (\<lambda>missing.
     attempt (initCrypto P H cfg) CryptoInit (\<lambda>(keyManager, rootAnchor, encrypter).
     Inr \<lparr>sv_config = cfg, sv_db = d, sv_keyManager = keyManager, sv_anchor = rootAnchor, sv_encrypter = encrypter\<rparr>))))"


section \<open>Health and status\<close>

text \<open>
  A reply is the status code and the fields of the JSON object, in the order the encoder writes the keys of
  a Go map: sorted. Whether the database answers within two seconds is \<open>ho_ping\<close> at the time of the call.
\<close>

definition healthHandler :: "host \<Rightarrow> dbHandle \<Rightarrow> int \<times> (string \<times> string) list" where
  "healthHandler H d =
     (if \<not> ho_ping H (dh_dsn d)
      then (503, [(''error'', ''database unreachable''), (''status'', ''unhealthy'')])
      else (200, [(''spec'', ''ENGINEERING.md v2.1''), (''status'', ''healthy''), (''version'', ''2.1.0'')]))"

definition service_statusHandler :: "int \<times> (string \<times> string) list" where
  "service_statusHandler = (200, [(''status'', ''operational''), (''uptime'', ''0s'')])"


section \<open>The servers\<close>

text \<open>
  What the two servers answer. The multiplexer has two patterns without a trailing slash, which match
  just their path (paths are taken in the canonical form to which it redirects others); the calls that
  would register the gRPC services are comments.
\<close>

definition serviceHTTP :: "host \<Rightarrow> service \<Rightarrow> string \<Rightarrow> int \<times> (string \<times> string) list" where
  "serviceHTTP H sv path =
    (if path = ''/health'' then healthHandler H (sv_db sv)
     else if path = ''/v1/status'' then service_statusHandler
     else (404, []))"

definition registeredServices :: "string list" where
  "registeredServices = []"

datatype rpc_reply = Unimplemented | Handled

definition serviceRPC :: "string \<Rightarrow> rpc_reply" where
  "serviceRPC name = (if list_ex (\<lambda>s. s = name) registeredServices then Handled else Unimplemented)"

text \<open>
  The life of the process after start-up: the goroutines of the servers get to listening, each in its
  own time, and a signal ends \<open>main\<close>. \<open>listen\<close> is whether the system lets an address be listened on, which
  it does not while the process already does (\<open>held\<close>).
\<close>

datatype service_event = GRPCGoroutine | HTTPGoroutine | QuitSignal

datatype service_end = Serving | ListenFailed string | Stopped

fun serviceLife :: "(string \<Rightarrow> bool) \<Rightarrow> ServiceConfig \<Rightarrow> service_event list \<Rightarrow> string list \<Rightarrow> service_end" where
  "serviceLife listen cfg [] held = Serving"
| "serviceLife listen cfg (GRPCGoroutine # evs) held =
     (let a = sc_ListenAddr cfg
      in if a \<in> set held \<or> \<not> listen a then ListenFailed a else serviceLife listen cfg evs (a # held))"
| "serviceLife listen cfg (HTTPGoroutine # evs) held =
     (let a = sc_HTTPListenAddr cfg
      in if a \<in> set held \<or> \<not> listen a then ListenFailed a else serviceLife listen cfg evs (a # held))"
| "serviceLife listen cfg (QuitSignal # evs) held = Stopped"


section \<open>Signing adapters\<close>

text \<open>
  An adapter takes the key manager's lock twice, for the kid and for the signature, so the manager may
  differ between the two: \<open>km1\<close> and \<open>km2\<close>. The three instants are those of the payload's defaults and
  of the two \<open>IsActive\<close> checks. A payload is updated in place; the result carries it.
\<close>

definition keyManagerAuditSigner_Sign ::
  "'s Signer \<Rightarrow> gotime \<Rightarrow> bytes \<Rightarrow> 's KeyManager \<Rightarrow> key_error + bytes \<times> string" where
  "keyManagerAuditSigner_Sign S now message km = SignWithPurpose S now PurposeAuditCheckpoint message km"

definition SignRequest ::
  "prims \<Rightarrow> env_codec \<Rightarrow> 's Signer \<Rightarrow> gotime \<times> gotime \<times> gotime \<Rightarrow> 's KeyManager \<Rightarrow> 's KeyManager \<Rightarrow> RequestPayload
     \<Rightarrow> key_error + bytes \<times> RequestPayload" where
  "SignRequest P E S ts km1 km2 payload =
    (case ts of (t0, t1, t2) \<Rightarrow>
     attempt (PrepareRequestPayload P E t0 payload) PreparePayload (\<lambda>(payloadBytes, payload').
     attempt (GetPubKey t1 PurposeRequestSig km1) (\<lambda>e. e) (\<lambda>(pub, kid).
     attempt (BuildSigStructure (ec_cose E) kid ''dnivio-req-v2'' payloadBytes []) BuildSigStructureFailed
       (\<lambda>(sigStructBytes, pb, h).
     attempt (SignWithPurpose S t2 PurposeRequestSig sigStructBytes km2) (SignFailed PurposeRequestSig)
       (\<lambda>(signature, kid2).
     attempt (Sign1WithSignature (ec_cose E) kid ''dnivio-req-v2'' payloadBytes [] signature) AssembleSign1 (\<lambda>msg.
     attempt (SerializeSign1 (ec_cose E) msg) SerializeFailed (\<lambda>raw. Inr (raw, payload'))))))))"

definition SignGrant ::
  "prims \<Rightarrow> env_codec \<Rightarrow> 's Signer \<Rightarrow> gotime \<times> gotime \<times> gotime \<Rightarrow> 's KeyManager \<Rightarrow> 's KeyManager \<Rightarrow> AGTPayload
     \<Rightarrow> key_error + bytes \<times> AGTPayload" where
  "SignGrant P E S ts km1 km2 payload =
    (case ts of (t0, t1, t2) \<Rightarrow>
     attempt (PrepareAGTPayload E t0 payload) PreparePayload (\<lambda>(payloadBytes, payload').
     attempt (GetPubKey t1 PurposeGrantSig km1) (\<lambda>e. e) (\<lambda>(pub, kid).
     attempt (BuildSigStructure (ec_cose E) kid ''dnivio-agt-v2'' payloadBytes []) BuildSigStructureFailed
       (\<lambda>(sigStructBytes, pb, h).
     attempt (SignWithPurpose S t2 PurposeGrantSig sigStructBytes km2) (SignFailed PurposeGrantSig)
       (\<lambda>(signature, kid2).
     attempt (Sign1WithSignature (ec_cose E) kid ''dnivio-agt-v2'' payloadBytes [] signature) AssembleSign1 (\<lambda>msg.
     attempt (SerializeSign1 (ec_cose E) msg) SerializeFailed (\<lambda>raw. Inr (raw, payload'))))))))"

text \<open>The engine as \<open>main\<close> wires it: an adapter's error is all the engine sees of a failed signature.\<close>

definition okOf :: "'e + 'a \<Rightarrow> 'a option" where
  "okOf r = (case r of Inl e \<Rightarrow> None | Inr x \<Rightarrow> Some x)"

lemma okOf_Some [simp]: "okOf r = Some x \<longleftrightarrow> r = Inr x"
  by (cases r) (simp_all add: okOf_def)

definition wiredEngine ::
  "prims \<Rightarrow> env_codec \<Rightarrow> audit_json \<Rightarrow> (event_detail \<Rightarrow> bytes) \<Rightarrow> 's Signer \<Rightarrow> gotime \<times> gotime \<times> gotime
     \<Rightarrow> 's KeyManager \<Rightarrow> 's KeyManager \<Rightarrow> engine" where
  "wiredEngine P E J detail S ts km1 km2 =
     \<lparr>eng_SignRequest = (\<lambda>p. okOf (SignRequest P E S ts km1 km2 p)),
      eng_SignGrant = (\<lambda>p. okOf (SignGrant P E S ts km1 km2 p)),
      eng_codec = E, eng_json = J, eng_detail = detail\<rparr>"

section \<open>What a configuration that loads has\<close>

lemma Validate_Inr:
  "Validate c = Inr () \<longleftrightarrow>
     cf_Version c = 1 \<and> sc_ListenAddr (cf_Service c) \<noteq> [] \<and> dc_Host (cf_Database c) \<noteq> [] \<and>
     fc_RevocationFreshnessBound (cf_Enforcement c) \<le> 10 * second \<and>
     fc_PolicyMaxOfflineAge (cf_Enforcement c) \<le> 5 * minute \<and>
     400 \<le> ac_OnlineRetentionDays (cf_Audit c) \<and> 7 \<le> ac_ImmutableRetentionYears (cf_Audit c)"
  by (auto simp: Validate_def not_less)

lemma DefaultConfig_valid: "Validate DefaultConfig = Inr ()"
  by (simp add: Validate_Inr DefaultConfig_def)

text \<open>
  Exactly which files load, and as what: those that can be read and decoded onto the defaults into
  a configuration of version 1 with a listen address and a database host, a revocation freshness bound
  of at most ten seconds, a policy offline age of at most five minutes and the retention minima. An
  empty object therefore loads as the defaults.
\<close>

theorem LoadFromFile_accepts_iff:
  "LoadFromFile unmarshal readFile path = Inr cfg \<longleftrightarrow>
     (\<exists>data. readFile path = Some data \<and> unmarshal data DefaultConfig = Some cfg) \<and>
     cf_Version cfg = 1 \<and> sc_ListenAddr (cf_Service cfg) \<noteq> [] \<and> dc_Host (cf_Database cfg) \<noteq> [] \<and>
     fc_RevocationFreshnessBound (cf_Enforcement cfg) \<le> 10 * second \<and>
     fc_PolicyMaxOfflineAge (cf_Enforcement cfg) \<le> 5 * minute \<and>
     400 \<le> ac_OnlineRetentionDays (cf_Audit cfg) \<and> 7 \<le> ac_ImmutableRetentionYears (cf_Audit cfg)"
proof -
  have "LoadFromFile unmarshal readFile path = Inr cfg \<longleftrightarrow>
      (\<exists>data. readFile path = Some data \<and> unmarshal data DefaultConfig = Some cfg \<and> Validate cfg = Inr ())"
    by (auto simp: LoadFromFile_def)
  then show ?thesis unfolding Validate_Inr by auto
qed


section \<open>What a started service has\<close>

text \<open>Without the development switch neither the signer nor the encrypter can be made.\<close>

lemma initCrypto_production: "\<not> developmentMode H \<Longrightarrow> initCrypto P H cfg \<noteq> Inr x"
  by (simp add: initCrypto_def NewSignerForMode_def)

lemma initLoop_root: "initLoop S env ps ks km = (r, km') \<Longrightarrow> km_rootPubKey km' = km_rootPubKey km"
  by (induction S env ps ks km rule: initLoop.induct) (auto split: prod.splits sum.splits)

lemma Initialize_root:
  "Initialize S now env (NewKeyManager sg root) = (Inr ks, km) \<Longrightarrow> km_rootPubKey km = root"
  by (auto simp: Initialize_def NewKeyManager_def dest: initLoop_root split: prod.splits sum.splits)

lemma initCrypto_Inr:
  assumes "initCrypto P H cfg = Inr (km, anchor, enc)"
  obtains ks0 km0 where "developmentMode H" "enc = NewInMemoryEncrypter"
    "Initialize (inMemorySigner P) (ho_now H) (ho_keyEnv H) (NewKeyManager NewInMemorySigner (ra_PubKey anchor)) = (Inr ks0, km0)"
    "rootSigned P H cfg km0 = (Inr (), km)"
proof -
  have dev: "developmentMode H" using assms initCrypto_production by blast
  with assms obtain rootPub fp where "rootKeyOf P H cfg = Inr (rootPub, fp)"
    and c: "(case Initialize (inMemorySigner P) (ho_now H) (ho_keyEnv H) (NewKeyManager NewInMemorySigner rootPub) of
       (Inl e, km) \<Rightarrow> Inl e
     | (Inr keySet, km) \<Rightarrow>
        (case rootSigned P H cfg km of
           (Inl e, km') \<Rightarrow> Inl e
         | (Inr u, km') \<Rightarrow> Inr (km', \<lparr>ra_PubKey = rootPub, ra_Fingerprint = fp\<rparr>, NewInMemoryEncrypter)))
      = (Inr (km, anchor, enc) :: key_error + _)"
    by (auto simp: initCrypto_def NewSignerForMode_def NewEncrypterForMode_def)
  from c that dev show ?thesis by (auto split: prod.splits sum.splits)
qed

lemma SetRootSignature_Inr:
  "SetRootSignature P sig km = (Inr (), km') \<longleftrightarrow>
     (\<exists>ks. km_activeKeys km = Some ks \<and> VerifyKeySetSignature P (km_rootPubKey km) ks sig \<and>
        km' = km\<lparr>km_activeKeys := Some (ks\<lparr>ks_RootSig := sig\<rparr>)\<rparr>)"
  by (auto simp: SetRootSignature_def verifyRootSig_def VerifyKeySetSignature_def reject_def
      split: option.splits sum.splits)

text \<open>
  A service that reached its servers runs in development mode on a binary with the PostgreSQL
  driver and a validated configuration; its encrypter is empty; and if a root signature file was
  configured, the key set carries that signature and it verifies under the anchor.
\<close>

theorem started_service:
  assumes "startService P H path = Inr sv"
  shows "developmentMode H \<and> ''postgres'' \<in> set (ho_drivers H) \<and>
    Validate (sv_config sv) = Inr () \<and> sv_encrypter sv = NewInMemoryEncrypter \<and>
    (if cc_RootSigFile (cf_Crypto (sv_config sv)) \<noteq> []
     then \<exists>ks sig. km_activeKeys (sv_keyManager sv) = Some ks \<and> ks_RootSig ks = sig \<and>
            ho_readFile H (cc_RootSigFile (cf_Crypto (sv_config sv))) = Some sig \<and>
            VerifyKeySetSignature P (ra_PubKey (sv_anchor sv)) ks sig
     else True)"
proof -
  let ?cfg = "sv_config sv"
  have l: "LoadFromFile (ho_unmarshal H) (ho_readFile H) path = Inr ?cfg"
    and c: "initCrypto P H ?cfg = Inr (sv_keyManager sv, sv_anchor sv, sv_encrypter sv)"
    and d: "''postgres'' \<in> set (ho_drivers H)"
    using assms by (auto simp: startService_def initDatabase_def Let_def)
  have v: "Validate ?cfg = Inr ()" using l by (auto simp: LoadFromFile_def)
  from c obtain ks0 km0 where k: "developmentMode H" "sv_encrypter sv = NewInMemoryEncrypter"
      "km_rootPubKey km0 = ra_PubKey (sv_anchor sv)" "rootSigned P H ?cfg km0 = (Inr (), sv_keyManager sv)"
    by (metis initCrypto_Inr Initialize_root)
  have sig: "\<exists>ks sig. km_activeKeys (sv_keyManager sv) = Some ks \<and> ks_RootSig ks = sig \<and>
            ho_readFile H (cc_RootSigFile (cf_Crypto ?cfg)) = Some sig \<and>
            VerifyKeySetSignature P (ra_PubKey (sv_anchor sv)) ks sig"
    if f: "cc_RootSigFile (cf_Crypto ?cfg) \<noteq> []"
  proof -
    obtain sig ks where r: "ho_readFile H (cc_RootSigFile (cf_Crypto ?cfg)) = Some sig"
        "VerifyKeySetSignature P (km_rootPubKey km0) ks sig"
        "sv_keyManager sv = km0\<lparr>km_activeKeys := Some (ks\<lparr>ks_RootSig := sig\<rparr>)\<rparr>"
      using k(4) f by (auto simp: rootSigned_def LoadRootSignature_def SetRootSignature_Inr split: option.splits)
    then show ?thesis
      using k(3) by (simp add: VerifyKeySetSignature_def buildPubKeySetForSigning_def)
  qed
  show ?thesis using d v k(1,2) sig by simp
qed

text \<open>
  No configuration starts the service in production: with the configuration loaded and the
  database up, it stops because Vault is not configured, or because it is not implemented.
\<close>

theorem production_never_starts:
  assumes "\<not> developmentMode H"
    and "LoadFromFile (ho_unmarshal H) (ho_readFile H) path = Inr cfg" and "initDatabase H cfg = Inr d"
  shows "startService P H path =
    Inl (CryptoInit (if vc_Addr (cf_Vault cfg) = [] then VaultRequired else VaultNotImplemented))"
  using assms by (simp add: startService_def runMigrations_def initCrypto_def NewSignerForMode_def reject_def)

text \<open>A service that has just started reports itself healthy: start-up pinged the same database.\<close>

lemma started_service_healthy:
  assumes "startService P H path = Inr sv"
  shows "fst (healthHandler H (sv_db sv)) = 200"
  using assms
  by (auto simp: startService_def initDatabase_def healthHandler_def Let_def attempt_Inr reject_Inr)

lemma serviceLife_serves:
  assumes "\<And>a. listen a" "sc_ListenAddr cfg \<noteq> sc_HTTPListenAddr cfg"
    and "count_list evs GRPCGoroutine + (if sc_ListenAddr cfg \<in> set held then 1 else 0) \<le> 1"
    and "count_list evs HTTPGoroutine + (if sc_HTTPListenAddr cfg \<in> set held then 1 else 0) \<le> 1"
  shows "serviceLife listen cfg evs held = (if QuitSignal \<in> set evs then Stopped else Serving)"
  using assms(3,4)
proof (induction evs arbitrary: held)
  case (Cons e evs)
  then show ?case using assms(1,2) by (cases e) (auto simp: Let_def split: if_splits)
qed simp

text \<open>
  With two different addresses that can be listened on, the process serves until a signal comes and then
  stops, in whatever order its goroutines run; with the same address for both servers it ends as soon as
  the second goroutine gets to listen. The only answers a client ever gets are those of the health and
  status paths: every other path is not found and every remote call is unimplemented, so the engine
  that \<open>main\<close> builds is never called.
\<close>

theorem service_life:
  assumes "\<And>a. listen a" and "count_list evs GRPCGoroutine \<le> 1" and "count_list evs HTTPGoroutine \<le> 1"
  shows "(sc_ListenAddr cfg \<noteq> sc_HTTPListenAddr cfg \<longrightarrow>
            serviceLife listen cfg evs [] = (if QuitSignal \<in> set evs then Stopped else Serving)) \<and>
         (sc_ListenAddr cfg = sc_HTTPListenAddr cfg \<longrightarrow>
            serviceLife listen cfg (GRPCGoroutine # HTTPGoroutine # evs) [] = ListenFailed (sc_HTTPListenAddr cfg)) \<and>
         serviceRPC name = Unimplemented \<and>
         (fst (serviceHTTP H sv path) \<noteq> 404 \<longleftrightarrow> path = ''/health'' \<or> path = ''/v1/status'')"
  using serviceLife_serves [of listen cfg evs "[]"] assms
  by (simp add: serviceRPC_def registeredServices_def serviceHTTP_def healthHandler_def service_statusHandler_def)

text \<open>
  On a binary that registers no SQL driver, which is how the repository builds it, the service
  does not start.
\<close>

theorem no_driver_no_service:
  assumes "ho_drivers H = []"
  shows "\<exists>e. startService P H path = Inl e"
proof (cases "startService P H path")
  case (Inr sv)
  then show ?thesis using assms by (auto simp: startService_def initDatabase_def Let_def)
qed simp


section \<open>Signed grants verify\<close>

lemma SignGrant_Inr:
  assumes "SignGrant P E S (t0, t1, t2) km1 km2 payload = Inr (raw, payload')"
  obtains pb pub kid sb sig kid2 where
    "PrepareAGTPayload E t0 payload = Inr (pb, payload')" "GetPubKey t1 PurposeGrantSig km1 = Inr (pub, kid)"
    "encModeOK (ec_cose E)"
    "marshal_Headers (ec_cose E) (mkHeaders kid ''dnivio-agt-v2'') \<noteq> None"
    "marshal_sigStructure (ec_cose E) (mkSigStructure (the (marshal_Headers (ec_cose E) (mkHeaders kid ''dnivio-agt-v2''))) [] pb) = Some sb"
    "SignWithPurpose S t2 PurposeGrantSig sb km2 = Inr (sig, kid2)"
    "marshal_Sign1 (ec_cose E) \<lparr>msg_Protected = mkHeaders kid ''dnivio-agt-v2'', msg_Unprotected = [], msg_Payload = pb,
       msg_Signature = sig\<rparr> = Some raw"
  using assms
  by (auto simp: SignGrant_def BuildSigStructure_def Sign1WithSignature_def SerializeSign1_def EncodeCanonical_def Let_def)

lemma SignGrant_token:
  assumes sg: "SignGrant P E S (t0, t1, t2) km1 km2 payload = Inr (raw, payload')" and "cborLawful E"
    and ver: "\<And>m sig kid2. SignWithPurpose S t2 PurposeGrantSig m km2 = Inr (sig, kid2) \<Longrightarrow> ed25519_Verify P root m sig"
  shows "\<exists>msg. VerifyAccessGrantToken P E now raw root ep pv sens =
           attempt (agt_acceptance now ep pv sens (agt_wire payload')) (\<lambda>e. e)
             (\<lambda>p. Inr \<lparr>tok_Message = msg, tok_Payload = p\<rparr>) \<and>
           (\<exists>pub. GetPubKey t1 PurposeGrantSig km1 = Inr (pub, hd_KeyID (msg_Protected msg)))"
  using sg
proof (cases rule: SignGrant_Inr)
  case (1 pb pub kid sb sig kid2)
  let ?msg = "\<lparr>msg_Protected = mkHeaders kid ''dnivio-agt-v2'', msg_Unprotected = [], msg_Payload = pb, msg_Signature = sig\<rparr>"
  have d: "DeserializeSign1 (ec_cose E) raw = Inr ?msg"
    using assms(2) 1(7) by (simp add: Deserialize_accepts cborLawful_def mkHeaders_def)
  have v: "Verify1 P (ec_cose E) ?msg root = Inr (pb, mkHeaders kid ''dnivio-agt-v2'')"
    using 1(3-5) ver [OF 1(6)] by (auto simp: Verify1_def mkHeaders_def)
  have "marshal_AGT E payload' = Some pb" using 1(1) by (auto simp: PrepareAGTPayload_def EncodeCanonical_def Let_def)
  then have u: "unmarshal_AGT E pb = Some (agt_wire payload')" using assms(2) by (simp add: cborLawful_def)
  have "VerifyAccessGrantToken P E now raw root ep pv sens =
      attempt (agt_acceptance now ep pv sens (agt_wire payload')) (\<lambda>e. e)
        (\<lambda>p. Inr \<lparr>tok_Message = ?msg, tok_Payload = p\<rparr>)"
    using assms(2) by (simp add: VerifyAccessGrantToken_def d v u DecodeCanonical_def cborLawful_def)
  then show ?thesis using 1(2) by (auto simp: mkHeaders_def)
qed

text \<open>The wired grant signer keeps what the engine put into the payload.\<close>

locale faithful_signer =
  fixes sg :: "AGTPayload \<Rightarrow> (bytes \<times> AGTPayload) option"
  assumes faithful: "signsFaithfully sg"
begin

lemma kept:
  assumes "sg p = Some (b, p')" "\<not> isZero (agt_IssuedAt p)" "\<not> isZero (agt_NotBefore p)"
  shows "agt_JTI p' = agt_JTI p" "agt_Scope p' = agt_Scope p" "agt_AuthzEpoch p' = agt_AuthzEpoch p"
    "agt_PolicyVersion p' = agt_PolicyVersion p" "agt_ExpiresAt p' = agt_ExpiresAt p" "agt_NotBefore p' = agt_NotBefore p"
    "agt_DeviceSecurityLevel p' = agt_DeviceSecurityLevel p"
proof -
  have "p' = p\<lparr>agt_Ver := agt_Ver p'\<rparr>" using faithful assms unfolding signsFaithfully_def by blast
  then obtain v where v: "p' = p\<lparr>agt_Ver := v\<rparr>" by blast
  show "agt_JTI p' = agt_JTI p" "agt_Scope p' = agt_Scope p" "agt_AuthzEpoch p' = agt_AuthzEpoch p"
    "agt_PolicyVersion p' = agt_PolicyVersion p" "agt_ExpiresAt p' = agt_ExpiresAt p" "agt_NotBefore p' = agt_NotBefore p"
    "agt_DeviceSecurityLevel p' = agt_DeviceSecurityLevel p"
    by (simp_all add: v)
qed

end

lemma wired_sel [simp]:
  "eng_SignGrant (wiredEngine P E J detail S ts km1 km2) p = okOf (SignGrant P E S ts km1 km2 p)"
  "eng_codec (wiredEngine P E J detail S ts km1 km2) = E"
  by (simp_all add: wiredEngine_def)

lemma SignGrant_Prepare:
  "SignGrant P E S (t0, t1, t2) km1 km2 p = Inr (b, p') \<Longrightarrow> \<exists>pb. PrepareAGTPayload E t0 p = Inr (pb, p')"
  by (auto elim: SignGrant_Inr)

interpretation wired: faithful_signer "eng_SignGrant (wiredEngine P E J detail S ts km1 km2)"
  for P E J detail and S :: "'s Signer" and ts km1 km2
proof
  show "signsFaithfully (eng_SignGrant (wiredEngine P E J detail S ts km1 km2))"
    by (cases ts)
      (auto simp: signsFaithfully_def PrepareAGTPayload_def Let_def dest!: SignGrant_Prepare)
qed

text \<open>The engine's fields of a payload survive its preparation, whatever its times.\<close>

lemma PrepareAGTPayload_keeps:
  assumes "PrepareAGTPayload E t p = Inr (pb, p')"
  shows "agt_JTI p' = agt_JTI p" "agt_TenantID p' = agt_TenantID p" "agt_Scope p' = agt_Scope p"
    "agt_AuthzEpoch p' = agt_AuthzEpoch p" "agt_PolicyVersion p' = agt_PolicyVersion p"
    "agt_SrcNodeID p' = agt_SrcNodeID p" "agt_ApproverDeviceID p' = agt_ApproverDeviceID p"
    "agt_DeviceSecurityLevel p' = agt_DeviceSecurityLevel p"
  using assms by (auto simp: PrepareAGTPayload_def Let_def)

lemma GetPubKey_unique: "\<lbrakk>GetPubKey t p km = Inr x; GetPubKey t' p km = Inr y\<rbrakk> \<Longrightarrow> x = y"
  by (auto simp: GetPubKey_def activeKey_def)

text \<open>A key manager of the running service: started, then rotated, retired and root-signed at will.\<close>

definition managerReached :: "prims \<Rightarrow> InMemorySigner KeyManager \<Rightarrow> bool" where
  "managerReached P km \<longleftrightarrow>
     (\<exists>t env root ks km0 ops kids.
        Initialize (inMemorySigner P) t env (NewKeyManager NewInMemorySigner root) = (Inr ks, km0) \<and>
        (\<forall>p \<in> set AllPurposes. goodEntropy P (env p)) \<and> (\<forall>opn \<in> set ops. opOK (goodEntropy P) opn) \<and>
        kmRun P (inMemorySigner P) ops km0 = (km, kids))"

lemma managerReached_inv: "managerReached P km \<Longrightarrow> ims.kmInv P km"
  unfolding managerReached_def
  by (elim exE conjE) (rule ims.kmInv_run [OF ims.Initialize_inv(1) [OF _ ims_ok_new]])

lemma reached_signature_verifies:
  assumes "managerReached P km" "GetPubKey t p km = Inr (pub, kid)"
    and "SignWithPurpose (inMemorySigner P) t' p m km = Inr (sig, kid')"
  shows "ed25519_Verify P pub m sig"
  using ims.signed_under_reported_key [OF managerReached_inv [OF assms(1)] assms(3)] GetPubKey_unique [OF assms(2)]
  by blast

text \<open>
  A grant that the service signs verifies at a daemon under the public key the manager reports for
  grants when it signs (\<open>km2\<close>), up to the acceptance checks on the payload; its kid is the one reported
  when the adapter asked for it (\<open>km1\<close>), so that a rotation between the two lock regions leaves a token
  that names the old key and verifies under the new one.
\<close>

theorem SignGrant_verifies:
  assumes "managerReached P km2" and "cborLawful E" and "GetPubKey t PurposeGrantSig km2 = Inr (pub, kid2)"
    and "SignGrant P E (inMemorySigner P) ts km1 km2 payload = Inr (raw, payload')"
  shows "\<exists>msg. VerifyAccessGrantToken P E now raw pub ep pv sens =
           attempt (agt_acceptance now ep pv sens (agt_wire payload')) (\<lambda>e. e)
             (\<lambda>p. Inr \<lparr>tok_Message = msg, tok_Payload = p\<rparr>) \<and>
           (\<exists>pub1. GetPubKey (fst (snd ts)) PurposeGrantSig km1 = Inr (pub1, hd_KeyID (msg_Protected msg)))"
proof -
  obtain t0 t1 t2 where ts: "ts = (t0, t1, t2)" by (cases ts)
  have ver: "ed25519_Verify P pub m sig"
    if "SignWithPurpose (inMemorySigner P) t2 PurposeGrantSig m km2 = Inr (sig, kid')" for m sig kid'
    using reached_signature_verifies [OF assms(1,3) that] .
  show ?thesis
    using SignGrant_token [where now = now and ep = ep and pv = pv and sens = sens,
      OF assms(4) [unfolded ts] assms(2) ver]
    unfolding ts by simp
qed

text \<open>A grant that \<open>ProcessApproval\<close> adds was issued for the request, under an identifier not used before.\<close>

lemma ProcessApproval_issues:
  assumes "ProcessApproval P G eng env i s = (r, s')" and "grants s' = grants s @ [g]"
  shows "\<exists>q. findRequest (pa_TenantID i) (pa_RequestID i) s = Some q \<and> issuedFor eng i s q g \<and>
    \<not> list_ex (isGrant (g_tenant g) (g_jti g)) (grants s)"
  using assms(1)
proof (cases rule: ProcessApproval_cases)
  case unchanged
  then show ?thesis using assms(2) by simp
next
  case (committed q d)
  then show ?thesis using assms(2) by (auto simp: decisionCommitted_def grantAdded_def split: if_splits)
qed

text \<open>The token of such a grant, as a daemon that holds the service's grant key reads it.\<close>

lemma issued_token:
  assumes "managerReached P km2" and "cborLawful E" and "GetPubKey t PurposeGrantSig km2 = Inr (pub, kid)"
    and "issuedFor (wiredEngine P E J detail (inMemorySigner P) ts km1 km2) i s q g"
  shows "\<exists>p msg. agt_JTI p = g_jti g \<and> agt_TenantID p = g_tenant g \<and> agt_Scope p = g_scope g \<and>
      agt_SrcNodeID p = g_src_node_id g \<and> agt_ApproverDeviceID p = pa_DeviceID i \<and>
      agt_AuthzEpoch p = authzEpochOf (pa_TenantID i) s \<and> agt_PolicyVersion p = g_policy_version g \<and>
      agt_NotBefore p = g_nbf g \<and> agt_ExpiresAt p = g_expires_at g \<and> agt_DeviceSecurityLevel p = SecurityLevelStrongBox \<and>
      VerifyAccessGrantToken P E now (g_agt_bytes g) pub ep pv sens =
        attempt (agt_acceptance now ep pv sens (agt_wire p)) (\<lambda>e. e) (\<lambda>p. Inr \<lparr>tok_Message = msg, tok_Payload = p\<rparr>)"
proof -
  from assms(4) obtain p p' where p: "SignGrant P E (inMemorySigner P) ts km1 km2 p = Inr (g_agt_bytes g, p')"
      "agt_JTI p = g_jti g" "agt_TenantID p = g_tenant g" "agt_Scope p' = g_scope g" "agt_SrcNodeID p = g_src_node_id g"
      "agt_ApproverDeviceID p = pa_DeviceID i" "agt_AuthzEpoch p = authzEpochOf (pa_TenantID i) s"
      "agt_DeviceSecurityLevel p = SecurityLevelStrongBox" "agt_PolicyVersion p' = g_policy_version g"
      "agt_NotBefore p' = g_nbf g" "agt_ExpiresAt p' = g_expires_at g"
    unfolding issuedFor_def by auto
  obtain t0 t1 t2 where ts: "ts = (t0, t1, t2)" by (cases ts)
  have ver: "ed25519_Verify P pub m sig"
    if "SignWithPurpose (inMemorySigner P) t2 PurposeGrantSig m km2 = Inr (sig, kid')" for m sig kid'
    using reached_signature_verifies [OF assms(1,3) that] .
  obtain pb where "PrepareAGTPayload E t0 p = Inr (pb, p')" using SignGrant_Prepare p(1) ts by blast
  note k = PrepareAGTPayload_keeps [OF this]
  have "\<exists>msg. VerifyAccessGrantToken P E now (g_agt_bytes g) pub ep pv sens =
        attempt (agt_acceptance now ep pv sens (agt_wire p')) (\<lambda>e. e)
          (\<lambda>p. Inr \<lparr>tok_Message = msg, tok_Payload = p\<rparr>) \<and>
        (\<exists>pub. GetPubKey t1 PurposeGrantSig km1 = Inr (pub, hd_KeyID (msg_Protected msg)))"
    by (rule SignGrant_token [OF p(1) [unfolded ts] assms(2)]) (rule ver)
  then obtain msg where "VerifyAccessGrantToken P E now (g_agt_bytes g) pub ep pv sens =
        attempt (agt_acceptance now ep pv sens (agt_wire p')) (\<lambda>e. e) (\<lambda>p. Inr \<lparr>tok_Message = msg, tok_Payload = p\<rparr>)"
    by blast
  then show ?thesis using p k by (intro exI [of _ p'] exI [of _ msg]) simp
qed

text \<open>
  C6: From the approval to the daemon: when \<open>ProcessApproval\<close> of the engine as \<open>main\<close> wires it stores a
  grant, the token stored with it is a grant of that identifier, tenant, scope, source node and approving
  device, under the tenant's current authorization epoch, and a daemon holding the service's grant key
  judges it on its acceptance checks alone.
\<close>

theorem minted_grant_verifies:
  assumes "managerReached P km2" and "cborLawful E" and "GetPubKey t PurposeGrantSig km2 = Inr (pub, kid)"
    and "ProcessApproval P G (wiredEngine P E J detail (inMemorySigner P) ts km1 km2) env i s = (r, s')"
    and "grants s' = grants s @ [g]"
  shows "\<exists>p msg. agt_JTI p = g_jti g \<and> agt_TenantID p = g_tenant g \<and> agt_Scope p = g_scope g \<and>
      agt_SrcNodeID p = g_src_node_id g \<and> agt_ApproverDeviceID p = pa_DeviceID i \<and>
      agt_AuthzEpoch p = authzEpochOf (pa_TenantID i) s \<and>
      VerifyAccessGrantToken P E now (g_agt_bytes g) pub ep pv sens =
        attempt (agt_acceptance now ep pv sens (agt_wire p)) (\<lambda>e. e) (\<lambda>p. Inr \<lparr>tok_Message = msg, tok_Payload = p\<rparr>)"
proof -
  obtain q where "issuedFor (wiredEngine P E J detail (inMemorySigner P) ts km1 km2) i s q g"
    using ProcessApproval_issues [OF assms(4,5)] by blast
  from issued_token [OF assms(1-3) this] show ?thesis by blast
qed

section \<open>Concrete runs\<close>

text \<open>UUID texts of 36 characters that can be parsed back, and a manager started with them.\<close>

definition service_prims :: prims where
  "service_prims = demo_prims
     \<lparr>uuid_String := (\<lambda>u. map byte_char (uuid_bytes u) @ replicate 20 (CHR ''0'')),
      uuid_Parse := (\<lambda>s. Some (word_of_int (be_val (map char_byte (take 16 s)))))\<rparr>"

lemma service_uuid_text: "uuid_text_ok service_prims"
  by (simp add: uuid_text_ok_def service_prims_def comp_def)

lemma service_entropy: "goodEntropy service_prims (demo_key_env u k)"
  by (simp add: goodEntropy_def demo_key_env_def service_prims_def key_pair_def)

definition service_start :: "(key_error + ActiveKeySet) \<times> InMemorySigner KeyManager" where
  "service_start = Initialize (inMemorySigner service_prims) 0 (\<lambda>p. demo_key_env 1 1) (NewKeyManager NewInMemorySigner [9])"

abbreviation service_km :: "InMemorySigner KeyManager" where "service_km \<equiv> snd service_start"

lemma service_started: "\<exists>ks. service_start = (Inr ks, service_km)"
  unfolding service_start_def
  using initLoop_succeeds [of AllPurposes "\<lambda>p. demo_key_env 1 1" service_prims
      "\<lparr>ks_Keys = Map.empty, ks_RootSig = [], ks_IssuedAt = 0\<rparr>" "NewKeyManager NewInMemorySigner [9]"]
  by (auto simp: Initialize_def demo_key_env_def)

lemma service_reached: "managerReached service_prims service_km"
proof -
  obtain ks where "Initialize (inMemorySigner service_prims) 0 (\<lambda>p. demo_key_env 1 1) (NewKeyManager NewInMemorySigner [9])
      = (Inr ks, service_km)"
    using service_started unfolding service_start_def by blast
  moreover have "kmRun service_prims (inMemorySigner service_prims) [] service_km = (service_km, [])" by simp
  ultimately show ?thesis
    unfolding managerReached_def using service_entropy by (metis empty_iff empty_set)
qed

lemma service_grant_key:
  "\<exists>kid. GetPubKey t PurposeGrantSig service_km = Inr ([1], kid) \<and>
     (\<forall>m. SignWithPurpose (inMemorySigner service_prims) t PurposeGrantSig m service_km = Inr (1 # m, kid))"
  by (simp add: service_start_def Initialize_def AllPurposes_def inMemory_GenerateKey_def demo_key_env_def
      NewKeyManager_def NewInMemorySigner_def SignWithPurpose_def GetPubKey_def activeKey_def inMemory_Sign_def newKid_def
      service_prims_def del: demo_prims_sel(4,5))

definition service_engine :: engine where
  "service_engine = wiredEngine service_prims wire_codec demo_json (\<lambda>d. [7]) (inMemorySigner service_prims) (0, 0, 0)
     service_km service_km"

lemma service_signs: "SignGrant service_prims wire_codec (inMemorySigner service_prims) (0, 0, 0) service_km service_km p \<noteq> Inl e"
proof -
  obtain kid where "GetPubKey 0 PurposeGrantSig service_km = Inr ([1], kid)"
      "\<And>m. SignWithPurpose (inMemorySigner service_prims) 0 PurposeGrantSig m service_km = Inr (1 # m, kid)"
    using service_grant_key by blast
  then show ?thesis
    by (simp add: SignGrant_def PrepareAGTPayload_def wire_codec_def EncodeCanonical_def BuildSigStructure_def
        Sign1WithSignature_def SerializeSign1_def Let_def)
qed

lemma service_signs_some: "eng_SignGrant service_engine p \<noteq> None"
  using service_signs [of p] by (auto simp: service_engine_def okOf_def split: sum.splits)

lemma service_healthy: "healthy service_prims demo_pg service_engine demo_healthy_env 1 demo_db"
proof -
  have "signsFaithfully (eng_SignGrant service_engine)" unfolding service_engine_def by (rule wired.faithful)
  moreover have "storable demo_pg (eng_json service_engine) ev" for ev
    using demo_healthy unfolding healthy_def by (simp add: service_engine_def wiredEngine_def demo_engine_def)
  ultimately show ?thesis
    using demo_healthy service_uuid_text service_signs_some unfolding healthy_def by blast
qed

lemma service_answer: "length k = 32 \<Longrightarrow> VerifyApprovalResponse service_prims (demo_answer k c) k = Inr ()"
  by (simp add: demo_answer_def approval_toSign_def Let_def VerifyApprovalResponse_def ed25519_PublicKeySize_def service_prims_def)

lemma service_approvable: "approvable service_prims service_engine (demo_decide DecisionApprove) demo_db"
  by (simp add: approvable_def findRequest_def isRequest_def demo_db_def demo_request_def demo_decide_def findDevice_def
      isDevice_def userExists_def findResource_def nodeExists_def MaxGrantTTL_def second_def service_answer)

lemma service_mints:
  "\<exists>r s' g. ProcessApproval service_prims demo_pg service_engine demo_healthy_env (demo_decide DecisionApprove) demo_db = (r, s') \<and>
     grants s' = grants demo_db @ [g] \<and> grants demo_db = []"
proof -
  have h: "healthy service_prims demo_pg service_engine demo_healthy_env (pa_TenantID (demo_decide DecisionApprove)) demo_db"
    using service_healthy by (simp add: demo_decide_def)
  have "pa_Decision (demo_decide DecisionApprove) = DecisionApprove" by (simp add: demo_decide_def)
  moreover have "\<not> hasGrant T R demo_db" for T R by (simp add: hasGrant_def demo_db_def emptyDb_def)
  moreover have "grants demo_db = []" by (simp add: demo_db_def emptyDb_def)
  moreover have "jsonb_in demo_pg [] \<noteq> None" by simp
  ultimately show ?thesis using ProcessApproval_succeeds [OF h service_approvable] by blast
qed

theorem minted_grant_verifies_witness:
  "\<exists>r s' g p msg. ProcessApproval service_prims demo_pg service_engine demo_healthy_env (demo_decide DecisionApprove) demo_db = (r, s') \<and>
     grants s' = [g] \<and> agt_JTI p = g_jti g \<and>
     VerifyAccessGrantToken service_prims wire_codec 0 (g_agt_bytes g) [1] 1 0 SensitivityHigh =
       attempt (agt_acceptance 0 1 0 SensitivityHigh (agt_wire p)) (\<lambda>e. e) (\<lambda>p. Inr \<lparr>tok_Message = msg, tok_Payload = p\<rparr>)"
proof -
  obtain r s' g where run:
      "ProcessApproval service_prims demo_pg service_engine demo_healthy_env (demo_decide DecisionApprove) demo_db = (r, s')"
      and g: "grants s' = grants demo_db @ [g]" and e: "grants demo_db = []"
    using service_mints by blast
  obtain kid where k: "GetPubKey 0 PurposeGrantSig service_km = Inr ([1], kid)" using service_grant_key by blast
  show ?thesis
    using minted_grant_verifies [OF service_reached wire_codec_lawful k run [unfolded service_engine_def] g, of 0 1 0 SensitivityHigh]
      run g e by auto
qed

theorem SignGrant_verifies_witness:
  "\<exists>raw payload' msg.
     SignGrant service_prims wire_codec (inMemorySigner service_prims) (0, 0, 0) service_km service_km demo_agt = Inr (raw, payload') \<and>
     VerifyAccessGrantToken service_prims wire_codec (150 * second) raw [1] 4 3 SensitivityHigh =
       attempt (agt_acceptance (150 * second) 4 3 SensitivityHigh (agt_wire payload')) (\<lambda>e. e)
         (\<lambda>p. Inr \<lparr>tok_Message = msg, tok_Payload = p\<rparr>)"
proof -
  obtain raw payload' where s:
      "SignGrant service_prims wire_codec (inMemorySigner service_prims) (0, 0, 0) service_km service_km demo_agt = Inr (raw, payload')"
    using service_signs [of demo_agt] by (metis sumE surj_pair)
  obtain kid where k: "GetPubKey 0 PurposeGrantSig service_km = Inr ([1], kid)" using service_grant_key by blast
  show ?thesis
    using SignGrant_verifies [OF service_reached wire_codec_lawful k s, of "150 * second" 4 3 SensitivityHigh] s by blast
qed

text \<open>A host in development mode whose configuration file is the empty object, and one without a driver.\<close>

definition demo_host :: "string \<Rightarrow> string list \<Rightarrow> host" where
  "demo_host mode drivers =
     \<lparr>ho_getenv = (\<lambda>v. mode), ho_readFile = (\<lambda>p. Some []), ho_unmarshal = (\<lambda>d c. Some c), ho_drivers = drivers,
      ho_dsnOK = (\<lambda>d. True), ho_ping = (\<lambda>d. True), ho_schema = (\<lambda>d. True), ho_rootPair = Some ([9], [9]), ho_now = 0,
      ho_keyEnv = (\<lambda>p. demo_key_env 1 1)\<rparr>"

lemma demo_host_loads: "LoadFromFile (ho_unmarshal (demo_host m ds)) (ho_readFile (demo_host m ds)) path = Inr DefaultConfig"
  using DefaultConfig_valid by (simp add: LoadFromFile_def demo_host_def)

lemma demo_host_db: "\<exists>d. initDatabase (demo_host m [''postgres'']) DefaultConfig = Inr d"
  by (simp add: initDatabase_def demo_host_def readFileIfExists_def DefaultConfig_def Let_def)

lemma demo_host_starts: "\<exists>sv. startService service_prims (demo_host ''true'' [''postgres'']) ''c'' = Inr sv"
proof -
  obtain d where d: "initDatabase (demo_host ''true'' [''postgres'']) DefaultConfig = Inr d" using demo_host_db by blast
  obtain ks where "Initialize (inMemorySigner service_prims) 0 (\<lambda>p. demo_key_env 1 1) (NewKeyManager NewInMemorySigner [9])
      = (Inr ks, service_km)"
    using service_started unfolding service_start_def by blast
  then have "\<exists>x. initCrypto service_prims (demo_host ''true'' [''postgres'']) DefaultConfig = Inr x"
    by (simp add: initCrypto_def developmentMode_def demo_host_def NewSignerForMode_def NewEncrypterForMode_def
        rootKeyOf_def rootSigned_def DefaultConfig_def NewRootKey_def)
  then show ?thesis using d by (auto simp: startService_def demo_host_loads runMigrations_def)
qed

theorem started_service_witness:
  "\<exists>sv. startService service_prims (demo_host ''true'' [''postgres'']) ''c'' = Inr sv \<and>
     developmentMode (demo_host ''true'' [''postgres'']) \<and> Validate (sv_config sv) = Inr ()"
  using demo_host_starts started_service by blast

theorem production_never_starts_witness:
  "startService service_prims (demo_host ''false'' [''postgres'']) ''c'' = Inl (CryptoInit VaultRequired)"
proof -
  obtain d where d: "initDatabase (demo_host ''false'' [''postgres'']) DefaultConfig = Inr d" using demo_host_db by blast
  have "\<not> developmentMode (demo_host ''false'' [''postgres''])" by (simp add: developmentMode_def demo_host_def)
  from production_never_starts [OF this demo_host_loads d, of service_prims "''c''"] show ?thesis
    by (simp add: DefaultConfig_def)
qed

theorem no_driver_no_service_witness: "\<exists>e. startService service_prims (demo_host ''true'' []) ''c'' = Inl e"
  by (rule no_driver_no_service) (simp add: demo_host_def)

end
