(* ===== verification/Revocation.thy ===== *)
theory Revocation
  imports Messaging
begin

text \<open>
  \<open>service/internal/revocation/manager.go\<close>: the ordered revocation stream of a tenant, what a
  revocation closes and deletes, the freshness checks, and device revocation. The mutex that
  serializes sequence numbers within a process has no counterpart: calls are sequential here. The
  statement that reads the next number locks an aggregate; whether PostgreSQL accepts it is the
  parameter \<open>aggregate_for_update\<close>.
\<close>

section \<open>Data\<close>

type_synonym Kind = string

abbreviation KindUser :: Kind where "KindUser \<equiv> ''user''"
abbreviation KindSourceNode :: Kind where "KindSourceNode \<equiv> ''source_node''"
abbreviation KindProtectedNode :: Kind where "KindProtectedNode \<equiv> ''protected_node''"
abbreviation KindDevice :: Kind where "KindDevice \<equiv> ''device''"
abbreviation KindKey :: Kind where "KindKey \<equiv> ''key''"
abbreviation KindCert :: Kind where "KindCert \<equiv> ''cert''"
abbreviation KindGrant :: Kind where "KindGrant \<equiv> ''grant''"
abbreviation KindPolicy :: Kind where "KindPolicy \<equiv> ''policy''"

text \<open>The struct and the row of the table have the same fields.\<close>

type_synonym Revocation = revocation_row

datatype rev_error =
    RevBegin sql_error
  | NextSeq sql_error
  | InsertRevocation sql_error
  | TerminateSessions sql_error
  | InvalidateGrants sql_error
  | WriteOutbox sql_error
  | RevCommit sql_error
  | UpdateDevice sql_error
  | IssueInTx rev_error

definition RevocationFreshnessBound :: duration where
  "RevocationFreshnessBound = 10 * second"


section \<open>The stream\<close>

definition tenantRevocations :: "uuid \<Rightarrow> db \<Rightarrow> revocation_row list" where
  "tenantRevocations tenantID s = filter (\<lambda>v. v_tenant v = tenantID) (revocations s)"

definition nextSeq :: "pg \<Rightarrow> svc_env \<Rightarrow> uuid \<Rightarrow> int txm" where
  "nextSeq G env tenantID =
     exec env ''next seq'' (\<lambda>s.
       reject (\<not> aggregate_for_update G) AggregateForUpdate (
       attempt (bigint (maxOr 0 (map v_seq (tenantRevocations tenantID s)) + 1)) (\<lambda>e. e) (\<lambda>n. Inr (n, s))))"

definition validKinds :: "Kind list" where
  "validKinds = [KindUser, KindSourceNode, KindProtectedNode, KindDevice, KindKey, KindCert, KindGrant, KindPolicy]"

definition insert_revocation :: "revocation_row \<Rightarrow> db \<Rightarrow> sql_error + unit \<times> db" where
  "insert_revocation v s =
     reject (v_kind v \<notin> set validKinds) (CheckViolation ''revocations.kind'') (
     reject (list_ex (\<lambda>r. v_tenant r = v_tenant v \<and> v_seq r = v_seq v) (revocations s)) (UniqueViolation ''revocations'') (
     Inr ((), s\<lparr>revocations := revocations s @ [v]\<rparr>)))"


section \<open>Sessions and grants of the revoked entity\<close>

text \<open>A target that a \<open>uuid\<close> column is compared with has to be one.\<close>

definition closeSessions :: "gotime \<Rightarrow> (session_row \<Rightarrow> bool) \<Rightarrow> db \<Rightarrow> db" where
  "closeSessions nw Q s =
     s\<lparr>active_sessions := updateWhere (\<lambda>x. Q x \<and> s_closed_at x = None) (\<lambda>x. x\<lparr>s_closed_at := Some nw\<rparr>) (active_sessions s)\<rparr>"

definition grantsWhere :: "uuid \<Rightarrow> (grant_row \<Rightarrow> bool) \<Rightarrow> db \<Rightarrow> uuid list" where
  "grantsWhere tenantID Q s = map g_jti (filter (\<lambda>g. g_tenant g = tenantID \<and> Q g) (grants s))"

definition sessionTarget :: "pg \<Rightarrow> uuid \<Rightarrow> Kind \<Rightarrow> string \<Rightarrow> db \<Rightarrow> sql_error + (session_row \<Rightarrow> bool)" where
  "sessionTarget G tenantID kind target s =
    (if kind = KindDevice then need (uuid_in G target) InvalidUuid (\<lambda>d. Inr (\<lambda>x. s_tenant x = tenantID \<and> s_device x = d))
     else if kind = KindUser then need (uuid_in G target) InvalidUuid (\<lambda>u.
       Inr (\<lambda>x. s_tenant x = tenantID \<and> s_grant_jti x \<in> set (grantsWhere tenantID (\<lambda>g. g_user g = u) s)))
     else if kind = KindSourceNode then
       Inr (\<lambda>x. s_tenant x = tenantID \<and> s_grant_jti x \<in> set (grantsWhere tenantID (\<lambda>g. g_src_node_id g = target) s))
     else if kind = KindGrant then need (uuid_in G target) InvalidUuid (\<lambda>j. Inr (\<lambda>x. s_tenant x = tenantID \<and> s_grant_jti x = j))
     else if kind = KindProtectedNode then
       need (uuid_in G target) InvalidUuid (\<lambda>n. Inr (\<lambda>x. s_tenant x = tenantID \<and> s_node x = n))
     else Inr (\<lambda>x. False))"

definition terminateActiveSessions :: "pg \<Rightarrow> svc_env \<Rightarrow> uuid \<Rightarrow> Kind \<Rightarrow> string \<Rightarrow> unit txm" where
  "terminateActiveSessions G env tenantID kind target =
    (if kind \<in> {KindDevice, KindUser, KindSourceNode, KindGrant, KindProtectedNode}
     then exec env ''terminate sessions'' (\<lambda>s.
            attempt (sessionTarget G tenantID kind target s) (\<lambda>e. e) (\<lambda>Q. Inr ((), closeSessions (pgNow env) Q s)))
     else Pair (Inr ()))"

definition grantTarget :: "pg \<Rightarrow> Kind \<Rightarrow> string \<Rightarrow> sql_error + (grant_row \<Rightarrow> bool)" where
  "grantTarget G kind target =
    (if kind = KindDevice then need (uuid_in G target) InvalidUuid (\<lambda>d. Inr (\<lambda>g. g_device g = d))
     else if kind = KindUser then need (uuid_in G target) InvalidUuid (\<lambda>u. Inr (\<lambda>g. g_user g = u))
     else if kind = KindSourceNode then Inr (\<lambda>g. g_src_node_id g = target)
     else if kind = KindGrant then need (uuid_in G target) InvalidUuid (\<lambda>j. Inr (\<lambda>g. g_jti g = j))
     else if kind = KindPolicy then Inr (\<lambda>g. True)
     else Inr (\<lambda>g. False))"

text \<open>\<open>DELETE FROM grants\<close>: a session row that refers to a deleted grant is a foreign key violation.\<close>

definition delete_grants :: "uuid \<Rightarrow> (grant_row \<Rightarrow> bool) \<Rightarrow> db \<Rightarrow> sql_error + unit \<times> db" where
  "delete_grants tenantID Q s =
    (let hit = (\<lambda>g. g_tenant g = tenantID \<and> Q g \<and> g_consumed_at g = None)
     in reject (list_ex (\<lambda>x. list_ex (\<lambda>g. hit g \<and> s_tenant x = g_tenant g \<and> s_grant_jti x = g_jti g) (grants s))
                  (active_sessions s)) (ForeignKeyViolation ''active_sessions'') (
        Inr ((), s\<lparr>grants := filter (\<lambda>g. \<not> hit g) (grants s)\<rparr>)))"

definition invalidateGrants :: "pg \<Rightarrow> svc_env \<Rightarrow> uuid \<Rightarrow> Kind \<Rightarrow> string \<Rightarrow> unit txm" where
  "invalidateGrants G env tenantID kind target =
    (if kind \<in> {KindDevice, KindUser, KindSourceNode, KindGrant, KindPolicy}
     then exec env ''invalidate grants'' (\<lambda>s.
            attempt (grantTarget G kind target) (\<lambda>e. e) (\<lambda>Q. delete_grants tenantID Q s))
     else Pair (Inr ()))"


section \<open>Operations\<close>

text \<open>The messages to the consumers, each with its own identifier and the revocation as its payload.\<close>

fun queueDelivery :: "pg \<Rightarrow> svc_env \<Rightarrow> bytes \<Rightarrow> uuid \<Rightarrow> string list \<Rightarrow> tx \<Rightarrow> (rev_error + unit) \<times> tx" where
  "queueDelivery G env payload tenantID [] = Pair (Inr ())"
| "queueDelivery G env payload tenantID (consumer # rest) =
     step (WriteTx G env (''revocation '' @ show_nat (length rest))
             \<lparr>om_TenantID = tenantID, om_Consumer = consumer, om_MessageID = newUUID env (''revocation '' @ show_nat (length rest)),
              om_Payload = Some payload\<rparr>) WriteOutbox (\<lambda>u.
     queueDelivery G env payload tenantID rest)"

definition issueBody ::
  "pg \<Rightarrow> (Revocation \<Rightarrow> bytes) \<Rightarrow> svc_env \<Rightarrow> uuid \<Rightarrow> Kind \<Rightarrow> string \<Rightarrow> string list \<Rightarrow> tx
     \<Rightarrow> (rev_error + Revocation txend) \<times> tx" where
  "issueBody G json env tenantID kind target affectedConsumers =
     step (nextSeq G env tenantID) NextSeq (\<lambda>n.
     let rev = \<lparr>v_tenant = tenantID, v_seq = n, v_kind = kind, v_target = target, v_created_at = clock env ''revocation''\<rparr>
     in step (exec env ''insert revocation'' (insert_revocation rev)) InsertRevocation (\<lambda>u.
        step (terminateActiveSessions G env tenantID kind target) TerminateSessions (\<lambda>u.
        step (invalidateGrants G env tenantID kind target) InvalidateGrants (\<lambda>u.
        step (queueDelivery G env (json rev) tenantID affectedConsumers) (\<lambda>e. e) (\<lambda>u.
        Pair (Inr (Commit rev)))))))"

definition IssueRevocation ::
  "pg \<Rightarrow> (Revocation \<Rightarrow> bytes) \<Rightarrow> svc_env \<Rightarrow> uuid \<Rightarrow> Kind \<Rightarrow> string \<Rightarrow> string list \<Rightarrow> db \<Rightarrow> (rev_error + Revocation) \<times> db" where
  "IssueRevocation G json env tenantID kind target affectedConsumers =
     runTx env RevBegin RevCommit (issueBody G json env tenantID kind target affectedConsumers)"

definition issueRevocationInTx :: "pg \<Rightarrow> svc_env \<Rightarrow> uuid \<Rightarrow> Kind \<Rightarrow> string \<Rightarrow> tx \<Rightarrow> (rev_error + Revocation) \<times> tx" where
  "issueRevocationInTx G env tenantID kind target =
     step (nextSeq G env tenantID) NextSeq (\<lambda>n.
     let rev = \<lparr>v_tenant = tenantID, v_seq = n, v_kind = kind, v_target = target, v_created_at = clock env ''revocation''\<rparr>
     in step (exec env ''insert revocation'' (insert_revocation rev)) InsertRevocation (\<lambda>u. Pair (Inr rev)))"

definition RevokeDevice :: "prims \<Rightarrow> pg \<Rightarrow> svc_env \<Rightarrow> uuid \<Rightarrow> uuid \<Rightarrow> string \<Rightarrow> db \<Rightarrow> (rev_error + unit) \<times> db" where
  "RevokeDevice P G env tenantID deviceID reason =
     runTx env RevBegin RevCommit (
       step (exec env ''revoke device'' (\<lambda>s. Inr ((), s\<lparr>devices := updateWhere
               (\<lambda>d. dv_tenant d = tenantID \<and> dv_id d = deviceID \<and> dv_state d = ''ENROLLED'')
               (\<lambda>d. d\<lparr>dv_state := ''REVOKED'', dv_revoked_at := Some (pgNow env)\<rparr>) (devices s)\<rparr>))) UpdateDevice (\<lambda>u.
       step (issueRevocationInTx G env tenantID KindDevice (uuid_String P deviceID)) IssueInTx (\<lambda>rev.
       Pair (Inr (Commit ())))))"

definition CheckFreshness :: "svc_env \<Rightarrow> uuid \<Rightarrow> int \<Rightarrow> db \<Rightarrow> sql_error + bool \<times> int" where
  "CheckFreshness env tenantID daemonLastAckedSeq s =
     reject (fault env ''check freshness'') ConnectionFault (
     let latestSeq = maxOr 0 (map v_seq (tenantRevocations tenantID s))
     in if latestSeq > daemonLastAckedSeq then Inr (False, latestSeq) else Inr (True, latestSeq))"

definition GetRevocationsSince :: "svc_env \<Rightarrow> uuid \<Rightarrow> int \<Rightarrow> db \<Rightarrow> sql_error + Revocation list" where
  "GetRevocationsSince env tenantID sinceSeq s =
     reject (fault env ''revocations since'') ConnectionFault (
     Inr (sort_key v_seq (filter (\<lambda>v. v_seq v > sinceSeq) (tenantRevocations tenantID s))))"

record FreshnessStatus =
  fr_Current :: bool
  fr_LastAckedSeq :: int
  fr_LatestSeq :: int
  fr_LastAckTime :: gotime
  fr_Since :: duration
  fr_MustFailClosed :: bool

text \<open>\<open>SecondsAgo\<close> is kept as the duration it is computed from.\<close>

definition CheckDaemonFreshness :: "gotime \<Rightarrow> gotime \<Rightarrow> int \<Rightarrow> int \<Rightarrow> FreshnessStatus" where
  "CheckDaemonFreshness nw lastAckTime lastAckedSeq latestSeq =
    (let since = timeSub nw lastAckTime
     in \<lparr>fr_Current = (lastAckedSeq \<ge> latestSeq \<and> since \<le> RevocationFreshnessBound), fr_LastAckedSeq = lastAckedSeq,
         fr_LatestSeq = latestSeq, fr_LastAckTime = lastAckTime, fr_Since = since,
         fr_MustFailClosed = (since > RevocationFreshnessBound \<or> lastAckedSeq < latestSeq)\<rparr>)"


section \<open>What a revocation does\<close>

text \<open>The tenant's stream is numbered from 1 in the order of insertion.\<close>

definition revInv :: "uuid \<Rightarrow> db \<Rightarrow> bool" where
  "revInv T s \<longleftrightarrow> map v_seq (tenantRevocations T s) = [1..int (length (tenantRevocations T s))]"

lemma revInv_next: "revInv T s \<Longrightarrow> maxOr 0 (map v_seq (tenantRevocations T s)) = int (length (tenantRevocations T s))"
  by (simp add: revInv_def maxOr_upto)


lemma queueDelivery_frame:
  "queueDelivery G env payload T cs t = (Inr u, t') \<Longrightarrow> \<exists>os. tx_db t' = (tx_db t)\<lparr>outbox := os\<rparr>"
proof (induction cs arbitrary: t)
  case Nil
  then show ?case by (auto intro: exI [of _ "outbox (tx_db t)"])
next
  case (Cons c cs)
  then obtain t1 where w: "WriteTx G env (''revocation '' @ show_nat (length cs))
       \<lparr>om_TenantID = T, om_Consumer = c, om_MessageID = newUUID env (''revocation '' @ show_nat (length cs)),
        om_Payload = Some payload\<rparr> t = (Inr (), t1)"
    and k: "queueDelivery G env payload T cs t1 = (Inr u, t')" by auto
  obtain os where "tx_db t1 = (tx_db t)\<lparr>outbox := os\<rparr>" using WriteTx_Inr(1) [OF w] by blast
  with Cons.IH [OF k] show ?case by auto
qed

text \<open>The sessions and the grants that a revocation is about; those of no other kind are touched.\<close>

definition sessionHit :: "pg \<Rightarrow> uuid \<Rightarrow> Kind \<Rightarrow> string \<Rightarrow> db \<Rightarrow> session_row \<Rightarrow> bool" where
  "sessionHit G T kind target s x = (case sessionTarget G T kind target s of Inl e \<Rightarrow> False | Inr Q \<Rightarrow> Q x)"

definition grantHit :: "pg \<Rightarrow> uuid \<Rightarrow> Kind \<Rightarrow> string \<Rightarrow> grant_row \<Rightarrow> bool" where
  "grantHit G T kind target g = (case grantTarget G kind target of Inl e \<Rightarrow> False | Inr Q \<Rightarrow> g_tenant g = T \<and> Q g)"

lemma updateWhere_never [simp]: "updateWhere (\<lambda>x. False) f xs = xs"
  by (simp add: updateWhere_def)

lemma terminate_Inr:
  assumes "terminateActiveSessions G env T kind target t = (Inr u, t')"
  shows "tx_db t' = closeSessions (pgNow env) (sessionHit G T kind target (tx_db t)) (tx_db t)"
proof (cases "kind \<in> {KindDevice, KindUser, KindSourceNode, KindGrant, KindProtectedNode}")
  case True
  then show ?thesis using assms
    by (auto simp: terminateActiveSessions_def sessionHit_def closeSessions_def split: if_splits)
next
  case False
  then have "sessionHit G T kind target (tx_db t) = (\<lambda>x. False)" by (auto simp: sessionHit_def sessionTarget_def)
  with False show ?thesis using assms by (auto simp: terminateActiveSessions_def closeSessions_def)
qed

lemma invalidate_Inr:
  assumes "invalidateGrants G env T kind target t = (Inr u, t')"
  shows "tx_db t' = (tx_db t)\<lparr>grants := filter (\<lambda>g. \<not> (grantHit G T kind target g \<and> g_consumed_at g = None)) (grants (tx_db t))\<rparr>"
proof (cases "kind \<in> {KindDevice, KindUser, KindSourceNode, KindGrant, KindPolicy}")
  case True
  then obtain Q where "grantTarget G kind target = Inr Q" "delete_grants T Q (tx_db t) = Inr ((), tx_db t')"
    using assms by (auto simp: invalidateGrants_def)
  then show ?thesis by (auto simp: delete_grants_def grantHit_def Let_def conj_assoc)
next
  case False
  then have "grantHit G T kind target = (\<lambda>g. False)" by (auto simp: grantHit_def grantTarget_def)
  with False show ?thesis using assms by (auto simp: invalidateGrants_def)
qed

lemma sessionHit_revocations [simp]: "sessionHit G T kind target (s\<lparr>revocations := vs\<rparr>) = sessionHit G T kind target s"
  by (auto simp: sessionHit_def sessionTarget_def grantsWhere_def need_def fun_eq_iff split: option.split)

lemma issueBody_effect:
  assumes "issueBody G json env T kind target cs (beginTx s) = (Inr x, t')"
  obtains rv os where "x = Commit rv" "v_tenant rv = T" "v_kind rv = kind" "v_target rv = target" "aggregate_for_update G"
    "v_seq rv = maxOr 0 (map v_seq (tenantRevocations T s)) + 1"
    "tx_db t' = s\<lparr>revocations := revocations s @ [rv],
       active_sessions := updateWhere (\<lambda>x. sessionHit G T kind target s x \<and> s_closed_at x = None)
         (\<lambda>x. x\<lparr>s_closed_at := Some (pgNow env)\<rparr>) (active_sessions s),
       grants := filter (\<lambda>g. \<not> (grantHit G T kind target g \<and> g_consumed_at g = None)) (grants s), outbox := os\<rparr>"
proof -
  let ?rv = "\<lparr>v_tenant = T, v_seq = maxOr 0 (map v_seq (tenantRevocations T s)) + 1, v_kind = kind, v_target = target,
      v_created_at = clock env ''revocation''\<rparr>"
  obtain t2 t3 where x: "x = Commit ?rv" "aggregate_for_update G"
    and a: "terminateActiveSessions G env T kind target ((beginTx s)\<lparr>tx_db := s\<lparr>revocations := revocations s @ [?rv]\<rparr>\<rparr>) = (Inr (), t2)"
    and b: "invalidateGrants G env T kind target t2 = (Inr (), t3)"
    and c: "queueDelivery G env (json ?rv) T cs t3 = (Inr (), t')"
    using assms by (auto simp: issueBody_def nextSeq_def insert_revocation_def bigint_def Let_def)
  obtain os where "tx_db t' = (tx_db t3)\<lparr>outbox := os\<rparr>" using queueDelivery_frame [OF c] by blast
  then show ?thesis
    using terminate_Inr [OF a] invalidate_Inr [OF b] x by (intro that [of ?rv os]) (simp_all add: closeSessions_def)
qed

text \<open>Where PostgreSQL refuses to lock an aggregate, no number can be read.\<close>

lemma issue_needs_locked_aggregate:
  assumes "\<not> aggregate_for_update G"
  shows "\<exists>e. IssueRevocation G json env T kind target cs s = (Inl e, s)"
  using assms by (auto simp: IssueRevocation_def runTx_def issueBody_def nextSeq_def step_def exec_def)


text \<open>Whatever comes of a revocation, the only grants that go are unconsumed ones.\<close>

lemma IssueRevocation_grants:
  assumes "IssueRevocation G json env T kind target cs s = (r, s')"
  shows "\<exists>Q. grants s' = filter (\<lambda>g. \<not> (Q g \<and> g_consumed_at g = None)) (grants s)"
  using assms [unfolded IssueRevocation_def]
proof (cases rule: runTx_cases)
  case unchanged
  then show ?thesis by (intro exI [of _ "\<lambda>g. False"]) simp
next
  case (committed x t)
  from committed(1) show ?thesis
    by (rule issueBody_effect) (use committed(3) in \<open>auto intro!: exI [of _ "grantHit G T kind target"]\<close>)
qed

lemma RevokeDevice_grants:
  assumes "RevokeDevice P G env T D why s = (r, s')"
  shows "grants s' = grants s"
  using assms [unfolded RevokeDevice_def]
  by (cases rule: runTx_cases) (auto simp: issueRevocationInTx_def nextSeq_def insert_revocation_def Let_def)

text \<open>
  The next sequence number is read with \<open>FOR UPDATE\<close> on an aggregate. With a PostgreSQL that rejects
  this, neither \<open>IssueRevocation\<close> nor \<open>RevokeDevice\<close> ever succeeds, and both leave the database
  unchanged: nothing can be revoked.
\<close>

theorem revocation_needs_locked_aggregate:
  assumes "\<not> aggregate_for_update G"
  shows "(\<exists>e. IssueRevocation G json env T kind target cs s = (Inl e, s)) \<and>
         (\<exists>e. RevokeDevice P G env T D why s = (Inl e, s))"
  using assms issue_needs_locked_aggregate [OF assms]
  by (auto simp: RevokeDevice_def runTx_def issueRevocationInTx_def nextSeq_def step_def exec_def Let_def)


section \<open>Freshness\<close>

lemma revInv_bounds: "revInv T s \<Longrightarrow> v \<in> set (tenantRevocations T s) \<Longrightarrow> v_seq v \<le> int (length (tenantRevocations T s))"
proof -
  assume "revInv T s" "v \<in> set (tenantRevocations T s)"
  then have "v_seq v \<in> set [1..int (length (tenantRevocations T s))]"
    unfolding revInv_def by (metis imageI set_map)
  then show ?thesis by simp
qed

lemma filter_upto_above: "0 \<le> a \<Longrightarrow> filter (\<lambda>i. i > a) [1..n] = [a + 1..n]" for a n :: int
proof (induction "nat n" arbitrary: n)
  case 0
  then show ?case by simp
next
  case (Suc k)
  then have "filter (\<lambda>i. i > a) [1..n - 1] = [a + 1..n - 1]" by simp
  then show ?case using Suc(2,3) upto_rec2 [of 1 n] upto_rec2 [of "a + 1" n] by simp
qed

text \<open>
  C34: Catching up works: \<open>CheckFreshness\<close> calls a daemon stale exactly if a revocation of its tenant has
  a number above the one it acknowledged; \<open>GetRevocationsSince\<close> then returns just these, in order
  and without a gap from the acknowledged number to the newest, and a daemon that acknowledges the
  newest is fresh.
\<close>

theorem daemon_catches_up:
  assumes "revInv T s" and "CheckFreshness env T acked s = Inr (fresh, latest)" and "0 \<le> acked"
    and "GetRevocationsSince env' T acked s = Inr revs"
  shows "fresh = (\<forall>v \<in> set (revocations s). v_tenant v = T \<longrightarrow> v_seq v \<le> acked) \<and>
         set revs = {v \<in> set (revocations s). v_tenant v = T \<and> acked < v_seq v} \<and>
         map v_seq revs = [acked + 1..latest] \<and>
         (\<exists>l. CheckFreshness env T latest s = Inr (True, l))"
proof -
  let ?vs = "tenantRevocations T s"
  let ?n = "int (length ?vs)"
  have n: "latest = ?n" "fresh = (?n \<le> acked)"
    using assms(2) revInv_next [OF assms(1)] by (auto simp: CheckFreshness_def Let_def split: if_splits)
  have r: "revs = sort_key v_seq (filter (\<lambda>v. v_seq v > acked) ?vs)"
    using assms(4) by (simp add: GetRevocationsSince_def)
  have m: "map v_seq (filter (\<lambda>v. v_seq v > acked) ?vs) = filter (\<lambda>i. i > acked) [1..?n]"
    using assms(1) filter_map [of "\<lambda>i. i > acked" v_seq ?vs] by (simp add: revInv_def comp_def)
  have f: "filter (\<lambda>i. i > acked) [1..?n] = [acked + 1..?n]"
    using filter_upto_above [OF assms(3), of ?n] .
  have sorted: "revs = filter (\<lambda>v. v_seq v > acked) ?vs" unfolding r by (rule sort_key_upto) (use m f in simp)
  have "fresh = (\<forall>v \<in> set (revocations s). v_tenant v = T \<longrightarrow> v_seq v \<le> acked)"
  proof (cases "?vs = []")
    case True
    then show ?thesis using n(2) assms(3) by (auto simp: tenantRevocations_def filter_empty_conv)
  next
    case False
    have "?n \<in> set (map v_seq ?vs)" using assms(1) False by (simp add: revInv_def Suc_le_eq)
    then obtain v where v: "v \<in> set ?vs" "v_seq v = ?n" by auto
    show ?thesis using n(2) v revInv_bounds [OF assms(1)] by (fastforce simp: tenantRevocations_def)
  qed
  moreover have "set revs = {v \<in> set (revocations s). v_tenant v = T \<and> acked < v_seq v}"
    by (auto simp: r tenantRevocations_def)
  moreover have "map v_seq revs = [acked + 1..latest]" using sorted m f n(1) by simp
  moreover have "\<exists>l. CheckFreshness env T latest s = Inr (True, l)"
    using assms(2) n(1) revInv_next [OF assms(1)] by (auto simp: CheckFreshness_def Let_def split: if_splits)
  ultimately show ?thesis by blast
qed

text \<open>
  A daemon's status is current exactly if it need not fail closed: at most ten seconds since its last
  acknowledgement and no revocation beyond the number it acknowledged.
\<close>

theorem CheckDaemonFreshness_bound:
  "fr_Current (CheckDaemonFreshness nw lastAck acked latest) = (\<not> fr_MustFailClosed (CheckDaemonFreshness nw lastAck acked latest)) \<and>
   fr_MustFailClosed (CheckDaemonFreshness nw lastAck acked latest) = (lastAck + 10 * second < nw \<or> acked < latest)"
  by (auto simp: CheckDaemonFreshness_def RevocationFreshnessBound_def timeSub_def second_def Let_def)


section \<open>What a revocation leaves\<close>

text \<open>
  \<open>RevokeDevice\<close> marks the device and appends to the stream, and that is all: sessions and grants
  issued through the device stay as they are, and no message is queued for any daemon.
\<close>

theorem RevokeDevice_effect:
  assumes "RevokeDevice P G env T D why s = (Inr (), s')"
  shows "active_sessions s' = active_sessions s \<and> grants s' = grants s \<and> outbox s' = outbox s \<and>
     (\<exists>v. revocations s' = revocations s @ [v] \<and> v_tenant v = T \<and> v_kind v = KindDevice \<and> v_target v = uuid_String P D) \<and>
     devices s' = updateWhere (\<lambda>d. dv_tenant d = T \<and> dv_id d = D \<and> dv_state d = ''ENROLLED'')
       (\<lambda>d. d\<lparr>dv_state := ''REVOKED'', dv_revoked_at := Some (pgNow env)\<rparr>) (devices s)"
  using runTx_Inr [OF assms [unfolded RevokeDevice_def]]
  by (auto simp: issueRevocationInTx_def nextSeq_def insert_revocation_def Let_def)

text \<open>
  A session row keeps its grant from being deleted: a revocation of a device whose unconsumed grant
  has a session, even a closed one, fails as a whole and changes nothing.
\<close>

theorem revocation_blocked_by_session:
  assumes "g \<in> set (grants s)" and "g_tenant g = T" and "g_device g = D" and "g_consumed_at g = None"
    and "x \<in> set (active_sessions s)" and "s_tenant x = T" and "s_grant_jti x = g_jti g" and "uuid_in G target = Some D"
  shows "\<exists>e. IssueRevocation G json env T KindDevice target cs s = (Inl e, s)"
proof -
  have blocked: "\<exists>e. delete_grants T (\<lambda>g. g_device g = D) s1 = Inl e"
    if "grants s1 = grants s" "\<exists>y \<in> set (active_sessions s1). s_tenant y = T \<and> s_grant_jti y = g_jti g" for s1
    using that assms by (auto simp: delete_grants_def list_ex_iff Let_def reject_def)
  have keep: "\<exists>y \<in> set (active_sessions (closeSessions n Q s1)). s_tenant y = T \<and> s_grant_jti y = g_jti g"
    if "active_sessions s1 = active_sessions s" for n Q s1
    using list_ex_updateWhere [of "\<lambda>y. s_tenant y = T \<and> s_grant_jti y = g_jti g" "\<lambda>y. y\<lparr>s_closed_at := Some n\<rparr>"
        "\<lambda>y. Q y \<and> s_closed_at y = None" "active_sessions s"] that assms(5-7)
    by (auto simp: closeSessions_def list_ex_iff)
  have "issueBody G json env T KindDevice target cs (beginTx s) \<noteq> (Inr y, t)" for y t
  proof
    assume "issueBody G json env T KindDevice target cs (beginTx s) = (Inr y, t)"
    then obtain vs r where del: "delete_grants T (\<lambda>g. g_device g = D)
        (closeSessions (pgNow env) (\<lambda>x. s_tenant x = T \<and> s_device x = D) (s\<lparr>revocations := vs\<rparr>)) = Inr r"
      using assms(8)
      by (auto simp: issueBody_def nextSeq_def insert_revocation_def bigint_def Let_def terminateActiveSessions_def
          sessionTarget_def invalidateGrants_def grantTarget_def)
    then show False
      using blocked [OF _ keep [of "s\<lparr>revocations := vs\<rparr>"], of "pgNow env" "\<lambda>x. s_tenant x = T \<and> s_device x = D"]
      by (auto simp: closeSessions_def)
  qed
  then obtain e t where "issueBody G json env T KindDevice target cs (beginTx s) = (Inl e, t)"
    by (metis sum.exhaust surj_pair)
  then show ?thesis by (simp add: IssueRevocation_def runTx_def)
qed


section \<open>Concrete revocations\<close>

definition demo_session :: session_row where
  "demo_session = \<lparr>s_id = 8, s_tenant = 1, s_grant_jti = 7, s_device = 3, s_node = 4, s_closed_at = None\<rparr>"

definition demo_rev_grant :: "gotime option \<Rightarrow> grant_row" where
  "demo_rev_grant used =
     \<lparr>g_jti = 7, g_tenant = 1, g_request = 9, g_user = 2, g_src_node_id = ''n'', g_src_node_key_epoch = 1, g_device = 3, g_node = 4,
      g_resource = 5, g_protocol = ''TCP'', g_scope = ''SESSION'', g_binding = [], g_policy_version = 1, g_authz_epoch = 1,
      g_device_security_level = ''TEE'', g_agt_bytes = [6], g_kid = [], g_iat = 0, g_nbf = 0, g_expires_at = 30 * second,
      g_consumed_at = used\<rparr>"

definition demo_rev_db :: "gotime option \<Rightarrow> db" where
  "demo_rev_db used = emptyDb\<lparr>tenants := [1], grants := [demo_rev_grant used], active_sessions := [demo_session]\<rparr>"

lemmas demo_rev_defs = demo_rev_db_def demo_rev_grant_def demo_session_def emptyDb_def

lemmas issue_run_defs = runTx_def issueBody_def nextSeq_def step_def exec_def insert_revocation_def validKinds_def bigint_def
  maxOr_def inInt64_def tenantRevocations_def terminateActiveSessions_def sessionTarget_def closeSessions_def updateWhere_def
  invalidateGrants_def grantTarget_def delete_grants_def commitTx_def beginTx_def Let_def

lemma demo_uuid_in [simp]: "uuid_Parse demo_prims (uuid_String demo_prims u) = Some u"
  using demo_uuid_text_ok by (simp add: uuid_text_ok_def del: demo_prims_sel)


theorem revocation_needs_locked_aggregate_witness:
  "\<exists>e. RevokeDevice demo_prims (demo_pg\<lparr>aggregate_for_update := False\<rparr>) (demo_svc 0) 1 3 ''lost'' (demo_rev_db None) = (Inl e, demo_rev_db None)"
  using revocation_needs_locked_aggregate [of "demo_pg\<lparr>aggregate_for_update := False\<rparr>"] by simp

theorem daemon_catches_up_witness:
  "\<exists>revs. GetRevocationsSince (demo_svc 0) 1 0 (emptyDb\<lparr>revocations := [\<lparr>v_tenant = 1, v_seq = 1, v_kind = ''user'', v_target = ''u'', v_created_at = 0\<rparr>]\<rparr>)
      = Inr revs \<and> map v_seq revs = [1]"
proof -
  let ?s = "emptyDb\<lparr>revocations := [\<lparr>v_tenant = 1, v_seq = 1, v_kind = ''user'', v_target = ''u'', v_created_at = 0\<rparr>]\<rparr>"
  have inv: "revInv 1 ?s" by (simp add: revInv_def tenantRevocations_def)
  have f: "CheckFreshness (demo_svc 0) 1 0 ?s = Inr (False, 1)"
    by (simp add: CheckFreshness_def tenantRevocations_def maxOr_def)
  obtain revs where g: "GetRevocationsSince (demo_svc 0) 1 0 ?s = Inr revs" by (simp add: GetRevocationsSince_def)
  from daemon_catches_up [OF inv f _ g] g show ?thesis by simp
qed

theorem RevokeDevice_effect_witness:
  "\<exists>s' :: db. active_sessions s' = [demo_session] \<and> length (revocations s') = 1"
proof -
  obtain s' where run: "RevokeDevice demo_prims demo_pg (demo_svc 0) 1 3 ''lost'' (demo_rev_db None) = (Inr (), s')"
    by (simp add: RevokeDevice_def issueRevocationInTx_def issue_run_defs demo_rev_defs del: demo_prims_sel)
  note e = RevokeDevice_effect [OF run]
  have "active_sessions s' = [demo_session]" using e by (simp add: demo_rev_db_def)
  moreover have "length (revocations s') = 1" using e by (auto simp: demo_rev_db_def emptyDb_def)
  ultimately show ?thesis by blast
qed

theorem revocation_blocked_by_session_witness:
  "\<exists>e. IssueRevocation demo_pg (\<lambda>v. [1]) (demo_svc 0) 1 KindDevice (uuid_String demo_prims 3) [] (demo_rev_db None) = (Inl e, demo_rev_db None)"
proof (rule revocation_blocked_by_session)
  show "demo_rev_grant None \<in> set (grants (demo_rev_db None))" "demo_session \<in> set (active_sessions (demo_rev_db None))"
    "g_consumed_at (demo_rev_grant None) = None" "g_tenant (demo_rev_grant None) = 1" "g_device (demo_rev_grant None) = 3"
    "s_tenant demo_session = 1" "s_grant_jti demo_session = g_jti (demo_rev_grant None)"
    "uuid_in demo_pg (uuid_String demo_prims 3) = Some 3"
    by (simp_all add: demo_rev_defs del: demo_prims_sel)
qed

end
