(* ===== verification/GrantCache.thy ===== *)
theory GrantCache
  imports Envelope "HOL-Library.AList"
begin

text \<open>
  \<open>daemon/internal/grants/cache.go\<close>: the daemon's grant cache. A Go map is an association list
  without duplicate keys, written with \<open>AList.update\<close>; entries are values (the source shares the
  pointer it stores with the caller, which the daemon never writes through). Every method holds the
  cache's mutex for its whole body, so an execution is a sequence of method calls. The file system is
  a map from paths to contents; \<open>disk\<close> says which of its operations fail during a call and what a
  failed write leaves behind. AES-GCM is the parameter \<open>aead\<close>.
\<close>

section \<open>Data\<close>

record CacheEntry =
  ce_JTI :: uuid
  ce_AGTBytes :: bytes
  ce_Payload :: "AGTPayload option"
  ce_Consumed :: bool
  ce_ConsumedAt :: "gotime option"
  ce_CachedAt :: gotime
  ce_ExpiresAt :: gotime

record persistentStorage =
  ps_path :: string
  ps_key :: bytes

record Cache =
  c_entries :: "(string \<times> CacheEntry) list"
  c_consumedJTIs :: "(uuid \<times> gotime) list"
  c_storage :: persistentStorage
  c_trustRoot :: bytes

record PurgeFilter =
  pf_UserID :: "uuid option"
  pf_SrcNodeID :: "string option"
  pf_ProtectedNodeID :: "string option"
  pf_DeviceID :: "uuid option"
  pf_PolicyVersionBefore :: "int option"
  pf_AuthzEpochBefore :: "int option"

type_synonym files = "string \<rightharpoonup> bytes"

text \<open>
  Faults of one call: a failing read, the contents a failed \<open>os.WriteFile\<close> leaves (\<open>None\<close>: no fault),
  a failing rename, open or sync, the prefix a failed append has written.
\<close>

record disk =
  readFails :: "string \<Rightarrow> bool"
  writeFault :: "string \<Rightarrow> bytes option"
  renameFails :: bool
  openFails :: bool
  appendFault :: "bytes option"
  syncFails :: bool

text \<open>What one call of a method sees: the clock, the disk and the operating system's random bytes.\<close>

record call_env =
  env_now :: gotime
  env_disk :: disk
  env_rand :: "nat \<Rightarrow> bytes option"

record cache_codec =
  cc_env :: env_codec
  marshal_Entry :: "CacheEntry \<Rightarrow> bytes option"
  unmarshal_Entry :: "bytes \<Rightarrow> CacheEntry option"

datatype storage_error =
    ReadKeyFile | GenerateKey | WriteKeyFile
  | CipherInit | NonceRead | CiphertextTooShort | OpenFailed
  | WriteTemp | AtomicRename | OpenLog | WriteLog | SyncLog
  | ReadLog | ReadGrants | DecryptGrants storage_error | DecodeGrant cose_error

datatype cache_error =
    CreateStorage storage_error
  | LoadConsumed storage_error
  | LoadGrants storage_error
  | PersistGrant storage_error
  | AGTVerificationFailed env_error
  | GrantNotFound
  | RemoteConsumeFailed
  | AlreadyConsumedPersisted
  | AlreadyConsumed
  | JTIMismatch
  | GrantExpired
  | PersistConsumed storage_error
  | NilPayload


section \<open>Cache keys\<close>

definition bindingIDFromPayload :: "AGTPayload \<Rightarrow> string" where
  "bindingIDFromPayload p =
    (if agt_Scope p = ScopeRequest then
       (case bnd_HTTPRequest (agt_Binding p) of Some b \<Rightarrow> hex_bytes (hb_RequestNonce b) | None \<Rightarrow> ''duration'')
     else if agt_Scope p = ScopeConnection then
       (case bnd_Connection (agt_Binding p) of Some b \<Rightarrow> hex_bytes (cb_ConnectionID b) | None \<Rightarrow> ''duration'')
     else if agt_Scope p = ScopeSession then
       (case bnd_Session (agt_Binding p) of Some b \<Rightarrow> hex_bytes (sb_SessionID b) | None \<Rightarrow> ''duration'')
     else ''duration'')"

definition Key :: "prims \<Rightarrow> CacheEntry \<Rightarrow> string" where
  "Key P c =
    (case ce_Payload c of
       None \<Rightarrow> []
     | Some p \<Rightarrow>
         uuid_String P (agt_TenantID p) @ ''/'' @ oid_UserID (agt_Subject p) @ ''/'' @ agt_SrcNodeID p @ ''/''
         @ agt_ProtectedNodeID p @ ''/'' @ res_ServiceID (agt_Resource p) @ ''/'' @ agt_Protocol p @ ''/''
         @ agt_Scope p @ ''/'' @ show_int (agt_PolicyVersion p) @ ''/'' @ bindingIDFromPayload p)"


section \<open>Encrypted storage\<close>

text \<open>\<open>gcm.NonceSize()\<close> of the standard library's AES-GCM is 12, and AES takes these key lengths.\<close>

definition encrypt :: "aead \<Rightarrow> call_env \<Rightarrow> persistentStorage \<Rightarrow> bytes \<Rightarrow> storage_error + bytes" where
  "encrypt A env ps plaintext =
     reject (\<not> aesKeyOK (ps_key ps)) CipherInit (
     need (env_rand env nonceSize) NonceRead (\<lambda>nonce.
     Inr (nonce @ gcm_Seal A (ps_key ps) nonce plaintext)))"

definition decrypt :: "aead \<Rightarrow> persistentStorage \<Rightarrow> bytes \<Rightarrow> storage_error + bytes" where
  "decrypt A ps ciphertext =
     reject (\<not> aesKeyOK (ps_key ps)) CipherInit (
     reject (length ciphertext < nonceSize) CiphertextTooShort (
     need (gcm_Open A (ps_key ps) (take nonceSize ciphertext) (drop nonceSize ciphertext)) OpenFailed Inr))"

text \<open>\<open>os.WriteFile\<close>.\<close>

definition writeFile :: "call_env \<Rightarrow> string \<Rightarrow> bytes \<Rightarrow> files \<Rightarrow> bool \<times> files" where
  "writeFile env path data fs =
     (case writeFault (env_disk env) path of
        None \<Rightarrow> (True, fs(path \<mapsto> data)) | Some left \<Rightarrow> (False, fs(path \<mapsto> left)))"

definition loadOrCreateKey :: "call_env \<Rightarrow> string \<Rightarrow> files \<Rightarrow> (storage_error + bytes) \<times> files" where
  "loadOrCreateKey env keyFile fs =
     (if readFails (env_disk env) keyFile then (Inl ReadKeyFile, fs)
      else
        (let create =
           (case env_rand env 32 of
              None \<Rightarrow> (Inl GenerateKey, fs)
            | Some key \<Rightarrow>
                (let (ok, fs') = writeFile env keyFile key fs
                 in if ok then (Inr key, fs') else (Inl WriteKeyFile, fs')))
         in case fs keyFile of
              Some data \<Rightarrow> if length data = 32 then (Inr data, fs) else create
            | None \<Rightarrow> create))"

definition newPersistentStorage ::
  "call_env \<Rightarrow> string \<Rightarrow> files \<Rightarrow> (storage_error + persistentStorage) \<times> files" where
  "newPersistentStorage env path fs =
     (let (r, fs') = loadOrCreateKey env (path @ ''.key'') fs
      in (attempt r (\<lambda>e. e) (\<lambda>key. Inr \<lparr>ps_path = path, ps_key = key\<rparr>), fs'))"

text \<open>An encoding error is dropped: the nil slice is encrypted then.\<close>

definition persistGrant ::
  "aead \<Rightarrow> cache_codec \<Rightarrow> call_env \<Rightarrow> persistentStorage \<Rightarrow> CacheEntry \<Rightarrow> files \<Rightarrow> (storage_error + unit) \<times> files" where
  "persistGrant A C env ps entry fs =
     (let plaintext = (case EncodeCanonical (encModeOK (ec_cose (cc_env C))) (marshal_Entry C) entry of
                         Inl e \<Rightarrow> [] | Inr b \<Rightarrow> b)
      in case encrypt A env ps plaintext of
           Inl e \<Rightarrow> (Inl e, fs)
         | Inr ciphertext \<Rightarrow>
             (let tmpPath = ps_path ps @ ''.tmp'';
                  (ok, fs1) = writeFile env tmpPath ciphertext fs
              in if \<not> ok then (Inl WriteTemp, fs1)
                 else if renameFails (env_disk env) then (Inl AtomicRename, fs1)
                 else (Inr (), (fs1(tmpPath := None))(ps_path ps \<mapsto> ciphertext))))"

text \<open>A record is the 16 bytes of the JTI and 8 bytes of time; a failed encryption writes nothing.\<close>

definition consumedRecord :: "uuid \<Rightarrow> gotime \<Rightarrow> bytes" where
  "consumedRecord jti consumedAt = uuid_bytes jti @ int64ToBytes (unixNano consumedAt)"

definition persistConsumed ::
  "aead \<Rightarrow> call_env \<Rightarrow> persistentStorage \<Rightarrow> uuid \<Rightarrow> gotime \<Rightarrow> files \<Rightarrow> (storage_error + unit) \<times> files" where
  "persistConsumed A env ps jti consumedAt fs =
     (let path = ps_path ps @ ''.consumed''
      in if openFails (env_disk env) then (Inl OpenLog, fs)
         else
           (let old = (case fs path of None \<Rightarrow> [] | Some d \<Rightarrow> d);
                encrypted = (case encrypt A env ps (consumedRecord jti consumedAt) of Inl e \<Rightarrow> [] | Inr b \<Rightarrow> b)
            in case appendFault (env_disk env) of
                 Some written \<Rightarrow> (Inl WriteLog, fs(path \<mapsto> old @ written))
               | None \<Rightarrow> (if syncFails (env_disk env) then Inl SyncLog else Inr (), fs(path \<mapsto> old @ encrypted))))"

text \<open>The records of a decrypted log, 24 bytes each; a shorter rest is ignored.\<close>

function parseConsumed :: "bytes \<Rightarrow> (uuid \<times> gotime) list \<Rightarrow> (uuid \<times> gotime) list" where
  "parseConsumed plaintext consumed =
     (if length plaintext < 24 then consumed
      else
        (let jti = word_of_int (be_val (take 16 plaintext));
             ts = wrap64 (be_val (take 8 (drop 16 plaintext)))
         in parseConsumed (drop 24 plaintext) (AList.update jti (unixEpoch + ts) consumed)))"
  by pat_completeness auto
termination by (relation "measure (\<lambda>(plaintext, consumed). length plaintext)") auto

declare parseConsumed.simps [simp del]

definition loadConsumed ::
  "aead \<Rightarrow> call_env \<Rightarrow> persistentStorage \<Rightarrow> files \<Rightarrow> (uuid \<times> gotime) list \<Rightarrow> storage_error + (uuid \<times> gotime) list" where
  "loadConsumed A env ps fs consumed =
     (let path = ps_path ps @ ''.consumed''
      in reject (readFails (env_disk env) path) ReadLog (
         case fs path of
           None \<Rightarrow> Inr consumed
         | Some data \<Rightarrow> attempt (decrypt A ps data) (\<lambda>e. e) (\<lambda>plaintext. Inr (parseConsumed plaintext consumed))))"

definition loadGrants ::
  "prims \<Rightarrow> aead \<Rightarrow> cache_codec \<Rightarrow> call_env \<Rightarrow> persistentStorage \<Rightarrow> files \<Rightarrow> (string \<times> CacheEntry) list
     \<Rightarrow> storage_error + (string \<times> CacheEntry) list" where
  "loadGrants P A C env ps fs entries =
     reject (readFails (env_disk env) (ps_path ps)) ReadGrants (
     case fs (ps_path ps) of
       None \<Rightarrow> Inr entries
     | Some data \<Rightarrow>
         attempt (decrypt A ps data) DecryptGrants (\<lambda>plaintext.
         attempt (DecodeCanonical (decModeOK (ec_cose (cc_env C))) (unmarshal_Entry C) plaintext) DecodeGrant (\<lambda>entry.
         Inr (case ce_Payload entry of
                None \<Rightarrow> entries
              | Some p \<Rightarrow>
                  (if agt_Scope p \<noteq> ScopeSession \<and> env_now env < ce_ExpiresAt entry \<and> Key P entry \<noteq> []
                   then AList.update (Key P entry) entry entries else entries)))))"


section \<open>The cache's methods\<close>

definition NewCache ::
  "prims \<Rightarrow> aead \<Rightarrow> cache_codec \<Rightarrow> call_env \<Rightarrow> string \<Rightarrow> bytes \<Rightarrow> files \<Rightarrow> (cache_error + Cache) \<times> files" where
  "NewCache P A C env storagePath trustRoot fs =
     (let (r, fs') = newPersistentStorage env storagePath fs
      in (attempt r CreateStorage (\<lambda>ps.
          attempt (loadConsumed A env ps fs' []) LoadConsumed (\<lambda>consumed.
          attempt (loadGrants P A C env ps fs' []) LoadGrants (\<lambda>entries.
          Inr \<lparr>c_entries = entries, c_consumedJTIs = consumed, c_storage = ps, c_trustRoot = trustRoot\<rparr>))), fs'))"

text \<open>\<open>Store\<close> dereferences the payload: without one the call panics, under the key \<open>""\<close> it computed.\<close>

definition Store ::
  "prims \<Rightarrow> aead \<Rightarrow> cache_codec \<Rightarrow> call_env \<Rightarrow> CacheEntry \<Rightarrow> Cache \<times> files
     \<Rightarrow> (cache_error + unit) \<times> Cache \<times> files" where
  "Store P A C env entry = (\<lambda>(c, fs).
     (case ce_Payload entry of
        None \<Rightarrow> (Inl NilPayload, c, fs)
      | Some p \<Rightarrow>
          (let c' = c\<lparr>c_entries := AList.update (Key P entry) entry (c_entries c)\<rparr>
           in if agt_Scope p = ScopeSession then (Inr (), c', fs)
              else
                (let (r, fs') = persistGrant A C env (c_storage c) entry fs
                 in (attempt r PersistGrant Inr, c', fs')))))"

definition VerifyAndStore ::
  "prims \<Rightarrow> cache_codec \<Rightarrow> call_env \<Rightarrow> bytes \<Rightarrow> bytes \<Rightarrow> int \<Rightarrow> int \<Rightarrow> Sensitivity \<Rightarrow> cache_error + CacheEntry" where
  "VerifyAndStore P C env rawAGT trustRoot currentAuthzEpoch currentPolicyVersion currentSensitivity =
     attempt (VerifyAccessGrantToken P (cc_env C) (env_now env) rawAGT trustRoot currentAuthzEpoch
                currentPolicyVersion currentSensitivity) AGTVerificationFailed (\<lambda>agt.
     Inr \<lparr>ce_JTI = agt_JTI (tok_Payload agt), ce_AGTBytes = rawAGT, ce_Payload = Some (tok_Payload agt),
          ce_Consumed = False, ce_ConsumedAt = None, ce_CachedAt = env_now env,
          ce_ExpiresAt = agt_ExpiresAt (tok_Payload agt)\<rparr>)"

definition StoreVerified ::
  "prims \<Rightarrow> aead \<Rightarrow> cache_codec \<Rightarrow> call_env \<Rightarrow> bytes \<Rightarrow> int \<Rightarrow> int \<Rightarrow> Sensitivity \<Rightarrow> Cache \<times> files
     \<Rightarrow> (cache_error + unit) \<times> Cache \<times> files" where
  "StoreVerified P A C env rawAGT currentAuthzEpoch currentPolicyVersion currentSensitivity = (\<lambda>(c, fs).
     (case VerifyAndStore P C env rawAGT (c_trustRoot c) currentAuthzEpoch currentPolicyVersion currentSensitivity of
        Inl e \<Rightarrow> (Inl e, c, fs)
      | Inr entry \<Rightarrow> Store P A C env entry (c, fs)))"

definition Check :: "gotime \<Rightarrow> string \<Rightarrow> Cache \<Rightarrow> CacheEntry option" where
  "Check t key c =
     (case map_of (c_entries c) key of
        None \<Rightarrow> None
      | Some entry \<Rightarrow>
          (if t > ce_ExpiresAt entry then None
           else if ce_Consumed entry then None
           else if map_of (c_consumedJTIs c) (ce_JTI entry) \<noteq> None then None
           else Some entry))"

text \<open>
  The remote callback is absent, or a function of the remote side's state \<open>'r\<close> that answers with an
  error or with whether it consumed the grant.
\<close>

type_synonym 'r remote = "'r \<Rightarrow> uuid \<Rightarrow> (unit + bool) \<times> 'r"

definition callRemote :: "'r remote option \<Rightarrow> uuid \<Rightarrow> 'r \<Rightarrow> bool \<times> 'r" where
  "callRemote remoteConsume jti r =
     (case remoteConsume of
        None \<Rightarrow> (True, r)
      | Some f \<Rightarrow> (let (res, r') = f r jti in (res = Inr True, r')))"

text \<open>The entry and the cache after the compare-and-swap of \<open>Consume\<close>.\<close>

definition consumedEntry :: "gotime \<Rightarrow> CacheEntry \<Rightarrow> CacheEntry" where
  "consumedEntry t entry = entry\<lparr>ce_Consumed := True, ce_ConsumedAt := Some t\<rparr>"

definition consumedCache :: "gotime \<Rightarrow> string \<Rightarrow> CacheEntry \<Rightarrow> Cache \<Rightarrow> Cache" where
  "consumedCache t key entry c =
     c\<lparr>c_entries := AList.update key (consumedEntry t entry) (c_entries c),
       c_consumedJTIs := AList.update (ce_JTI entry) t (c_consumedJTIs c)\<rparr>"

definition Consume ::
  "aead \<Rightarrow> 'r remote option \<Rightarrow> call_env \<Rightarrow> string \<Rightarrow> uuid \<Rightarrow> Cache \<times> files \<times> 'r
     \<Rightarrow> (cache_error + CacheEntry) \<times> Cache \<times> files \<times> 'r" where
  "Consume A remoteConsume env key jti = (\<lambda>(c, fs, r).
     (case map_of (c_entries c) key of
        None \<Rightarrow> (Inl GrantNotFound, c, fs, r)
      | Some entry \<Rightarrow>
          (let (ok, r') = callRemote remoteConsume jti r
           in if \<not> ok then (Inl RemoteConsumeFailed, c, fs, r')
              else if map_of (c_consumedJTIs c) jti \<noteq> None then (Inl AlreadyConsumedPersisted, c, fs, r')
              else if ce_Consumed entry then (Inl AlreadyConsumed, c, fs, r')
              else if ce_JTI entry \<noteq> jti then (Inl JTIMismatch, c, fs, r')
              else if env_now env > ce_ExpiresAt entry then (Inl GrantExpired, c, fs, r')
              else
                (let entry' = consumedEntry (env_now env) entry;
                     c' = consumedCache (env_now env) key entry c
                 in case ce_Payload entry of
                      None \<Rightarrow> (Inl NilPayload, c', fs, r')
                    | Some p \<Rightarrow>
                        (if agt_Scope p \<noteq> ScopeSession
                         then (let (res, fs') = persistConsumed A env (c_storage c) (ce_JTI entry) (env_now env) fs
                               in (attempt res PersistConsumed (\<lambda>u. Inr entry'), c', fs', r'))
                         else (Inr entry', c', fs, r'))))))"

text \<open>A subject that is not a UUID parses to the zero UUID; \<open>Matches\<close> reads the payload, which must be there.\<close>

definition Matches :: "prims \<Rightarrow> PurgeFilter \<Rightarrow> AGTPayload \<Rightarrow> bool" where
  "Matches P f p =
    (if (case pf_UserID f of None \<Rightarrow> False
         | Some u \<Rightarrow> (case uuid_Parse P (oid_UserID (agt_Subject p)) of None \<Rightarrow> 0 | Some uid \<Rightarrow> uid) \<noteq> u)
     then False
     else if (case pf_SrcNodeID f of None \<Rightarrow> False | Some s \<Rightarrow> agt_SrcNodeID p \<noteq> s) then False
     else if (case pf_ProtectedNodeID f of None \<Rightarrow> False | Some s \<Rightarrow> agt_ProtectedNodeID p \<noteq> s) then False
     else if (case pf_DeviceID f of None \<Rightarrow> False | Some d \<Rightarrow> agt_ApproverDeviceID p \<noteq> d) then False
     else if (case pf_PolicyVersionBefore f of None \<Rightarrow> False | Some v \<Rightarrow> agt_PolicyVersion p \<ge> v) then False
     else if (case pf_AuthzEpochBefore f of None \<Rightarrow> False | Some v \<Rightarrow> agt_AuthzEpoch p \<ge> v) then False
     else True)"

definition entryMatches :: "prims \<Rightarrow> PurgeFilter \<Rightarrow> CacheEntry \<Rightarrow> bool" where
  "entryMatches P f e = (case ce_Payload e of None \<Rightarrow> False | Some p \<Rightarrow> Matches P f p)"

definition Purge :: "prims \<Rightarrow> PurgeFilter \<Rightarrow> Cache \<Rightarrow> nat \<times> Cache" where
  "Purge P filt c =
     (length (filter (\<lambda>(k, e). entryMatches P filt e) (c_entries c)),
      c\<lparr>c_entries := filter (\<lambda>(k, e). \<not> entryMatches P filt e) (c_entries c)\<rparr>)"


section \<open>Well-formed caches\<close>

text \<open>
  Keys are unique, every entry has a payload (so no method of the cache dereferences nil) and is
  filed under its own key.
\<close>

definition cacheInv :: "prims \<Rightarrow> Cache \<Rightarrow> bool" where
  "cacheInv P c \<longleftrightarrow>
     distinct (map fst (c_entries c)) \<and>
     (\<forall>(k, e) \<in> set (c_entries c). ce_Payload e \<noteq> None \<and> k = Key P e)"

text \<open>Updating an association list: at most the updated binding is new.\<close>

lemma set_AList_update_distinct:
  assumes "distinct (map fst xs)"
  shows "set (AList.update k v xs) = insert (k, v) {x \<in> set xs. fst x \<noteq> k}"
  using assms by (induction xs) (auto simp: image_iff)

lemma cacheInv_update:
  assumes "cacheInv P c" "ce_Payload e \<noteq> None" "k = Key P e"
  shows "cacheInv P (c\<lparr>c_entries := AList.update k e (c_entries c)\<rparr>)"
  using assms by (auto simp: cacheInv_def set_AList_update_distinct distinct_update)

lemma Key_consumed [simp]: "Key P (e\<lparr>ce_Consumed := b, ce_ConsumedAt := t\<rparr>) = Key P e"
  by (simp add: Key_def)

lemma cacheInv_consumedJTIs [simp]: "cacheInv P (c\<lparr>c_consumedJTIs := xs\<rparr>) = cacheInv P c"
  by (simp add: cacheInv_def)

lemma cacheInv_lookup:
  assumes "cacheInv P c" "map_of (c_entries c) key = Some e"
  shows "ce_Payload e \<noteq> None" and "key = Key P e"
  using assms map_of_SomeD [OF assms(2)] by (auto simp: cacheInv_def)

text \<open>What each outcome of the two writing methods leaves in the cache.\<close>

lemma Store_cases:
  assumes "Store P A C env entry (c, fs) = (res, c', fs')"
  obtains (panic) "ce_Payload entry = None" "res = Inl NilPayload" "c' = c" "fs' = fs"
  | (stored) p where "ce_Payload entry = Some p" "res \<noteq> Inl NilPayload"
      "c' = c\<lparr>c_entries := AList.update (Key P entry) entry (c_entries c)\<rparr>"
      "if agt_Scope p = ScopeSession then fs' = fs else fs' = snd (persistGrant A C env (c_storage c) entry fs)"
  using assms
  by (cases "persistGrant A C env (c_storage c) entry fs"; cases "fst (persistGrant A C env (c_storage c) entry fs)")
     (auto simp: Store_def Let_def split: option.splits if_splits)

text \<open>The JTIs the cache knows as consumed.\<close>

definition spent :: "Cache \<Rightarrow> uuid set" where
  "spent c = fst ` set (c_consumedJTIs c)"

lemma spent_lookup [simp]: "map_of (c_consumedJTIs c) jti = None \<longleftrightarrow> jti \<notin> spent c"
  by (simp add: spent_def map_of_eq_None_iff)

lemma spent_consumedCache [simp]: "spent (consumedCache t key e c) = insert (ce_JTI e) (spent c)"
  by (simp add: consumedCache_def spent_def dom_update)

lemma spent_entries [simp]: "spent (c\<lparr>c_entries := xs\<rparr>) = spent c"
  by (simp add: spent_def)

lemma Consume_cases:
  assumes "Consume A rc env key jti (c, fs, r) = (res, c', fs', r')"
  obtains (refused) err where "res = Inl err" "c' = c" "fs' = fs"
  | (swapped) entry where "map_of (c_entries c) key = Some entry" "jti \<notin> spent c"
      "\<not> ce_Consumed entry" "ce_JTI entry = jti" "env_now env \<le> ce_ExpiresAt entry"
      "c' = consumedCache (env_now env) key entry c"
      "fst (callRemote rc jti r)" "r' = snd (callRemote rc jti r)"
      "case ce_Payload entry of None \<Rightarrow> res = Inl NilPayload \<and> fs' = fs
       | Some p \<Rightarrow> if agt_Scope p = ScopeSession then res = Inr (consumedEntry (env_now env) entry) \<and> fs' = fs
           else (res, fs') = (attempt (fst (persistConsumed A env (c_storage c) jti (env_now env) fs)) PersistConsumed
                  (\<lambda>u. Inr (consumedEntry (env_now env) entry)), snd (persistConsumed A env (c_storage c) jti (env_now env) fs))"
proof (cases "map_of (c_entries c) key")
  case None
  then show ?thesis using assms by (intro refused) (auto simp: Consume_def)
next
  case (Some entry)
  obtain ok r1 where r1: "callRemote rc jti r = (ok, r1)" by fastforce
  show ?thesis
  proof (cases "ok \<and> jti \<notin> spent c \<and> \<not> ce_Consumed entry \<and> ce_JTI entry = jti \<and>
      \<not> env_now env > ce_ExpiresAt entry")
    case False
    then show ?thesis using assms Some r1
      by (intro refused [of "projl res"]) (auto simp: Consume_def split: if_splits)
  next
    case True
    obtain pr pf where "persistConsumed A env (c_storage c) jti (env_now env) fs = (pr, pf)" by fastforce
    with True show ?thesis using assms Some r1
      by (intro swapped [of entry])
         (auto simp: Consume_def Let_def split: option.splits if_splits)
  qed
qed


lemma cacheInv_consumedCache:
  assumes "cacheInv P c" "map_of (c_entries c) key = Some e"
  shows "cacheInv P (consumedCache t key e c)"
  using cacheInv_update [OF assms(1), of "consumedEntry t e" key] cacheInv_lookup [OF assms]
  by (simp add: consumedCache_def consumedEntry_def)

section \<open>Executions\<close>

text \<open>
  The methods of a running daemon in any order, each call with its own clock, disk and random
  bytes. A step returns the JTI that \<open>Consume\<close> released, if it was a \<open>Consume\<close> that succeeded.
\<close>

datatype cache_op =
    OpStore call_env CacheEntry
  | OpStoreVerified call_env bytes int int Sensitivity
  | OpConsume call_env string uuid
  | OpPurge PurgeFilter

fun cacheStep ::
  "prims \<Rightarrow> aead \<Rightarrow> cache_codec \<Rightarrow> 'r remote option \<Rightarrow> cache_op \<Rightarrow> Cache \<times> files \<times> 'r
     \<Rightarrow> uuid list \<times> Cache \<times> files \<times> 'r" where
  "cacheStep P A C rc (OpStore env e) (c, fs, r) =
     (let (res, c', fs') = Store P A C env e (c, fs) in ([], c', fs', r))"
| "cacheStep P A C rc (OpStoreVerified env raw ep pv sens) (c, fs, r) =
     (let (res, c', fs') = StoreVerified P A C env raw ep pv sens (c, fs) in ([], c', fs', r))"
| "cacheStep P A C rc (OpConsume env key jti) (c, fs, r) =
     (let (res, s') = Consume A rc env key jti (c, fs, r)
      in (case res of Inl e \<Rightarrow> [] | Inr e \<Rightarrow> [ce_JTI e], s'))"
| "cacheStep P A C rc (OpPurge f) (c, fs, r) = ([], snd (Purge P f c), fs, r)"

fun cacheRun ::
  "prims \<Rightarrow> aead \<Rightarrow> cache_codec \<Rightarrow> 'r remote option \<Rightarrow> cache_op list \<Rightarrow> Cache \<times> files \<times> 'r
     \<Rightarrow> uuid list \<times> Cache \<times> files \<times> 'r" where
  "cacheRun P A C rc [] s = ([], s)"
| "cacheRun P A C rc (op # ops) s =
     (let (out, s1) = cacheStep P A C rc op s; (outs, s2) = cacheRun P A C rc ops s1 in (out @ outs, s2))"

lemma StoreVerified_cases:
  assumes "StoreVerified P A C env raw ep pv sens (c, fs) = (res, c', fs')"
  obtains (refused) err where "res = Inl err" "c' = c" "fs' = fs"
      "VerifyAndStore P C env raw (c_trustRoot c) ep pv sens = Inl err"
  | (verified) entry where "VerifyAndStore P C env raw (c_trustRoot c) ep pv sens = Inr entry"
      "Store P A C env entry (c, fs) = (res, c', fs')"
  using assms by (auto simp: StoreVerified_def split: sum.splits)

lemma Store_spent:
  assumes "Store P A C env e (c, fs) = (res, c', fs')"
  shows "spent c' = spent c"
  using assms by (rule Store_cases) auto

lemma cacheStep_spent:
  assumes "cacheStep P A C rc op (c, fs, r) = (out, c', fs', r')"
  shows "distinct out \<and> set out \<inter> spent c = {} \<and> set out \<union> spent c \<subseteq> spent c'"
proof (cases op)
  case (OpStore env e)
  with assms Store_spent show ?thesis by (auto split: prod.splits)
next
  case (OpStoreVerified env raw ep pv sens)
  then obtain res where s: "StoreVerified P A C env raw ep pv sens (c, fs) = (res, c', fs')" and "out = []"
    using assms by (auto split: prod.splits)
  moreover have "spent c' = spent c" using s by (rule StoreVerified_cases) (auto dest: Store_spent)
  ultimately show ?thesis by simp
next
  case (OpConsume env key jti)
  then obtain res where s: "Consume A rc env key jti (c, fs, r) = (res, c', fs', r')"
    and out: "out = (case res of Inl e \<Rightarrow> [] | Inr e \<Rightarrow> [ce_JTI e])"
    using assms by (auto split: prod.splits)
  from s show ?thesis
  proof (cases rule: Consume_cases)
    case (refused err)
    then show ?thesis using out by simp
  next
    case (swapped entry)
    then have "set out \<subseteq> {jti}" and "distinct out" and "spent c' = insert jti (spent c)"
      using out by (auto simp: consumedEntry_def split: option.splits if_splits sum.splits)
    then show ?thesis using swapped(2) by auto
  qed
next
  case (OpPurge f)
  with assms show ?thesis by (auto simp: Purge_def)
qed

lemma cacheRun_spent:
  "cacheRun P A C rc ops (c, fs, r) = (outs, c', fs', r') \<Longrightarrow>
     distinct outs \<and> set outs \<inter> spent c = {} \<and> set outs \<union> spent c \<subseteq> spent c'"
proof (induction ops arbitrary: c fs r outs)
  case Nil
  then show ?case by simp
next
  case (Cons op ops)
  obtain out c1 fs1 r1 where s: "cacheStep P A C rc op (c, fs, r) = (out, c1, fs1, r1)"
    by (metis prod_cases4)
  moreover obtain rest where t: "cacheRun P A C rc ops (c1, fs1, r1) = (rest, c', fs', r')" "outs = out @ rest"
    using Cons.prems s by (auto split: prod.splits)
  ultimately show ?case using Cons.IH [OF t(1)] cacheStep_spent [OF s] by auto
qed

text \<open>
  C10: single use. Over any sequence of calls, with any behaviour of the clock, the disk, the random
  source and the Approval Service, \<open>Consume\<close> releases each grant at most once, and never one
  that the cache already knew as consumed at the start; every grant it released is recorded.
\<close>

theorem Consume_single_use:
  "case cacheRun P A C rc ops (c, fs, r) of (released, c', fs', r') \<Rightarrow>
     distinct released \<and> set released \<inter> spent c = {} \<and> set released \<union> spent c \<subseteq> spent c'"
  using cacheRun_spent [of P A C rc ops c fs r] by (auto split: prod.splits)


section \<open>The contract with the Approval Service\<close>

text \<open>
  What the cache relies on in the callback of \<open>SetRemoteConsume\<close>: it answers true for a grant only
  if the grant was unused, and marks it used. Under this contract single use holds across caches that
  share nothing but the remote side: after a restart with an empty disk, or on another node.
\<close>

locale remote_consumption =
  fixes remote :: "'r remote" and used :: "'r \<Rightarrow> uuid set"
  assumes consumes: "remote r jti = (Inr True, r') \<Longrightarrow> jti \<notin> used r \<and> jti \<in> used r'"
    and monotone: "remote r jti = (res, r') \<Longrightarrow> used r \<subseteq> used r'"
begin

lemma step_used:
  assumes "cacheStep P A C (Some remote) op (c, fs, r) = (out, c', fs', r')"
  shows "set out \<inter> used r = {} \<and> set out \<union> used r \<subseteq> used r'"
proof (cases op)
  case (OpConsume env key jti)
  then obtain res where s: "Consume A (Some remote) env key jti (c, fs, r) = (res, c', fs', r')"
    and out: "out = (case res of Inl e \<Rightarrow> [] | Inr e \<Rightarrow> [ce_JTI e])"
    using assms by (auto split: prod.splits)
  obtain b r1 where b: "remote r jti = (b, r1)" by fastforce
  have r': "r' = r \<or> r' = r1" using s b
    by (auto simp: Consume_def callRemote_def Let_def split: option.splits if_splits prod.splits)
  from s show ?thesis
  proof (cases rule: Consume_cases)
    case (refused err)
    then show ?thesis using out r' monotone [OF b] by auto
  next
    case (swapped entry)
    then have "b = Inr True" "r' = r1" using b by (auto simp: callRemote_def)
    moreover have "set out \<subseteq> {jti}"
      using swapped out by (auto simp: consumedEntry_def split: option.splits if_splits sum.splits)
    ultimately show ?thesis using consumes monotone [OF b] b by blast
  qed
qed (use assms in \<open>auto split: prod.splits\<close>)

lemma run_used:
  "cacheRun P A C (Some remote) ops (c, fs, r) = (outs, c', fs', r') \<Longrightarrow>
     set outs \<inter> used r = {} \<and> set outs \<union> used r \<subseteq> used r'"
proof (induction ops arbitrary: c fs r outs)
  case Nil
  then show ?case by simp
next
  case (Cons op ops)
  obtain out c1 fs1 r1 where s: "cacheStep P A C (Some remote) op (c, fs, r) = (out, c1, fs1, r1)"
    by (metis prod_cases4)
  moreover obtain rest where t: "cacheRun P A C (Some remote) ops (c1, fs1, r1) = (rest, c', fs', r')" "outs = out @ rest"
    using Cons.prems s by (auto split: prod.splits)
  ultimately show ?case using Cons.IH [OF t(1)] step_used [OF s] by auto
qed

lemma runs_disjoint:
  assumes "cacheRun P1 A1 C1 (Some remote) ops1 (c1, fs1, r) = (out1, c1', fs1', r1)"
    and "cacheRun P2 A2 C2 (Some remote) ops2 (c2, fs2, r1) = (out2, c2', fs2', r2)"
  shows "set out1 \<inter> set out2 = {}"
  using run_used [OF assms(1)] run_used [OF assms(2)] by blast

end


section \<open>What a check and a purge mean\<close>

lemma Check_iff:
  "Check t key c = Some e \<longleftrightarrow>
     map_of (c_entries c) key = Some e \<and> t \<le> ce_ExpiresAt e \<and> \<not> ce_Consumed e \<and> ce_JTI e \<notin> spent c"
  by (auto simp: Check_def split: option.splits if_splits)

text \<open>
  An entry that rests on a signature: its bytes were accepted by \<open>VerifyAccessGrantToken\<close> under the
  trust root at some time and for some expectations, and its fields are those of the token.
\<close>

definition backed :: "prims \<Rightarrow> cache_codec \<Rightarrow> bytes \<Rightarrow> CacheEntry \<Rightarrow> bool" where
  "backed P C root e \<longleftrightarrow>
     (\<exists>t ep pv sens tok. VerifyAccessGrantToken P (cc_env C) t (ce_AGTBytes e) root ep pv sens = Inr tok \<and>
        ce_Payload e = Some (tok_Payload tok) \<and> ce_JTI e = agt_JTI (tok_Payload tok) \<and>
        ce_ExpiresAt e = agt_ExpiresAt (tok_Payload tok))"

definition allBacked :: "prims \<Rightarrow> cache_codec \<Rightarrow> Cache \<Rightarrow> bool" where
  "allBacked P C c \<longleftrightarrow> (\<forall>e \<in> snd ` set (c_entries c). backed P C (c_trustRoot c) e)"

lemma VerifyAndStore_backed: "VerifyAndStore P C env raw root ep pv sens = Inr e \<Longrightarrow> backed P C root e"
  unfolding VerifyAndStore_def backed_def attempt_Inr by fastforce

lemma set_AList_update_subset: "set (AList.update k v xs) \<subseteq> insert (k, v) (set xs)"
  by (induction xs) auto

lemma allBacked_update:
  assumes "allBacked P C c" "backed P C (c_trustRoot c) e"
  shows "allBacked P C (c\<lparr>c_entries := AList.update k e (c_entries c)\<rparr>)"
  using assms set_AList_update_subset [of k e "c_entries c"] by (fastforce simp: allBacked_def)

lemma backed_consumedEntry [simp]: "backed P C root (consumedEntry t e) = backed P C root e"
  by (simp add: backed_def consumedEntry_def)

lemma allBacked_consumedCache:
  assumes "allBacked P C c" "map_of (c_entries c) key = Some e"
  shows "allBacked P C (consumedCache t key e c)"
proof -
  have "backed P C (c_trustRoot c) (consumedEntry t e)"
    using assms map_of_SomeD [OF assms(2)] by (force simp: allBacked_def)
  from allBacked_update [OF assms(1) this, of key] show ?thesis
    by (simp add: consumedCache_def allBacked_def)
qed

text \<open>The calls a daemon makes in production: no unverified \<open>Store\<close>.\<close>

fun verifiedOp :: "cache_op \<Rightarrow> bool" where
  "verifiedOp (OpStore env e) = False"
| "verifiedOp _ = True"

lemma cacheStep_backed:
  assumes "cacheStep P A C rc op (c, fs, r) = (out, c', fs', r')" "verifiedOp op" "allBacked P C c"
  shows "allBacked P C c' \<and> c_trustRoot c' = c_trustRoot c"
proof (cases op)
  case (OpStoreVerified env raw ep pv sens)
  then obtain res where s: "StoreVerified P A C env raw ep pv sens (c, fs) = (res, c', fs')"
    using assms by (auto split: prod.splits)
  then show ?thesis
  proof (cases rule: StoreVerified_cases)
    case (verified entry)
    from verified(2) show ?thesis
      by (rule Store_cases) (use assms(3) VerifyAndStore_backed [OF verified(1)] allBacked_update in auto)
  qed (use assms(3) in simp)
next
  case (OpConsume env key jti)
  then obtain res where "Consume A rc env key jti (c, fs, r) = (res, c', fs', r')"
    using assms by (auto split: prod.splits)
  then show ?thesis
    by (rule Consume_cases) (use assms(3) allBacked_consumedCache in \<open>auto simp: consumedCache_def\<close>)
next
  case (OpPurge f)
  with assms show ?thesis by (force simp: Purge_def allBacked_def)
qed (use assms(2) in simp)

lemma cacheRun_backed:
  "cacheRun P A C rc ops (c, fs, r) = (outs, c', fs', r') \<Longrightarrow> list_all verifiedOp ops \<Longrightarrow> allBacked P C c \<Longrightarrow>
     allBacked P C c' \<and> c_trustRoot c' = c_trustRoot c"
proof (induction ops arbitrary: c fs r outs)
  case Nil
  then show ?case by simp
next
  case (Cons op ops)
  obtain out c1 fs1 r1 where s: "cacheStep P A C rc op (c, fs, r) = (out, c1, fs1, r1)"
    by (metis prod_cases4)
  moreover obtain rest where "cacheRun P A C rc ops (c1, fs1, r1) = (rest, c', fs', r')"
    using Cons.prems s by (auto split: prod.splits)
  ultimately show ?case using Cons.IH Cons.prems cacheStep_backed [OF s] by fastforce
qed

subsection \<open>Caches stay well-formed\<close>

lemma cacheInv_Store:
  assumes "Store P A C env e (c, fs) = (res, c', fs')" "cacheInv P c"
  shows "cacheInv P c'"
  using assms(1) by (rule Store_cases) (use assms(2) cacheInv_update in auto)

lemma cacheInv_Purge: "cacheInv P c \<Longrightarrow> cacheInv P (snd (Purge P f c))"
  by (auto simp: cacheInv_def Purge_def distinct_map inj_on_def)

lemma cacheInv_step:
  assumes "cacheStep P A C rc op (c, fs, r) = (out, c', fs', r')" "cacheInv P c"
  shows "cacheInv P c'"
proof (cases op)
  case (OpStore env e)
  with assms cacheInv_Store show ?thesis by (auto split: prod.splits)
next
  case (OpStoreVerified env raw ep pv sens)
  then obtain res where "StoreVerified P A C env raw ep pv sens (c, fs) = (res, c', fs')"
    using assms(1) by (auto split: prod.splits)
  then show ?thesis by (rule StoreVerified_cases) (use assms(2) cacheInv_Store in auto)
next
  case (OpConsume env key jti)
  then obtain res where "Consume A rc env key jti (c, fs, r) = (res, c', fs', r')"
    using assms(1) by (auto split: prod.splits)
  then show ?thesis by (rule Consume_cases) (use assms(2) cacheInv_consumedCache in auto)
next
  case (OpPurge f)
  with assms cacheInv_Purge [of P c f] show ?thesis by simp
qed

lemma cacheInv_run:
  "cacheRun P A C rc ops (c, fs, r) = (outs, c', fs', r') \<Longrightarrow> cacheInv P c \<Longrightarrow> cacheInv P c'"
proof (induction ops arbitrary: c fs r outs)
  case (Cons op ops)
  obtain out c1 fs1 r1 where s: "cacheStep P A C rc op (c, fs, r) = (out, c1, fs1, r1)"
    by (metis prod_cases4)
  moreover obtain rest where "cacheRun P A C rc ops (c1, fs1, r1) = (rest, c', fs', r')"
    using Cons.prems s by (auto split: prod.splits)
  ultimately show ?case using Cons.IH Cons.prems(2) cacheInv_step [OF s] by blast
qed simp

lemma Consume_no_nil:
  assumes "cacheInv P c"
  shows "fst (Consume A rc env key jti (c, fs, r)) \<noteq> Inl NilPayload"
proof (cases "map_of (c_entries c) key")
  case (Some e)
  then obtain p where "ce_Payload e = Some p" using cacheInv_lookup(1) [OF assms Some] by blast
  with Some show ?thesis by (auto simp: Consume_def Let_def split_beta attempt_def split: sum.splits)
qed (simp add: Consume_def)

text \<open>
  C35: Well-formedness: from a well-formed cache, such as the empty one, every sequence of calls leads to a
  well-formed one: keys are unique, every entry has a payload and is filed under the key that is
  computed from it. So what \<open>Check\<close> finds under a key is an entry of that key, and \<open>Consume\<close> never
  dereferences a missing payload.
\<close>

theorem cache_stays_wellformed:
  assumes "cacheRun P A C rc ops (c, fs, r) = (released, c', fs', r')" and "cacheInv P c"
  shows "cacheInv P c' \<and> map_option (Key P) (Check t key c') \<in> {None, Some key} \<and>
    fst (Consume A rc env key jti (c', fs', r')) \<noteq> Inl NilPayload"
proof -
  have inv: "cacheInv P c'" by (rule cacheInv_run [OF assms])
  have "Key P e = key" if "Check t key c' = Some e" for e
    using that cacheInv_lookup(2) [OF inv, of key e] by (simp add: Check_iff)
  with inv Consume_no_nil [OF inv, of A rc env key jti fs' r'] show ?thesis by (cases "Check t key c'") auto
qed

text \<open>
  C36: Where no entry is stored unverified: after any sequence of verified stores, consumptions and purges, from a well-formed cache whose entries the trust root had signed (the empty
  one, for example), an entry that \<open>Check\<close> lets through under a key is a grant whose bytes the trust root
  signed, filed under its own key, unexpired, unconsumed and never released in the run.
\<close>

theorem Check_only_backed:
  assumes run: "cacheRun P A C rc ops (c, fs, r) = (released, c', fs', r')"
    and ops: "list_all verifiedOp ops" and start: "allBacked P C c" "cacheInv P c"
    and found: "Check t key c' = Some e"
  shows "backed P C (c_trustRoot c) e \<and> key = Key P e \<and> t \<le> ce_ExpiresAt e \<and> \<not> ce_Consumed e \<and>
         ce_JTI e \<notin> spent c' \<and> ce_JTI e \<notin> set released"
proof -
  have f: "map_of (c_entries c') key = Some e" "t \<le> ce_ExpiresAt e" "\<not> ce_Consumed e" "ce_JTI e \<notin> spent c'"
    using found by (simp_all add: Check_iff)
  moreover have "backed P C (c_trustRoot c) e"
    using cacheRun_backed [OF run ops start(1)] map_of_SomeD [OF f(1)] by (force simp: allBacked_def)
  moreover have "key = Key P e" by (rule cacheInv_lookup(2) [OF cacheInv_run [OF run start(2)] f(1)])
  moreover have "set released \<subseteq> spent c'" using cacheRun_spent [OF run] by simp
  ultimately show ?thesis by blast
qed

text \<open>
  \<open>Purge\<close> removes exactly the entries its filter matches: no purged grant can be found
  afterwards, every other is found unchanged, and the count it returns is the number of grants that
  went.
\<close>

theorem Purge_exact:
  assumes inv: "cacheInv P c" and p: "Purge P f c = (n, c')"
  shows "map_of (c_entries c') key =
           (case map_of (c_entries c) key of
              None \<Rightarrow> None | Some e \<Rightarrow> if entryMatches P f e then None else Some e) \<and>
         length (c_entries c) = n + length (c_entries c') \<and> cacheInv P c' \<and> spent c' = spent c"
proof -
  let ?keep = "filter (\<lambda>(k, e). \<not> entryMatches P f e) (c_entries c)"
  have d: "distinct (map fst (c_entries c))" using inv by (simp add: cacheInv_def)
  have c': "c' = c\<lparr>c_entries := ?keep\<rparr>"
    and n: "n = length (filter (\<lambda>(k, e). entryMatches P f e) (c_entries c))"
    using p by (simp_all add: Purge_def)
  have "map_of ?keep key = (case map_of (c_entries c) key of
      None \<Rightarrow> None | Some e \<Rightarrow> if entryMatches P f e then None else Some e)"
    using map_of_filter_values [OF d] by (auto split: option.splits)
  moreover have "length (c_entries c) = n + length ?keep"
    using sum_length_filter_compl [of "\<lambda>(k, e). entryMatches P f e" "c_entries c"]
    by (simp add: n case_prod_unfold)
  moreover have "cacheInv P c'"
    using inv distinct_fst_filter [OF d] by (auto simp: c' cacheInv_def)
  ultimately show ?thesis by (simp add: c')
qed


section \<open>Across a restart\<close>

text \<open>The storage of a running daemon: its key is the one in the key file.\<close>

definition storageReady :: "persistentStorage \<Rightarrow> files \<Rightarrow> bool" where
  "storageReady ps fs \<longleftrightarrow> fs (ps_path ps @ ''.key'') = Some (ps_key ps) \<and> length (ps_key ps) = 32"

text \<open>The random source delivers a nonce.\<close>

definition hasNonce :: "call_env \<Rightarrow> bytes \<Rightarrow> bool" where
  "hasNonce env n \<longleftrightarrow> env_rand env nonceSize = Some n \<and> length n = nonceSize"

lemma loadOrCreateKey_32:
  assumes "loadOrCreateKey env f fs = (Inr key, fs')" and "\<And>k. env_rand env 32 = Some k \<Longrightarrow> length k = 32"
  shows "length key = 32 \<and> fs' f = Some key"
  using assms
  by (auto simp: loadOrCreateKey_def writeFile_def Let_def split: if_splits option.splits prod.splits)

lemma newPersistentStorage_ready:
  assumes "storageReady ps fs" "newPersistentStorage env (ps_path ps) fs = (Inr ps', fs')"
  shows "ps' = ps \<and> fs' = fs"
  using assms
  by (cases ps) (auto simp: newPersistentStorage_def loadOrCreateKey_def storageReady_def Let_def
      split: if_splits option.splits)

lemma encrypt_ready:
  assumes "length (ps_key ps) = 32" "hasNonce env n"
  shows "encrypt A env ps m = Inr (n @ gcm_Seal A (ps_key ps) n m)"
  using assms by (simp add: encrypt_def hasNonce_def aesKeyOK_def)

lemma decrypt_prefixed:
  assumes "length (ps_key ps) = 32" "length n = nonceSize"
  shows "decrypt A ps (n @ ct) = need (gcm_Open A (ps_key ps) n ct) OpenFailed Inr"
  using assms by (simp add: decrypt_def aesKeyOK_def)

lemma decrypt_encrypt:
  assumes "aead_opens A" "length (ps_key ps) = 32" "length n = nonceSize"
  shows "decrypt A ps (n @ gcm_Seal A (ps_key ps) n m) = Inr m"
  using assms by (simp add: decrypt_prefixed aead_opens_def)

lemma length_consumedRecord [simp]: "length (consumedRecord jti t) = 24"
  by (simp add: consumedRecord_def)

text \<open>The record format round-trips: a log of records in clear reads back record by record.\<close>

lemma parseConsumed_record:
  "parseConsumed (consumedRecord jti t @ rest) acc =
     parseConsumed rest (AList.update jti (unixEpoch + wrap64 (unixNano t)) acc)"
  by (subst parseConsumed.simps)
     (simp add: consumedRecord_def int64ToBytes_decode)

lemma parseConsumed_Nil [simp]: "parseConsumed [] acc = acc"
  by (simp add: parseConsumed.simps)

lemma persistConsumed_Inr:
  assumes "persistConsumed A env ps jti t fs = (Inr (), fs')"
    and "length (ps_key ps) = 32" "hasNonce env n"
  shows "fs' = fs(ps_path ps @ ''.consumed'' \<mapsto>
     (case fs (ps_path ps @ ''.consumed'') of None \<Rightarrow> [] | Some d \<Rightarrow> d) @
       n @ gcm_Seal A (ps_key ps) n (consumedRecord jti t))"
  using assms(1) encrypt_ready [OF assms(2,3), of A "consumedRecord jti t"]
  by (auto simp: persistConsumed_def Let_def split: if_splits option.splits)

text \<open>
  C37: The first consumption survives a restart that follows it directly: when \<open>Consume\<close> released a grant
  that is not a SESSION grant and no record was in the log before, a cache opened on the files as that
  call left them knows the grant as consumed, and no sequence of its calls releases it again,
  whatever the Approval Service answers. (A second record spoils the log, as shown below.)
\<close>

theorem consumption_survives_restart:
  assumes aead: "aead_opens A"
    and ready: "storageReady (c_storage c) fs" "hasNonce env n"
    and first: "fs (ps_path (c_storage c) @ ''.consumed'') = None"
    and cons: "Consume A rc env key jti (c, fs, r) = (Inr e, c', fs', r')"
    and scope: "map_option agt_Scope (ce_Payload e) \<noteq> Some ScopeSession"
    and restart: "NewCache P A C env2 (ps_path (c_storage c)) root fs' = (Inr c2, fs2)"
  shows "jti \<in> spent c2 \<and> jti \<notin> set (fst (cacheRun P2 A2 C2 rc2 ops (c2, fs3, r3)))"
proof -
  let ?ps = "c_storage c" and ?log = "ps_path (c_storage c) @ ''.consumed''"
  have k: "length (ps_key ?ps) = 32" using ready by (simp add: storageReady_def)
  have p: "persistConsumed A env ?ps jti (env_now env) fs = (Inr (), fs')"
    using cons
  proof (cases rule: Consume_cases)
    case (swapped entry)
    then show ?thesis using scope
      by (cases "persistConsumed A env ?ps jti (env_now env) fs")
         (auto simp: consumedEntry_def split: option.splits if_splits)
  qed simp
  have log: "fs' ?log = Some (n @ gcm_Seal A (ps_key ?ps) n (consumedRecord jti (env_now env)))"
    using persistConsumed_Inr [OF p k ready(2)] first by simp
  have r2: "storageReady ?ps fs'"
    using persistConsumed_Inr [OF p k ready(2)] ready(1) by (simp add: storageReady_def)
  have ld: "loadConsumed A env2 ?ps fs' [] \<in>
      {Inl ReadLog, Inr (parseConsumed (consumedRecord jti (env_now env)) [])}"
    using log decrypt_encrypt [OF aead k, of n "consumedRecord jti (env_now env)"] ready(2)
    by (simp add: loadConsumed_def reject_def hasNonce_def Let_def)
  obtain r0 fs0 where n0: "newPersistentStorage env2 (ps_path ?ps) fs' = (r0, fs0)" by fastforce
  with restart obtain ps' where "r0 = Inr ps'" by (auto simp: NewCache_def)
  with n0 newPersistentStorage_ready [OF r2] have "r0 = Inr ?ps" "fs0 = fs'" by auto
  with n0 restart ld have "c_consumedJTIs c2 = parseConsumed (consumedRecord jti (env_now env)) []"
    by (auto simp: NewCache_def)
  then have "jti \<in> spent c2"
    using parseConsumed_record [of jti "env_now env" "[]" "[]"] by (simp add: spent_def dom_update)
  moreover obtain outs c' fs' r' where "cacheRun P2 A2 C2 rc2 ops (c2, fs3, r3) = (outs, c', fs', r')" by (metis prod_cases4)
  moreover from cacheRun_spent [OF this] have "set outs \<inter> spent c2 = {}" by blast
  ultimately show ?thesis by auto
qed

text \<open>
  the consumption log does not survive a second record. \<open>persistConsumed\<close> appends one ciphertext
  per consumption, while \<open>loadConsumed\<close> decrypts the file as a single ciphertext: whatever the second
  append followed, the file never decrypts to the two records (a plaintext it decrypts to, if any, is
  76 bytes long, not 48).
\<close>

theorem consumed_log_two_records_lost:
  assumes aead: "aead_expands A" and key: "length (ps_key ps) = 32"
    and nonces: "hasNonce env1 n1" "hasNonce env2 n2"
    and first: "fs (ps_path ps @ ''.consumed'') = None"
    and one: "persistConsumed A env1 ps j1 t1 fs = (Inr (), fs1)"
    and two: "persistConsumed A env2 ps j2 t2 fs1 = (Inr (), fs2)"
  shows "fs2 (ps_path ps @ ''.consumed'') = Some log \<Longrightarrow>
           decrypt A ps log \<noteq> Inr (consumedRecord j1 t1 @ consumedRecord j2 t2) \<and>
           (case decrypt A ps log of Inl e \<Rightarrow> True | Inr p \<Rightarrow> length p = 76)"
proof -
  assume log: "fs2 (ps_path ps @ ''.consumed'') = Some log"
  let ?c = "\<lambda>n j t. n @ gcm_Seal A (ps_key ps) n (consumedRecord j t)"
  have "log = n1 @ (gcm_Seal A (ps_key ps) n1 (consumedRecord j1 t1) @ ?c n2 j2 t2)" (is "_ = n1 @ ?rest")
    using log first persistConsumed_Inr [OF one key nonces(1)] persistConsumed_Inr [OF two key nonces(2)] by simp
  moreover have "length n1 = nonceSize" "length ?rest = 92"
    using nonces aead by (simp_all add: hasNonce_def aead_expands_def nonceSize_def)
  ultimately have "decrypt A ps log = need (gcm_Open A (ps_key ps) n1 ?rest) OpenFailed Inr"
    using decrypt_prefixed [OF key] by blast
  moreover have "length p = 76" if "gcm_Open A (ps_key ps) n1 ?rest = Some p" for p
  proof -
    have "length ?rest = length p + 16" using aead that unfolding aead_expands_def by blast
    with \<open>length ?rest = 92\<close> show ?thesis by linarith
  qed
  ultimately show ?thesis by (cases "gcm_Open A (ps_key ps) n1 ?rest") auto
qed

text \<open>What a restored cache holds: at most the one grant of the grant file.\<close>

lemma loadGrants_restores:
  assumes "loadGrants P A C env ps fs [] = Inr es"
  shows "es = [] \<or> (\<exists>e p. es = [(Key P e, e)] \<and> ce_Payload e = Some p \<and> agt_Scope p \<noteq> ScopeSession \<and>
           env_now env < ce_ExpiresAt e)"
  using assms
  by (auto simp: loadGrants_def split: option.splits if_splits)

text \<open>
  a restart restores at most one grant, the last one persisted, which is unexpired and never a
  SESSION grant, and leaves a well-formed cache.
\<close>

theorem NewCache_restores_at_most_one:
  assumes "NewCache P A C env path root fs = (Inr c, fs')"
  shows "length (c_entries c) \<le> 1 \<and> cacheInv P c \<and> c_trustRoot c = root \<and>
         (\<forall>(k, e) \<in> set (c_entries c). env_now env < ce_ExpiresAt e \<and>
            map_option agt_Scope (ce_Payload e) \<noteq> Some ScopeSession)"
proof -
  obtain ps con where "loadGrants P A C env ps fs' [] = Inr (c_entries c)" "c_trustRoot c = root"
    using assms by (auto simp: NewCache_def split: prod.splits)
  then show ?thesis by (auto dest!: loadGrants_restores simp: cacheInv_def)
qed

text \<open>What the grant file can hold: an encrypted entry that is not a SESSION grant.\<close>

definition sealedNonSession :: "aead \<Rightarrow> persistentStorage \<Rightarrow> bytes \<Rightarrow> cache_codec \<Rightarrow> bool" where
  "sealedNonSession A ps data C \<longleftrightarrow>
     (\<exists>n e. data = n @ gcm_Seal A (ps_key ps) n
              (case EncodeCanonical (encModeOK (ec_cose (cc_env C))) (marshal_Entry C) e of Inl x \<Rightarrow> [] | Inr b \<Rightarrow> b) \<and>
        ce_Payload e \<noteq> None \<and> map_option agt_Scope (ce_Payload e) \<noteq> Some ScopeSession)"

definition grantFileOK :: "aead \<Rightarrow> cache_codec \<Rightarrow> persistentStorage \<Rightarrow> files \<Rightarrow> files \<Rightarrow> bool" where
  "grantFileOK A C ps fs fs' \<longleftrightarrow>
     (case fs' (ps_path ps) of
        None \<Rightarrow> fs (ps_path ps) = None
      | Some data \<Rightarrow> fs (ps_path ps) = Some data \<or> sealedNonSession A ps data C)"

lemma grantFileOK_refl [simp]: "grantFileOK A C ps fs fs"
  by (simp add: grantFileOK_def split: option.splits)

lemma grantFileOK_trans:
  "grantFileOK A C ps fs fs1 \<Longrightarrow> grantFileOK A C ps fs1 fs2 \<Longrightarrow> grantFileOK A C ps fs fs2"
  by (auto simp: grantFileOK_def split: option.splits)

lemma persistGrant_file:
  assumes "ce_Payload e = Some p" "agt_Scope p \<noteq> ScopeSession"
  shows "grantFileOK A C ps fs (snd (persistGrant A C env ps e fs))"
proof (cases "encrypt A env ps (case EncodeCanonical (encModeOK (ec_cose (cc_env C))) (marshal_Entry C) e of
    Inl x \<Rightarrow> [] | Inr b \<Rightarrow> b)")
  case (Inl x)
  then show ?thesis by (simp add: persistGrant_def)
next
  case (Inr ct)
  then have "sealedNonSession A ps ct C"
    using assms by (fastforce simp: sealedNonSession_def encrypt_def)
  with Inr show ?thesis
    by (auto simp: persistGrant_def writeFile_def Let_def grantFileOK_def split: option.splits)
qed

lemma persistConsumed_file: "grantFileOK A C ps fs (snd (persistConsumed A env ps jti t fs))"
  by (auto simp: persistConsumed_def Let_def grantFileOK_def split: option.splits)

lemma Store_file:
  assumes "Store P A C env e (c, fs) = (res, c', fs')"
  shows "grantFileOK A C (c_storage c) fs fs' \<and> c_storage c' = c_storage c"
  using assms
proof (cases rule: Store_cases)
  case (stored p)
  then show ?thesis using persistGrant_file [of e p A C "c_storage c" fs env] by (auto split: if_splits)
qed simp

lemma Consume_file:
  assumes "Consume A rc env key jti (c, fs, r) = (res, c', fs', r')"
  shows "grantFileOK A C (c_storage c) fs fs' \<and> c_storage c' = c_storage c"
  using assms
proof (cases rule: Consume_cases)
  case (swapped entry)
  then show ?thesis using persistConsumed_file [of A C "c_storage c" fs env jti "env_now env"]
    by (auto simp: consumedCache_def split: option.splits if_splits)
qed simp

lemma cacheStep_file:
  assumes "cacheStep P A C rc op (c, fs, r) = (out, c', fs', r')"
  shows "grantFileOK A C (c_storage c) fs fs' \<and> c_storage c' = c_storage c"
proof (cases op)
  case (OpStore env e)
  with assms Store_file show ?thesis by (auto split: prod.splits)
next
  case (OpStoreVerified env raw ep pv sens)
  then obtain res where "StoreVerified P A C env raw ep pv sens (c, fs) = (res, c', fs')"
    using assms by (auto split: prod.splits)
  then show ?thesis by (rule StoreVerified_cases) (auto dest: Store_file)
next
  case (OpConsume env key jti)
  then obtain res where "Consume A rc env key jti (c, fs, r) = (res, c', fs', r')"
    using assms by (auto split: prod.splits)
  then show ?thesis by (rule Consume_file)
next
  case (OpPurge f)
  with assms show ?thesis by (auto simp: Purge_def)
qed

lemma cacheRun_file:
  "cacheRun P A C rc ops (c, fs, r) = (outs, c', fs', r') \<Longrightarrow>
     grantFileOK A C (c_storage c) fs fs' \<and> c_storage c' = c_storage c"
proof (induction ops arbitrary: c fs r outs)
  case Nil
  then show ?case by simp
next
  case (Cons op ops)
  obtain out c1 fs1 r1 where s: "cacheStep P A C rc op (c, fs, r) = (out, c1, fs1, r1)"
    by (metis prod_cases4)
  moreover obtain rest where t: "cacheRun P A C rc ops (c1, fs1, r1) = (rest, c', fs', r')"
    using Cons.prems s by (auto split: prod.splits)
  ultimately show ?case using Cons.IH [OF t] cacheStep_file [OF s] grantFileOK_trans by metis
qed

text \<open>
  SESSION grants are never written to disk: after any sequence of calls, with any disk faults, the
  grant file is what it was at the start or the encryption of an entry whose scope is not SESSION.
\<close>

theorem session_grants_never_persisted:
  "case cacheRun P A C rc ops (c, fs, r) of (released, c', fs', r') \<Rightarrow> grantFileOK A C (c_storage c) fs fs'"
  using cacheRun_file [of P A C rc ops c fs r] by (auto split: prod.splits)



section \<open>Concrete caches\<close>

text \<open>
  The hypotheses of the theorems above hold on these values: the AEAD of the prelude, a
  disk without faults, and a cache that holds the grant of \<open>demo_agt\<close>.
\<close>

definition demo_env :: "gotime \<Rightarrow> call_env" where
  "demo_env t =
     \<lparr>env_now = t,
      env_disk = \<lparr>readFails = (\<lambda>p. False), writeFault = (\<lambda>p. None), renameFails = False, openFails = False,
                  appendFault = None, syncFails = False\<rparr>,
      env_rand = (\<lambda>n. Some (replicate n 1))\<rparr>"

lemma demo_env_sel [simp]:
  "env_now (demo_env t) = t" "env_rand (demo_env t) n = Some (replicate n 1)"
  "readFails (env_disk (demo_env t)) p = False" "writeFault (env_disk (demo_env t)) p = None"
  "renameFails (env_disk (demo_env t)) = False" "openFails (env_disk (demo_env t)) = False"
  "appendFault (env_disk (demo_env t)) = None" "syncFails (env_disk (demo_env t)) = False"
  by (simp_all add: demo_env_def)

lemma demo_hasNonce [simp]: "hasNonce (demo_env t) (replicate 12 1)"
  by (simp add: hasNonce_def nonceSize_def)

definition demo_storage :: persistentStorage where
  "demo_storage = \<lparr>ps_path = ''g'', ps_key = replicate 32 7\<rparr>"

definition demo_entry :: CacheEntry where
  "demo_entry =
     \<lparr>ce_JTI = 7, ce_AGTBytes = [3], ce_Payload = Some demo_agt, ce_Consumed = False, ce_ConsumedAt = None,
      ce_CachedAt = 150 * second, ce_ExpiresAt = 200 * second\<rparr>"

definition demo_cache :: Cache where
  "demo_cache = \<lparr>c_entries = [(''k'', demo_entry)], c_consumedJTIs = [], c_storage = demo_storage, c_trustRoot = [8]\<rparr>"

definition demo_files :: files where
  "demo_files = [''g.key'' \<mapsto> replicate 32 7]"

definition demo_cc :: cache_codec where
  "demo_cc = \<lparr>cc_env = demo_codec ''dnivio-agt-v2'' demo_req, marshal_Entry = (\<lambda>e. Some [6]),
             unmarshal_Entry = (\<lambda>b. Some demo_entry)\<rparr>"

lemmas demo_cache_defs = demo_storage_def demo_entry_def demo_cache_def demo_files_def

lemma demo_consume:
  "Consume demo_aead None (demo_env (160 * second)) ''k'' 7 (demo_cache, demo_files, ()) =
     (Inr (consumedEntry (160 * second) demo_entry),
      consumedCache (160 * second) ''k'' demo_entry demo_cache,
      demo_files(''g.consumed'' \<mapsto> replicate 12 1 @
         gcm_Seal demo_aead (replicate 32 7) (replicate 12 1) (consumedRecord 7 (160 * second))), ())"
  by (simp add: Consume_def callRemote_def demo_cache_defs persistConsumed_def encrypt_def aesKeyOK_def
      nonceSize_def second_def demo_agt_def Let_def)

theorem consumption_survives_restart_witness:
  "7 \<notin> set (fst (cacheRun demo_prims demo_aead demo_cc None [OpConsume (demo_env (170 * second)) ''k'' 7]
     (\<lparr>c_entries = [], c_consumedJTIs = [(7, unixEpoch + wrap64 (unixNano (160 * second)))],
       c_storage = demo_storage, c_trustRoot = [8]\<rparr>, demo_files, ())))"
proof -
  let ?fs = "demo_files(''g.consumed'' \<mapsto> replicate 12 1 @
     gcm_Seal demo_aead (replicate 32 7) (replicate 12 1) (consumedRecord 7 (160 * second)))"
  let ?c2 = "\<lparr>c_entries = [], c_consumedJTIs = [(7, unixEpoch + wrap64 (unixNano (160 * second)))],
       c_storage = demo_storage, c_trustRoot = [8]\<rparr>"
  have ld: "loadConsumed demo_aead (demo_env (165 * second)) demo_storage ?fs [] =
      Inr [(7, unixEpoch + wrap64 (unixNano (160 * second)))]"
    using decrypt_encrypt [of demo_aead demo_storage "replicate 12 1" "consumedRecord 7 (160 * second)"]
      parseConsumed_record [of 7 "160 * second" "[]" "[]"]
    by (simp add: loadConsumed_def demo_storage_def nonceSize_def)
  have nc: "NewCache demo_prims demo_aead demo_cc (demo_env (165 * second)) (ps_path (c_storage demo_cache)) [8] ?fs =
      (Inr ?c2, ?fs)"
    using ld by (simp add: NewCache_def newPersistentStorage_def loadOrCreateKey_def loadGrants_def
        demo_cache_def demo_storage_def demo_files_def)
  have "storageReady (c_storage demo_cache) demo_files" "demo_files (ps_path (c_storage demo_cache) @ ''.consumed'') = None"
    "map_option agt_Scope (ce_Payload (consumedEntry (160 * second) demo_entry)) \<noteq> Some ScopeSession"
    by (simp_all add: storageReady_def demo_cache_defs consumedEntry_def demo_agt_def)
  from consumption_survives_restart [OF demo_aead_opens this(1) demo_hasNonce this(2) demo_consume this(3) nc]
  show ?thesis by (rule conjunct2)
qed

text \<open>The same disk after a second consumption can no longer be opened.\<close>

definition demo_log :: "nat \<Rightarrow> bytes" where
  "demo_log n = concat (map (\<lambda>j. replicate 12 1 @ consumedRecord (of_nat j) (160 * second) @ replicate 15 0 @ [24]) [0..<n])"

theorem consumed_log_two_records_lost_witness:
  "decrypt demo_aead demo_storage (demo_log 2) \<noteq>
     Inr (consumedRecord 0 (160 * second) @ consumedRecord 1 (160 * second))"
proof -
  have key: "length (ps_key demo_storage) = 32" by (simp add: demo_storage_def)
  have p: "persistConsumed demo_aead (demo_env 0) demo_storage (of_nat n) (160 * second)
       (if n = 0 then Map.empty else [''g.consumed'' \<mapsto> demo_log n]) =
       (Inr (), [''g.consumed'' \<mapsto> demo_log (Suc n)])" for n
    by (simp add: persistConsumed_def encrypt_def aesKeyOK_def demo_storage_def nonceSize_def
        demo_log_def demo_aead_def Let_def)
  have p0: "persistConsumed demo_aead (demo_env 0) demo_storage 0 (160 * second) Map.empty =
       (Inr (), [''g.consumed'' \<mapsto> demo_log 1])" using p [of 0] by simp
  have p1: "persistConsumed demo_aead (demo_env 0) demo_storage 1 (160 * second) [''g.consumed'' \<mapsto> demo_log 1] =
       (Inr (), [''g.consumed'' \<mapsto> demo_log 2])" using p [of 1] by (simp add: numeral_2_eq_2)
  show ?thesis
    using consumed_log_two_records_lost [OF demo_aead_expands key demo_hasNonce demo_hasNonce _ p0 p1]
    by (simp add: demo_storage_def)
qed

theorem NewCache_restores_at_most_one_witness:
  "\<exists>c fs. NewCache demo_prims demo_aead demo_cc (demo_env (165 * second)) ''g'' [8] demo_files = (Inr c, fs) \<and>
     length (c_entries c) \<le> 1"
proof -
  have nc: "NewCache demo_prims demo_aead demo_cc (demo_env (165 * second)) ''g'' [8] demo_files =
      (Inr \<lparr>c_entries = [], c_consumedJTIs = [], c_storage = demo_storage, c_trustRoot = [8]\<rparr>, demo_files)"
    by (simp add: NewCache_def newPersistentStorage_def loadOrCreateKey_def loadConsumed_def loadGrants_def
        demo_storage_def demo_files_def)
  from NewCache_restores_at_most_one [OF nc] nc show ?thesis by blast
qed

lemma demo_verified:
  "VerifyAccessGrantToken demo_prims (cc_env demo_cc) (150 * second) [3] [8] 4 3 SensitivityHigh =
     Inr \<lparr>tok_Message = \<lparr>msg_Protected = mkHeaders ''kid'' ''dnivio-agt-v2'', msg_Unprotected = [],
            msg_Payload = [4], msg_Signature = [8, 2]\<rparr>, tok_Payload = demo_agt\<rparr>"
proof -
  have "agt_acceptance (150 * second) 4 3 SensitivityHigh demo_agt = Inr demo_agt"
    by (simp add: agt_acceptance_def demo_agt_def second_def)
  then show ?thesis
    by (simp add: VerifyAccessGrantToken_def demo_cc_def demo_codec_def cose_defs)
qed

lemma demo_VerifyAndStore:
  "VerifyAndStore demo_prims demo_cc (demo_env (150 * second)) [3] [8] 4 3 SensitivityHigh = Inr demo_entry"
  using demo_verified by (simp add: VerifyAndStore_def demo_entry_def demo_agt_def)

theorem Check_only_backed_witness:
  "\<exists>key. backed demo_prims demo_cc [8] demo_entry \<and> key = Key demo_prims demo_entry"
proof -
  let ?c = "demo_cache\<lparr>c_entries := []\<rparr>"
  let ?ops = "[OpStoreVerified (demo_env (150 * second)) [3] 4 3 SensitivityHigh]"
  obtain res c' fs' where st: "Store demo_prims demo_aead demo_cc (demo_env (150 * second)) demo_entry (?c, demo_files) =
      (res, c', fs')" by (metis prod_cases3)
  then have c': "c' = ?c\<lparr>c_entries := [(Key demo_prims demo_entry, demo_entry)]\<rparr>"
    by (rule Store_cases) (simp_all add: demo_entry_def)
  have run: "cacheRun demo_prims demo_aead demo_cc None ?ops (?c, demo_files, ()) = ([], c', fs', ())"
    using st demo_VerifyAndStore by (simp add: StoreVerified_def demo_cache_def)
  have f: "Check (160 * second) (Key demo_prims demo_entry) c' = Some demo_entry"
    by (simp add: Check_iff c' demo_cache_def spent_def) (simp add: demo_entry_def second_def)
  have "allBacked demo_prims demo_cc ?c" "cacheInv demo_prims ?c" by (simp_all add: allBacked_def cacheInv_def)
  from Check_only_backed [OF run _ this f] show ?thesis by (simp add: demo_cache_def)
qed

theorem Purge_exact_witness:
  "map_of (c_entries (snd (Purge demo_prims \<lparr>pf_UserID = None, pf_SrcNodeID = Some ''src'', pf_ProtectedNodeID = None,
     pf_DeviceID = None, pf_PolicyVersionBefore = None, pf_AuthzEpochBefore = Some 5\<rparr>
     (demo_cache\<lparr>c_entries := [(Key demo_prims demo_entry, demo_entry)]\<rparr>)))) (Key demo_prims demo_entry) = None"
  (is "map_of (c_entries (snd (Purge _ ?f ?c))) _ = None")
proof -
  have inv: "cacheInv demo_prims ?c" by (simp add: cacheInv_def demo_entry_def)
  have "entryMatches demo_prims ?f demo_entry"
    by (simp add: entryMatches_def Matches_def demo_entry_def demo_agt_def)
  then show ?thesis using Purge_exact [OF inv surjective_pairing, of ?f "Key demo_prims demo_entry"] by simp
qed

theorem cache_stays_wellformed_witness:
  "let (res, c', fs') = Store demo_prims demo_aead demo_cc (demo_env (150 * second)) demo_entry (demo_cache\<lparr>c_entries := []\<rparr>, demo_files)
   in cacheInv demo_prims c' \<and>
      fst (Consume demo_aead None (demo_env (160 * second)) (Key demo_prims demo_entry) 77 (c', fs', ())) \<noteq> Inl NilPayload"
proof -
  let ?c = "demo_cache\<lparr>c_entries := []\<rparr>"
  obtain res c' fs' where st: "Store demo_prims demo_aead demo_cc (demo_env (150 * second)) demo_entry (?c, demo_files) =
      (res, c', fs')" by (metis prod_cases3)
  have run: "cacheRun demo_prims demo_aead demo_cc None [OpStore (demo_env (150 * second)) demo_entry] (?c, demo_files, ()) = ([], c', fs', ())"
    using st by simp
  have "cacheInv demo_prims ?c" by (simp add: cacheInv_def)
  from cache_stays_wellformed [OF run this] st show ?thesis by simp
qed

end
