(* ===== verification/GrantConsumption.thy ===== *)
theory GrantConsumption
  imports ApprovalSuccess Revocation GrantCache
begin

text \<open>
  The consumption of grants, at the service and behind the daemon's cache. At the service every grant is
  consumed at most once, whoever asks and whatever the other handlers do. The cache calls the function
  set by \<open>SetRemoteConsume\<close>; the contract \<open>remote_consumption\<close> of \<open>GrantCache\<close> is discharged here for what
  the repository has on the other side: the SQL function \<open>consume_grant\<close>, the service's \<open>ConsumeGrant\<close>,
  and the callback that \<open>daemon/cmd/dnv-daemon/main.go\<close> installs. The first alone ever answers true, and
  nothing in the repository connects a daemon to it.
\<close>

section \<open>The remote sides\<close>

text \<open>The service's handler as a callback; its errors and its panic reach the daemon as an error.\<close>

definition serviceConsume :: "svc_env \<Rightarrow> uuid \<Rightarrow> db remote" where
  "serviceConsume env T s jti =
     (let (res, s') = ConsumeGrant env T jti s in (case res of Inl e \<Rightarrow> Inl () | Inr b \<Rightarrow> Inr b, s'))"

text \<open>The callback of \<open>main\<close>: no channel to the service yet, so every call is an error.\<close>

definition remoteConsumeCallback :: "'r remote" where
  "remoteConsumeCallback r jti = (Inl (), r)"

definition usedGrants :: "uuid \<Rightarrow> db \<Rightarrow> uuid set" where
  "usedGrants T s = {J. \<exists>g. find (isGrant T J) (grants s) = Some g \<and> g_consumed_at g \<noteq> None}"

lemma find_consume:
  "find (isGrant T J) (updateWhere (\<lambda>h. isGrant T K h \<and> g_consumed_at h = None) (\<lambda>h. h\<lparr>g_consumed_at := Some n\<rparr>) gs)
     = map_option (\<lambda>h. if isGrant T K h \<and> g_consumed_at h = None then h\<lparr>g_consumed_at := Some n\<rparr> else h)
         (find (isGrant T J) gs)"
  by (rule find_updateWhere) (simp add: isGrant_def)

lemma consume_grant_used:
  assumes "consume_grant T J n s = (b, s')"
  shows "usedGrants T s \<subseteq> usedGrants T s'" and "b \<Longrightarrow> J \<notin> usedGrants T s \<and> J \<in> usedGrants T s'"
proof -
  consider "s' = s" "\<not> b" | g where "find (isGrant T J) (grants s) = Some g" "g_consumed_at g = None"
      "s' = s\<lparr>grants := updateWhere (\<lambda>h. isGrant T J h \<and> g_consumed_at h = None)
               (\<lambda>h. h\<lparr>g_consumed_at := Some n\<rparr>) (grants s)\<rparr>"
    using assms by (auto simp: consume_grant_def Let_def split: option.splits if_splits)
  note cs = this
  show "usedGrants T s \<subseteq> usedGrants T s'"
  proof
    fix K assume "K \<in> usedGrants T s"
    then obtain h where h: "find (isGrant T K) (grants s) = Some h" "g_consumed_at h \<noteq> None"
      by (auto simp: usedGrants_def)
    show "K \<in> usedGrants T s'"
      by (cases rule: cs) (use h in \<open>simp_all add: usedGrants_def find_consume\<close>)
  qed
  show "J \<notin> usedGrants T s \<and> J \<in> usedGrants T s'" if "b"
  proof (cases rule: cs)
    case (2 g)
    then have "isGrant T J g" using find_Some_set by fast
    with 2 show ?thesis by (simp add: usedGrants_def find_consume)
  qed (use that in simp)
qed

interpretation sql: remote_consumption "\<lambda>s jti. apfst Inr (consume_grant T jti nw s)" "usedGrants T" for T nw
  by unfold_locales (auto simp: apfst_def map_prod_def split: prod.splits dest: consume_grant_used)

interpretation svc: remote_consumption "serviceConsume env T" "usedGrants T" for env T
proof unfold_locales
  fix r jti r'
  assume "serviceConsume env T r jti = (Inr True, r')"
  then show "jti \<notin> usedGrants T r \<and> jti \<in> usedGrants T r'"
    by (auto simp: serviceConsume_def ConsumeGrant_def autocommit_def Let_def split: prod.splits sum.splits if_splits)
next
  fix r jti res r'
  assume "serviceConsume env T r jti = (res, r')"
  then show "usedGrants T r \<subseteq> usedGrants T r'"
    by (auto simp: serviceConsume_def ConsumeGrant_def autocommit_def Let_def split: prod.splits sum.splits if_splits
        dest: consume_grant_used(1))
qed

interpretation callback: remote_consumption remoteConsumeCallback "\<lambda>r. {}"
  by unfold_locales (simp_all add: remoteConsumeCallback_def)


section \<open>Single use at the service\<close>

lemma engine_step_used: "engine_step P G eng s s' \<Longrightarrow> usedGrants T s \<subseteq> usedGrants T s'"
  using engine_step_consumed unfolding usedGrants_def by fastforce

lemma find_filter_kept: "find Q xs = Some x \<Longrightarrow> K x \<Longrightarrow> find Q (filter K xs) = Some x"
  by (induction xs) (auto split: if_splits)

lemma revocation_used: "IssueRevocation G json env T kind target cs s = (r, s') \<Longrightarrow> usedGrants U s \<subseteq> usedGrants U s'"
proof -
  assume "IssueRevocation G json env T kind target cs s = (r, s')"
  then obtain Q where g: "grants s' = filter (\<lambda>g. \<not> (Q g \<and> g_consumed_at g = None)) (grants s)"
    using IssueRevocation_grants by blast
  show ?thesis
  proof
    fix J assume "J \<in> usedGrants U s"
    then obtain h where h: "find (isGrant U J) (grants s) = Some h" "g_consumed_at h \<noteq> None" by (auto simp: usedGrants_def)
    then have "find (isGrant U J) (grants s') = Some h" unfolding g by (intro find_filter_kept) simp_all
    with h(2) show "J \<in> usedGrants U s'" unfolding usedGrants_def by blast
  qed
qed

text \<open>
  The calls that reach the tables of requests and grants, from any daemon, device or administrator, with
  the handler's input and all that it meets; each is one transaction or one statement. A run records
  the grants that were consumed: the call changed the database, or its statement answered true, which
  is when the handler panics.
\<close>

datatype svc_call =
    CallCreate svc_env CreateApprovalRequestInput
  | CallProcess svc_env ProcessApprovalInput
  | CallCancel svc_env uuid uuid uuid string
  | CallConsume svc_env uuid uuid
  | CallRevoke svc_env uuid Kind string "string list"
  | CallRevokeDevice svc_env uuid uuid string

fun svcCall :: "prims \<Rightarrow> pg \<Rightarrow> engine \<Rightarrow> (Revocation \<Rightarrow> bytes) \<Rightarrow> svc_call \<Rightarrow> db \<Rightarrow> (uuid \<times> uuid) list \<times> db" where
  "svcCall P G eng json (CallCreate env i) s = ([], snd (CreateApprovalRequest P G eng env i s))"
| "svcCall P G eng json (CallProcess env i) s = ([], snd (ProcessApproval P G eng env i s))"
| "svcCall P G eng json (CallCancel env T R N why) s = ([], snd (CancelApprovalRequest P G eng env T R N why s))"
| "svcCall P G eng json (CallConsume env T J) s =
    (case ConsumeGrant env T J s of (r, s') \<Rightarrow> (if r = Inl NilTransactionPanic \<or> s' \<noteq> s then [(T, J)] else [], s'))"
| "svcCall P G eng json (CallRevoke env T kind target cs) s = ([], snd (IssueRevocation G json env T kind target cs s))"
| "svcCall P G eng json (CallRevokeDevice env T D why) s = ([], snd (RevokeDevice P G env T D why s))"

fun svcRun :: "prims \<Rightarrow> pg \<Rightarrow> engine \<Rightarrow> (Revocation \<Rightarrow> bytes) \<Rightarrow> svc_call list \<Rightarrow> db \<Rightarrow> (uuid \<times> uuid) list \<times> db" where
  "svcRun P G eng json [] s = ([], s)"
| "svcRun P G eng json (c # cs) s =
    (case svcCall P G eng json c s of (out, s1) \<Rightarrow> case svcRun P G eng json cs s1 of (outs, s2) \<Rightarrow> (out @ outs, s2))"

lemma ConsumeGrant_used:
  assumes "ConsumeGrant env T J s = (r, s')" and "r = Inl NilTransactionPanic \<or> s' \<noteq> s"
  shows "J \<notin> usedGrants T s \<and> J \<in> usedGrants T s'"
  using assms(1)
proof (cases rule: ConsumeGrant_cases)
  case (consumed g)
  then have "list_ex (\<lambda>h. isGrant T J h \<and> g_consumed_at h = None) (grants s)"
    by (auto simp: list_ex_iff dest: find_Some_set)
  then have "consume_grant T J (clock env ''consume'') s = (True, s')"
    using consumed by (simp add: consume_grant_def)
  then show ?thesis using sql.consumes [where T = T and nw = "clock env ''consume''" and r = s and r' = s' and jti = J] by simp
qed (use assms(2) in auto)

lemma svcCall_used:
  assumes "svcCall P G eng json c s = (out, s')"
  shows "usedGrants U s \<subseteq> usedGrants U s' \<and> distinct out \<and>
    (\<forall>(T, J) \<in> set out. J \<notin> usedGrants T s \<and> J \<in> usedGrants T s')"
proof (cases c)
  case (CallConsume env T J)
  then obtain r where r: "ConsumeGrant env T J s = (r, s')" and out: "out = (if r = Inl NilTransactionPanic \<or> s' \<noteq> s then [(T, J)] else [])"
    using assms by (auto split: prod.splits)
  have "usedGrants U s \<subseteq> usedGrants U s'"
    using engine_step_used [OF engine_step.consume [OF r]] .
  then show ?thesis using out ConsumeGrant_used [OF r] by auto
next
  case (CallCreate env i)
  then have "s' = snd (CreateApprovalRequest P G eng env i s)" "out = []" using assms by simp_all
  then show ?thesis using engine_step_used [OF engine_step.create [OF surjective_pairing]] by simp
next
  case (CallProcess env i)
  then have "s' = snd (ProcessApproval P G eng env i s)" "out = []" using assms by simp_all
  then show ?thesis using engine_step_used [OF engine_step.process [OF surjective_pairing]] by simp
next
  case (CallCancel env T R N why)
  then have "s' = snd (CancelApprovalRequest P G eng env T R N why s)" "out = []" using assms by simp_all
  then show ?thesis using engine_step_used [OF engine_step.cancel [OF surjective_pairing]] by simp
next
  case (CallRevoke env T kind target cs)
  then have "s' = snd (IssueRevocation G json env T kind target cs s)" "out = []" using assms by simp_all
  then show ?thesis using revocation_used [OF surjective_pairing] by simp
next
  case (CallRevokeDevice env T D why)
  then show ?thesis using assms RevokeDevice_grants [OF surjective_pairing, of P G env T D why s] by (auto simp: usedGrants_def)
qed

lemma svcRun_used:
  "svcRun P G eng json cs s = (outs, s') \<Longrightarrow>
     (\<forall>U. usedGrants U s \<subseteq> usedGrants U s') \<and> distinct outs \<and>
     (\<forall>(T, J) \<in> set outs. J \<notin> usedGrants T s \<and> J \<in> usedGrants T s')"
proof (induction cs arbitrary: s outs)
  case (Cons c cs)
  obtain out s1 rest where c: "svcCall P G eng json c s = (out, s1)" and cs: "svcRun P G eng json cs s1 = (rest, s')"
      and outs: "outs = out @ rest" using Cons.prems by (auto split: prod.splits)
  have mono: "usedGrants V s \<subseteq> usedGrants V s1" "usedGrants V s1 \<subseteq> usedGrants V s'" for V
    using svcCall_used [OF c, of V] Cons.IH [OF cs] by blast+
  have new: "J \<notin> usedGrants T s \<and> J \<in> usedGrants T s1" if "(T, J) \<in> set out" for T J using svcCall_used [OF c] that by blast
  moreover have later: "J \<notin> usedGrants T s1 \<and> J \<in> usedGrants T s'" if "(T, J) \<in> set rest" for T J using Cons.IH [OF cs] that by blast
  ultimately have "set out \<inter> set rest = {}" by fast
  moreover have "distinct out" "distinct rest" using svcCall_used [OF c] Cons.IH [OF cs] by blast+
  moreover have "J \<notin> usedGrants T s \<and> J \<in> usedGrants T s'" if "(T, J) \<in> set outs" for T J
    using that outs new [of T J] later [of T J] mono [of T] by auto
  ultimately show ?case using mono outs by fastforce
qed simp

text \<open>
  C7: Single use at the service: in every sequence of calls of the engine's and the revocation manager's
  handlers, by any number of daemons, devices and administrators in any order, with any inputs, faults and
  lost answers, no grant is consumed twice, none that had been consumed before is consumed, and a
  consumed grant stays so: no approval and no revocation makes it usable again.
\<close>

theorem grant_consumed_once:
  "case svcRun P G eng json calls s of (consumed, s') \<Rightarrow>
     distinct consumed \<and>
     (\<forall>T J. if (T, J) \<in> set consumed then J \<notin> usedGrants T s \<and> J \<in> usedGrants T s' else True) \<and>
     (\<forall>T. usedGrants T s \<subseteq> usedGrants T s')"
proof -
  obtain outs s' where run: "svcRun P G eng json calls s = (outs, s')" by fastforce
  with svcRun_used [OF run] show ?thesis by fastforce
qed

section \<open>What the cache releases\<close>

text \<open>A remote side that never answers true releases no grant.\<close>

lemma no_release:
  assumes "\<And>r jti. fst (rc r jti) \<noteq> Inr True"
  shows "fst (cacheRun P A C (Some rc) ops (c, fs, r)) = []"
proof (induction ops arbitrary: c fs r)
  case (Cons op ops)
  obtain out c1 fs1 r1 where s: "cacheStep P A C (Some rc) op (c, fs, r) = (out, c1, fs1, r1)" by (metis prod_cases4)
  have "\<exists>r'. callRemote (Some rc) jti r = (False, r')" for jti
    using assms [of r jti] by (simp add: callRemote_def split_beta)
  then have "\<exists>e t. Consume A (Some rc) env key jti (c, fs, r) = (Inl e, t)" for env key jti
    by (cases "map_of (c_entries c) key") (auto simp: Consume_def split_beta, metis fst_conv)
  then have "out = []" using s by (cases op) (auto split: prod.splits, metis Pair_inject sum.case(1))
  then show ?case using s Cons.IH [of c1 fs1 r1] by (simp add: split_beta)
qed simp

text \<open>
  The daemon as it is wired fails closed: with the callback of \<open>main\<close>, and just as well with the
  service's \<open>ConsumeGrant\<close> behind it, no sequence of calls ever releases a grant from the cache.
\<close>

theorem wired_daemon_releases_nothing:
  "fst (cacheRun P A C (Some remoteConsumeCallback) ops (c, fs, r)) = [] \<and>
   fst (cacheRun P A C (Some (serviceConsume env T)) ops (c, fs, s)) = []"
proof -
  have a: "fst (remoteConsumeCallback r jti) \<noteq> Inr True" for r :: 'a and jti by (simp add: remoteConsumeCallback_def)
  have b: "fst (serviceConsume env T s jti) \<noteq> Inr True" for s jti
    by (auto simp: serviceConsume_def ConsumeGrant_def autocommit_def Let_def split: prod.splits sum.splits if_splits)
  show ?thesis
    by (intro conjI no_release [of remoteConsumeCallback] no_release [of "serviceConsume env T"] a b)
qed

end
