(* ===== verification/EndToEnd.thy ===== *)
theory EndToEnd
  imports ServiceMain GrantConsumption
begin

text \<open>
  Service and daemon together: a token that the service's grant signer made, on its way through the
  daemon's cache to the point where the grant is released or refused.
\<close>

section \<open>The daemon's side\<close>

text \<open>What \<open>Consume\<close> does with an entry the cache holds, unspent and unexpired, as a function of what the callback answers.\<close>

lemma Consume_present:
  assumes "map_of (c_entries c) key = Some e" and "\<not> ce_Consumed e" and "ce_JTI e = jti" and "jti \<notin> spent c"
    and "env_now env \<le> ce_ExpiresAt e" and "ce_Payload e = Some p"
  shows "fst (Consume A (Some rc) env key jti (c, fs, r)) =
    (if fst (rc r jti) \<noteq> Inr True then Inl RemoteConsumeFailed
     else if agt_Scope p = ScopeSession then Inr (consumedEntry (env_now env) e)
     else attempt (fst (persistConsumed A env (c_storage c) jti (env_now env) fs)) PersistConsumed
            (\<lambda>u. Inr (consumedEntry (env_now env) e)))"
  using assms by (auto simp: Consume_def callRemote_def Let_def split_beta)

lemma stored_found:
  assumes "Store P A C env e (c, fs) = (res, c', fs')" and "ce_Payload e = Some p"
  shows "map_of (c_entries c') (Key P e) = Some e" "spent c' = spent c" "c_storage c' = c_storage c"
  using assms by (auto elim!: Store_cases simp: update_conv')

text \<open>A call of \<open>Consume\<close> that released a grant has spent it.\<close>

lemma released_never_again:
  assumes "Consume A rc env key jti (c, fs, r) = (Inr e, c', fs', r')"
  shows "jti \<notin> set (fst (cacheRun P A' C rc' ops (c', fs'', r'')))"
proof -
  have "jti \<in> spent c'"
    using assms by (rule Consume_cases) (auto split: option.splits if_splits)
  moreover obtain outs c2 fs2 r2 where run: "cacheRun P A' C rc' ops (c', fs'', r'') = (outs, c2, fs2, r2)" by (metis prod_cases4)
  ultimately show ?thesis using cacheRun_spent [OF run] by auto
qed

text \<open>A daemon with the grant key and the current epoch takes a token that the service signed, within its lifetime.\<close>

lemma signed_entry:
  assumes "managerReached P km2" and "cborLawful (cc_env C)" and "GetPubKey t PurposeGrantSig km2 = Inr (pub, kid)"
    and "SignGrant P (cc_env C) (inMemorySigner P) ts km1 km2 p = Inr (raw, p')"
    and "agt_acceptance (env_now env) ep pv sens (agt_wire p') = Inr (agt_wire p')"
  obtains e where "VerifyAndStore P C env raw pub ep pv sens = Inr e" "ce_JTI e = agt_JTI p'" "ce_AGTBytes e = raw"
    "\<not> ce_Consumed e" "ce_ExpiresAt e = truncSecond (agt_ExpiresAt p')" "ce_Payload e = Some (agt_wire p')"
proof -
  obtain msg where "VerifyAccessGrantToken P (cc_env C) (env_now env) raw pub ep pv sens = Inr \<lparr>tok_Message = msg, tok_Payload = agt_wire p'\<rparr>"
    using SignGrant_verifies [OF assms(1-4), of "env_now env" ep pv sens] assms(5) by auto
  with that show ?thesis by (simp add: VerifyAndStore_def) (simp add: agt_wire_def)
qed


section \<open>From the signer to the release\<close>

text \<open>
  C3: The way of a token. A token that the running service's grant signer made is stored by a daemon that has
  the service's grant key as its trust root, within the token's lifetime in whole seconds, under its
  epoch, a policy version not above its own and a sensitivity its device level suffices for. Then the
  cache finds it under its key until it expires, and \<open>Consume\<close>'s answer is exactly that of the
  callback: without a true from it the grant is refused, with one it is released, once the record is
  written unless it is a SESSION grant. After a release no call on this cache releases it again. With the
  callback that the daemon's \<open>main\<close> installs it is always refused.
\<close>

theorem signed_token_release:
  assumes "managerReached P km2" and "cborLawful (cc_env C)" and "GetPubKey t PurposeGrantSig km2 = Inr (pub, kid)"
    and "SignGrant P (cc_env C) (inMemorySigner P) ts km1 km2 p = Inr (raw, p')"
    and "c_trustRoot c = pub" and "agt_JTI p' \<notin> spent c" and "agt_AuthzEpoch p' = ep" and "pv \<le> agt_PolicyVersion p'"
    and "sens \<notin> {SensitivityHigh, SensitivityAdmin} \<or> agt_DeviceSecurityLevel p' = SecurityLevelStrongBox"
    and "agt_NotBefore p' \<le> env_now e1" and "env_now e1 \<le> env_now e2" and "env_now e2 \<le> truncSecond (agt_ExpiresAt p')"
    and "StoreVerified P A C e1 raw ep pv sens (c, fs) = (res, c1, fs1)"
  shows "\<exists>key e. Check (env_now e2) key c1 = Some e \<and> ce_JTI e = agt_JTI p' \<and> ce_AGTBytes e = raw \<and>
     (\<forall>rc (r :: 'r). fst (Consume A (Some rc) e2 key (agt_JTI p') (c1, fs1, r)) =
        (if fst (rc r (agt_JTI p')) \<noteq> Inr True then Inl RemoteConsumeFailed
         else if agt_Scope p' = ScopeSession then Inr (consumedEntry (env_now e2) e)
         else attempt (fst (persistConsumed A e2 (c_storage c) (agt_JTI p') (env_now e2) fs1)) PersistConsumed
                (\<lambda>u. Inr (consumedEntry (env_now e2) e)))) \<and>
     (\<forall>rc (r :: 'r) e' c2 fs2 r2 rc' ops. Consume A (Some rc) e2 key (agt_JTI p') (c1, fs1, r) = (Inr e', c2, fs2, r2) \<longrightarrow>
        agt_JTI p' \<notin> set (fst (cacheRun P A C rc' ops (c2, fs2, r2)))) \<and>
     (\<forall>r :: 'r. fst (Consume A (Some remoteConsumeCallback) e2 key (agt_JTI p') (c1, fs1, r)) = Inl RemoteConsumeFailed)"
proof -
  have "agt_acceptance (env_now e1) ep pv sens (agt_wire p') = Inr (agt_wire p')"
    using assms(7-12) truncSecond_le [of "agt_NotBefore p'"] by (auto simp: agt_acceptance_def agt_wire_def)
  then obtain e where e: "VerifyAndStore P C e1 raw pub ep pv sens = Inr e" "ce_JTI e = agt_JTI p'" "ce_AGTBytes e = raw"
      "\<not> ce_Consumed e" "ce_ExpiresAt e = truncSecond (agt_ExpiresAt p')" "ce_Payload e = Some (agt_wire p')"
    using signed_entry [OF assms(1-4)] by metis
  then have "Store P A C e1 e (c, fs) = (res, c1, fs1)" using assms(5,13) by (simp add: StoreVerified_def)
  note c1 = stored_found [OF this e(6)]
  have found: "Check (env_now e2) (Key P e) c1 = Some e"
    using c1(1,2) e(2,4,5) assms(6,12) by (simp add: Check_iff)
  have out: "fst (Consume A (Some rc) e2 (Key P e) (agt_JTI p') (c1, fs1, r)) =
      (if fst (rc r (agt_JTI p')) \<noteq> Inr True then Inl RemoteConsumeFailed
       else if agt_Scope p' = ScopeSession then Inr (consumedEntry (env_now e2) e)
       else attempt (fst (persistConsumed A e2 (c_storage c) (agt_JTI p') (env_now e2) fs1)) PersistConsumed
              (\<lambda>u. Inr (consumedEntry (env_now e2) e)))" for rc and r :: 'r
    using Consume_present [OF c1(1) e(4,2) _ _ e(6), of e2 A rc fs1 r] assms(6,12) c1(2,3) e(5)
    by (simp add: agt_wire_def)
  have "fst (Consume A (Some remoteConsumeCallback) e2 (Key P e) (agt_JTI p') (c1, fs1, r)) = Inl RemoteConsumeFailed" for r :: 'r
    using out [of remoteConsumeCallback r] by (simp add: remoteConsumeCallback_def)
  with found e(2,3) out show ?thesis
    by (intro exI [of _ "Key P e"] exI [of _ e] conjI allI impI) (assumption | rule released_never_again)+
qed


section \<open>A concrete run\<close>

text \<open>A fresh daemon that holds the grant key of the service of theory \<open>ServiceMain\<close>.\<close>

definition door_codec :: cache_codec where
  "door_codec = demo_cc\<lparr>cc_env := wire_codec\<rparr>"

definition door_cache :: Cache where
  "door_cache = \<lparr>c_entries = [], c_consumedJTIs = [], c_storage = demo_storage, c_trustRoot = [1]\<rparr>"

lemma door_sel: "cc_env door_codec = wire_codec" "c_trustRoot door_cache = [1]" "spent door_cache = {}"
  by (simp_all add: door_codec_def door_cache_def spent_def)

lemma door_disk: "fst (persistConsumed demo_aead (demo_env t) (c_storage door_cache) j t' fs) = Inr ()"
  by (simp add: persistConsumed_def demo_env_def door_cache_def demo_storage_def encrypt_def aesKeyOK_def nonceSize_def Let_def)

text \<open>The demonstration's payload as the service signs it.\<close>

lemma door_token:
  obtains raw p' where "SignGrant service_prims (cc_env door_codec) (inMemorySigner service_prims) (0, 0, 0) service_km service_km demo_agt
      = Inr (raw, p')" "p' = demo_agt\<lparr>agt_Ver := 2\<rparr>"
proof -
  obtain raw p' where s: "SignGrant service_prims wire_codec (inMemorySigner service_prims) (0, 0, 0) service_km service_km demo_agt
      = Inr (raw, p')"
    using service_signs [of demo_agt] by (metis sumE surj_pair)
  obtain pb where "PrepareAGTPayload wire_codec 0 demo_agt = Inr (pb, p')" using SignGrant_Prepare [OF s] by blast
  then have "p' = demo_agt\<lparr>agt_Ver := 2\<rparr>"
    by (auto simp: PrepareAGTPayload_def demo_agt_def isZero_def second_def Let_def split: if_splits)
  with s show thesis by (intro that) (simp_all add: door_sel)
qed

theorem signed_token_release_witness:
  "\<exists>key c1 fs1 e'. fst (Consume demo_aead (Some (\<lambda>r jti. (Inr True, r))) (demo_env (160 * second)) key 7 (c1, fs1, ())) = Inr e' \<and>
     ce_JTI e' = 7 \<and>
     fst (Consume demo_aead (Some remoteConsumeCallback) (demo_env (160 * second)) key 7 (c1, fs1, ())) = Inl RemoteConsumeFailed"
proof -
  obtain raw p' where sg: "SignGrant service_prims (cc_env door_codec) (inMemorySigner service_prims) (0, 0, 0) service_km service_km demo_agt
      = Inr (raw, p')" and p': "p' = demo_agt\<lparr>agt_Ver := 2\<rparr>" by (rule door_token)
  obtain kid where k: "GetPubKey 0 PurposeGrantSig service_km = Inr ([1], kid)" using service_grant_key by blast
  have lawful: "cborLawful (cc_env door_codec)" using wire_codec_lawful by (simp add: door_sel)
  let ?e1 = "demo_env (150 * second)" and ?e2 = "demo_env (160 * second)"
  obtain res c1 fs1 where st: "StoreVerified service_prims demo_aead door_codec ?e1 raw 4 3 SensitivityHigh (door_cache, demo_files) = (res, c1, fs1)"
    by (metis prod_cases3)
  have "\<exists>key e. Check (env_now ?e2) key c1 = Some e \<and> ce_JTI e = agt_JTI p' \<and> ce_AGTBytes e = raw \<and>
     (\<forall>rc r. fst (Consume demo_aead (Some rc) ?e2 key (agt_JTI p') (c1, fs1, r :: unit)) =
        (if fst (rc r (agt_JTI p')) \<noteq> Inr True then Inl RemoteConsumeFailed
         else if agt_Scope p' = ScopeSession then Inr (consumedEntry (env_now ?e2) e)
         else attempt (fst (persistConsumed demo_aead ?e2 (c_storage door_cache) (agt_JTI p') (env_now ?e2) fs1)) PersistConsumed
                (\<lambda>u. Inr (consumedEntry (env_now ?e2) e)))) \<and>
     (\<forall>rc (r :: unit) e' c2 fs2 r2 rc' ops. Consume demo_aead (Some rc) ?e2 key (agt_JTI p') (c1, fs1, r) = (Inr e', c2, fs2, r2) \<longrightarrow>
        agt_JTI p' \<notin> set (fst (cacheRun service_prims demo_aead door_codec rc' ops (c2, fs2, r2)))) \<and>
     (\<forall>r :: unit. fst (Consume demo_aead (Some remoteConsumeCallback) ?e2 key (agt_JTI p') (c1, fs1, r)) = Inl RemoteConsumeFailed)"
    by (rule signed_token_release [OF service_reached lawful k sg _ _ _ _ _ _ _ _ st])
       (simp_all add: p' door_sel demo_agt_def truncSecond_def second_def)
  then obtain key e where e: "ce_JTI e = agt_JTI p'"
      "\<And>rc r. fst (Consume demo_aead (Some rc) ?e2 key (agt_JTI p') (c1, fs1, r :: unit)) =
        (if fst (rc r (agt_JTI p')) \<noteq> Inr True then Inl RemoteConsumeFailed
         else if agt_Scope p' = ScopeSession then Inr (consumedEntry (env_now ?e2) e)
         else attempt (fst (persistConsumed demo_aead ?e2 (c_storage door_cache) (agt_JTI p') (env_now ?e2) fs1)) PersistConsumed
                (\<lambda>u. Inr (consumedEntry (env_now ?e2) e)))" by blast
  have j: "agt_JTI p' = 7" by (simp add: p' demo_agt_def)
  have "fst (Consume demo_aead (Some (\<lambda>r jti. (Inr True, r))) ?e2 key 7 (c1, fs1, ())) = Inr (consumedEntry (env_now ?e2) e)"
    using e(2) [of "\<lambda>r jti. (Inr True, r)" "()"] j by (simp add: door_disk)
  moreover have "fst (Consume demo_aead (Some remoteConsumeCallback) ?e2 key 7 (c1, fs1, ())) = Inl RemoteConsumeFailed"
    using e(2) [of remoteConsumeCallback "()"] j by (simp add: remoteConsumeCallback_def)
  moreover have "ce_JTI (consumedEntry (env_now ?e2) e) = 7" using e(1) j by (simp add: consumedEntry_def)
  ultimately show ?thesis by blast
qed

end
