(* ===== verification/ApprovalSpec.thy ===== *)
theory ApprovalSpec
  imports ApprovalSuccess
begin

text \<open>
  The approval protocol in the abstract: requests with a state, devices with their two keys and a
  counter, grants that are spent or not, and the five things that may happen to them. The engine of
  \<open>Enforcement\<close>, with its tables, transactions, audit log and outbox and under any faults, is shown to
  refine it.
\<close>

section \<open>The specification\<close>

record protocol =
  sp_requests :: "uuid \<times> uuid \<rightharpoonup> ApprovalState"
  sp_devices :: "uuid \<times> uuid \<rightharpoonup> bytes \<times> bytes \<times> int"
  sp_grants :: "uuid \<times> uuid \<rightharpoonup> uuid \<times> bool"

text \<open>
  By tenant and identifier: a request is opened; a device decides on an open one, with a response under
  the key for that decision and a counter above the last, which it uses up, and an approval puts an
  unspent grant with a new identifier; an open request is cancelled; a grant is spent.
\<close>

inductive protocol_step :: "prims \<Rightarrow> protocol \<Rightarrow> protocol \<Rightarrow> bool" for P where
  open_request: "sp_requests A (T, R) = None \<Longrightarrow>
     protocol_step P A (A\<lparr>sp_requests := (sp_requests A)((T, R) \<mapsto> ApprovalStatePending)\<rparr>)"
| approve: "sp_requests A (T, R) = Some ApprovalStatePending \<Longrightarrow> sp_devices A (T, D) = Some (approvalKey, deviceKey, n) \<Longrightarrow>
     VerifyApprovalResponse P resp approvalKey = Inr () \<Longrightarrow> n < ar_DeviceCounter resp \<Longrightarrow> sp_grants A (T, J) = None \<Longrightarrow>
     protocol_step P A
       (A\<lparr>sp_requests := (sp_requests A)((T, R) \<mapsto> ApprovalStateGranted),
          sp_devices := (sp_devices A)((T, D) \<mapsto> (approvalKey, deviceKey, ar_DeviceCounter resp)),
          sp_grants := (sp_grants A)((T, J) \<mapsto> (R, False))\<rparr>)"
| deny: "sp_requests A (T, R) = Some ApprovalStatePending \<Longrightarrow> sp_devices A (T, D) = Some (approvalKey, deviceKey, n) \<Longrightarrow>
     VerifyApprovalResponse P resp deviceKey = Inr () \<Longrightarrow> n < ar_DeviceCounter resp \<Longrightarrow>
     protocol_step P A
       (A\<lparr>sp_requests := (sp_requests A)((T, R) \<mapsto> ApprovalStateDenied),
          sp_devices := (sp_devices A)((T, D) \<mapsto> (approvalKey, deviceKey, ar_DeviceCounter resp))\<rparr>)"
| cancel: "sp_requests A (T, R) = Some ApprovalStatePending \<Longrightarrow>
     protocol_step P A (A\<lparr>sp_requests := (sp_requests A)((T, R) \<mapsto> ApprovalStateCancelled)\<rparr>)"
| spend: "sp_grants A (T, J) = Some (R, False) \<Longrightarrow>
     protocol_step P A (A\<lparr>sp_grants := (sp_grants A)((T, J) \<mapsto> (R, True))\<rparr>)"

inductive_cases protocol_stepE: "protocol_step P A A'"

text \<open>What the database says about the protocol.\<close>

definition protocolOf :: "db \<Rightarrow> protocol" where
  "protocolOf s =
     \<lparr>sp_requests = (\<lambda>(T, R). map_option q_state (findRequest T R s)),
      sp_devices = (\<lambda>(T, D). map_option (\<lambda>d. (dv_approval_auth_pub d, dv_device_auth_pub d, dv_counter d)) (findDevice T D s)),
      sp_grants = (\<lambda>(T, J). map_option (\<lambda>g. (g_request g, g_consumed_at g \<noteq> None)) (find (isGrant T J) (grants s)))\<rparr>"


section \<open>How the tables' changes look in the abstract\<close>

lemma requests_moved:
  assumes "requestMoves T R fin s s'" "findRequest T R s \<noteq> None"
  shows "sp_requests (protocolOf s') = (sp_requests (protocolOf s))((T, R) \<mapsto> fin)"
proof -
  obtain q' where "findRequest T R s' = Some q'" "q_state q' = fin" using requestMoves_find(1) [OF assms(1)] assms(2) by blast
  then show ?thesis
    using requestMoves_find(2) [OF assms(1)] by (force simp: protocolOf_def fun_eq_iff)
qed

lemma devices_advanced:
  assumes "findDevice (pa_TenantID i) (pa_DeviceID i) s = Some d" "dv_counter d < ar_DeviceCounter (pa_SignedResponse i)"
    and "devices s' = devices (counterAdvanced i s)"
  shows "sp_devices (protocolOf s') = (sp_devices (protocolOf s))((pa_TenantID i, pa_DeviceID i) \<mapsto>
    (dv_approval_auth_pub d, dv_device_auth_pub d, ar_DeviceCounter (pa_SignedResponse i)))"
proof
  fix k :: "uuid \<times> uuid"
  obtain T D where k: "k = (T, D)" by (cases k)
  have f: "findDevice T D s' = findDevice T D (counterAdvanced i s)" using assms(3) by (simp add: findDevice_def)
  have dev: "findDevice T D s = Some x \<Longrightarrow> isDevice T D x" for x unfolding findDevice_def using find_Some_set by fast
  show "sp_devices (protocolOf s') k = ((sp_devices (protocolOf s))((pa_TenantID i, pa_DeviceID i) \<mapsto>
      (dv_approval_auth_pub d, dv_device_auth_pub d, ar_DeviceCounter (pa_SignedResponse i)))) k"
  proof (cases "(T, D) = (pa_TenantID i, pa_DeviceID i)")
    case True
    then show ?thesis using findDevice_counterAdvanced [OF assms(1,2)] f k by (simp add: protocolOf_def)
  next
    case False
    then have "findDevice T D (counterAdvanced i s) = findDevice T D s"
      using find_device_advance [of T D i s] dev by (cases "findDevice T D s") (auto simp: isDevice_def)
    with False f k show ?thesis by (auto simp: protocolOf_def)
  qed
qed

lemma grants_added:
  assumes "grants s' = grants s @ [g]" "\<not> list_ex (isGrant (g_tenant g) (g_jti g)) (grants s)" "g_consumed_at g = None"
  shows "sp_grants (protocolOf s) (g_tenant g, g_jti g) = None"
    and "sp_grants (protocolOf s') = (sp_grants (protocolOf s))((g_tenant g, g_jti g) \<mapsto> (g_request g, False))"
proof -
  have n: "find (isGrant (g_tenant g) (g_jti g)) (grants s) = None" using assms(2) by (simp add: find_None_list_ex)
  then show "sp_grants (protocolOf s) (g_tenant g, g_jti g) = None" by (simp add: protocolOf_def)
  have "find (isGrant T J) (grants s') = (if (T, J) = (g_tenant g, g_jti g) then Some g else find (isGrant T J) (grants s))" for T J
    using n by (auto simp: assms(1) find_append isGrant_def split: option.splits)
  then show "sp_grants (protocolOf s') = (sp_grants (protocolOf s))((g_tenant g, g_jti g) \<mapsto> (g_request g, False))"
    using assms(3) by (simp add: protocolOf_def fun_eq_iff)
qed

lemma protocol_eqI:
  "sp_requests A = sp_requests A' \<Longrightarrow> sp_devices A = sp_devices A' \<Longrightarrow> sp_grants A = sp_grants A' \<Longrightarrow> A = (A' :: protocol)"
  by simp



section \<open>Refinement\<close>

lemma created_request:
  assumes "approval_requests s' = approval_requests s @ [row]" "q_state row = ApprovalStatePending"
    "\<not> list_ex (\<lambda>x. q_id x = q_id row) (approval_requests s)" "grants s' = grants s" "devices s' = devices s"
  shows "protocol_step P (protocolOf s) (protocolOf s')"
proof -
  have n: "find (isRequest (q_tenant row) (q_id row)) (approval_requests s) = None"
    using assms(3) by (auto simp: find_None_iff list_ex_iff isRequest_def)
  have "findRequest T R s' = (if (T, R) = (q_tenant row, q_id row) then Some row else findRequest T R s)" for T R
    using n by (auto simp: findRequest_def assms(1) find_append isRequest_def split: option.splits)
  then have "protocolOf s' = (protocolOf s)\<lparr>sp_requests := (sp_requests (protocolOf s))((q_tenant row, q_id row) \<mapsto> ApprovalStatePending)\<rparr>"
    by (intro protocol_eqI) (simp_all add: protocolOf_def findDevice_def assms(2,4,5) fun_eq_iff)
  moreover have "sp_requests (protocolOf s) (q_tenant row, q_id row) = None"
    using n by (simp add: protocolOf_def findRequest_def)
  ultimately show ?thesis using protocol_step.open_request [of "protocolOf s" "q_tenant row" "q_id row" P] by simp
qed

lemma decided_request:
  assumes "decisionCommitted P G eng env i s q d s'" "engineInv s"
  shows "protocol_step P (protocolOf s) (protocolOf s')"
proof -
  let ?T = "pa_TenantID i" and ?R = "pa_RequestID i" and ?D = "pa_DeviceID i" and ?resp = "pa_SignedResponse i"
  note c = assms(1) [unfolded decisionCommitted_def]
  have req: "sp_requests (protocolOf s) (?T, ?R) = Some ApprovalStatePending"
    and dev: "sp_devices (protocolOf s) (?T, ?D) = Some (dv_approval_auth_pub d, dv_device_auth_pub d, dv_counter d)"
    using c by (simp_all add: protocolOf_def)
  have sig: "VerifyApprovalResponse P ?resp (verificationKey i d) = Inr ()" using c by simp
  have rq': "sp_requests (protocolOf s') = (sp_requests (protocolOf s))((?T, ?R) \<mapsto> finalState i)"
    using requests_moved c by simp
  have dv': "sp_devices (protocolOf s') = (sp_devices (protocolOf s))((?T, ?D) \<mapsto>
      (dv_approval_auth_pub d, dv_device_auth_pub d, ar_DeviceCounter ?resp))"
    using devices_advanced c by simp
  show ?thesis
  proof (cases "pa_Decision i = DecisionApprove")
    case True
    have "\<not> hasGrant ?T ?R s" using engineInv_pending [OF assms(2)] c by blast
    then obtain g where g: "grants s' = grants s @ [g]" "issuedFor eng i s q g" "\<not> list_ex (isGrant (g_tenant g) (g_jti g)) (grants s)"
      using c True by (auto simp: grantAdded_def)
    have iss: "g_tenant g = ?T" "g_request g = ?R" "g_consumed_at g = None" using g(2) by (simp_all add: issuedFor_def)
    note ga = grants_added [OF g(1,3) iss(3), unfolded iss(1,2)]
    have "protocolOf s' = (protocolOf s)\<lparr>sp_requests := (sp_requests (protocolOf s))((?T, ?R) \<mapsto> ApprovalStateGranted),
        sp_devices := (sp_devices (protocolOf s))((?T, ?D) \<mapsto> (dv_approval_auth_pub d, dv_device_auth_pub d, ar_DeviceCounter ?resp)),
        sp_grants := (sp_grants (protocolOf s))((?T, g_jti g) \<mapsto> (?R, False))\<rparr>"
      using rq' dv' ga(2) True by (intro protocol_eqI) (simp_all add: finalState_def)
    moreover have "VerifyApprovalResponse P ?resp (dv_approval_auth_pub d) = Inr ()" using sig True by (simp add: verificationKey_def)
    ultimately show ?thesis using protocol_step.approve [OF req dev _ _ ga(1), of P ?resp] c by simp
  next
    case False
    have "protocolOf s' = (protocolOf s)\<lparr>sp_requests := (sp_requests (protocolOf s))((?T, ?R) \<mapsto> ApprovalStateDenied),
        sp_devices := (sp_devices (protocolOf s))((?T, ?D) \<mapsto> (dv_approval_auth_pub d, dv_device_auth_pub d, ar_DeviceCounter ?resp))\<rparr>"
      using rq' dv' False c by (intro protocol_eqI) (simp_all add: finalState_def, simp add: protocolOf_def)
    moreover have "VerifyApprovalResponse P ?resp (dv_device_auth_pub d) = Inr ()" using sig False by (simp add: verificationKey_def)
    ultimately show ?thesis using protocol_step.deny [OF req dev, of P ?resp] c by simp
  qed
qed

lemma cancelled_request:
  assumes "findRequest T R s = Some q" "q_state q = ApprovalStatePending" "requestMoves T R ApprovalStateCancelled s s'"
    "grants s' = grants s" "devices s' = devices s"
  shows "protocol_step P (protocolOf s) (protocolOf s')"
proof -
  have "sp_requests (protocolOf s) (T, R) = Some ApprovalStatePending" using assms(1,2) by (simp add: protocolOf_def)
  moreover have "protocolOf s' = (protocolOf s)\<lparr>sp_requests := (sp_requests (protocolOf s))((T, R) \<mapsto> ApprovalStateCancelled)\<rparr>"
    using requests_moved [OF assms(3)] assms(1,4,5)
    by (intro protocol_eqI) (simp_all, simp_all add: protocolOf_def findDevice_def)
  ultimately show ?thesis using protocol_step.cancel [of "protocolOf s" T R P] by simp
qed

lemma consumed_grant:
  assumes "s' = s\<lparr>grants := updateWhere (\<lambda>h. isGrant T J h \<and> g_consumed_at h = None) (\<lambda>h. h\<lparr>g_consumed_at := Some n\<rparr>) (grants s)\<rparr>"
  shows "protocolOf s' = protocolOf s \<or> protocol_step P (protocolOf s) (protocolOf s')"
proof -
  have f: "find (isGrant U K) (grants s') =
      map_option (\<lambda>h. if isGrant T J h \<and> g_consumed_at h = None then h\<lparr>g_consumed_at := Some n\<rparr> else h) (find (isGrant U K) (grants s))" for U K
    unfolding assms by simp (rule find_updateWhere, simp add: isGrant_def)
  have key: "find (isGrant U K) (grants s) = Some h \<Longrightarrow> isGrant T J h \<longleftrightarrow> (U, K) = (T, J)" for U K h
    using find_Some_set [of "isGrant U K" "grants s" h] by (auto simp: isGrant_def)
  show ?thesis
  proof (cases "sp_grants (protocolOf s) (T, J)")
    case None
    then have nf: "find (isGrant T J) (grants s) = None" by (simp add: protocolOf_def)
    have "find (isGrant U K) (grants s') = find (isGrant U K) (grants s)" for U K
      using f [of U K] key [of U K] nf by (cases "find (isGrant U K) (grants s)") auto
    then have "protocolOf s' = protocolOf s"
      by (intro protocol_eqI) (simp_all add: protocolOf_def assms findRequest_def findDevice_def)
    then show ?thesis ..
  next
    case (Some e)
    obtain R b where e: "e = (R, b)" by fastforce
    obtain h where h: "find (isGrant T J) (grants s) = Some h" "g_request h = R" "b = (g_consumed_at h \<noteq> None)"
      using Some e by (auto simp: protocolOf_def)
    have "sp_grants (protocolOf s') = (sp_grants (protocolOf s))((T, J) \<mapsto> (R, True))"
    proof
      fix k :: "uuid \<times> uuid"
      obtain U K where k: "k = (U, K)" by (cases k)
      show "sp_grants (protocolOf s') k = ((sp_grants (protocolOf s))((T, J) \<mapsto> (R, True))) k"
        using f [of U K] key [of U K] h k
        by (cases "find (isGrant U K) (grants s)") (auto simp: protocolOf_def)
    qed
    then have eq: "protocolOf s' = (protocolOf s)\<lparr>sp_grants := (sp_grants (protocolOf s))((T, J) \<mapsto> (R, True))\<rparr>"
      by (intro protocol_eqI) (simp_all add: protocolOf_def assms findRequest_def findDevice_def)
    show ?thesis
    proof (cases b)
      case True
      then have "(sp_grants (protocolOf s))((T, J) \<mapsto> (R, True)) = sp_grants (protocolOf s)" using Some e by auto
      with eq show ?thesis by simp
    next
      case False
      with Some e eq show ?thesis using protocol_step.spend [of "protocolOf s" T J R P] by simp
    qed
  qed
qed

lemma engine_step_refines:
  assumes "engine_step P G eng s s'" "engineInv s"
  shows "protocolOf s' = protocolOf s \<or> protocol_step P (protocolOf s) (protocolOf s')"
  using assms(1)
proof (cases rule: engine_step_cases)
  case (created row)
  then show ?thesis using created_request by blast
next
  case (decided env i q d)
  then show ?thesis using decided_request assms(2) by blast
next
  case (cancelled T R q)
  then show ?thesis using cancelled_request by blast
next
  case (consumed T J n)
  then show ?thesis by (rule consumed_grant)
qed simp

text \<open>
  C2: The engine refines the protocol: from a database that satisfies the invariant of the approval tables
  (C4) and over any run of the handlers, with any inputs, faults and lost commits, the requests, device
  counters and grants change only by steps of the protocol, in which a decision takes a response
  under the right key with a fresh counter, an approval and its grant appear together, and a grant is
  spent once. The protocol is the code's: DR-SVC-2 wants the approval persisted before its grant.
\<close>

theorem engine_refines_protocol:
  assumes "engine_run P G eng s s'" and "engineInv s"
  shows "(protocol_step P)\<^sup>*\<^sup>* (protocolOf s) (protocolOf s')"
  using assms
proof (induction)
  case (step y z)
  have inv: "engineInv y" using step.hyps(1) step.prems by (induction) (auto intro: engineInv_step)
  from engine_step_refines [OF step.hyps(2) this] step.IH [OF step.prems] show ?case
    by (metis rtranclp.rtrancl_into_rtrancl)
qed simp

theorem engine_refines_protocol_witness:
  "\<exists>s'. (protocol_step demo_prims)\<^sup>*\<^sup>* (protocolOf demo_db) (protocolOf s') \<and>
     sp_requests (protocolOf demo_db) (1, 9) = Some ApprovalStatePending \<and> sp_requests (protocolOf s') (1, 9) = Some ApprovalStateGranted"
proof -
  obtain r s' q where run: "ProcessApproval demo_prims demo_pg demo_engine demo_healthy_env (demo_decide DecisionApprove) demo_db = (r, s')"
    and q: "findRequest 1 9 s' = Some q" "q_state q = ApprovalStateGranted" by (rule demo_approved)
  have "engineInv demo_db"
    by (simp add: engineInv_def demo_db_def emptyDb_def demo_request_def hasGrant_def)
  moreover have "engine_run demo_prims demo_pg demo_engine demo_db s'"
    by (rule r_into_rtranclp) (rule engine_step.process [OF run])
  moreover have "sp_requests (protocolOf demo_db) (1, 9) = Some ApprovalStatePending"
    by (simp add: protocolOf_def findRequest_def demo_db_def demo_request_def isRequest_def)
  ultimately show ?thesis using engine_refines_protocol q by (fastforce simp: protocolOf_def)
qed

end
