(* ===== verification/Delivery.thy ===== *)
theory Delivery
  imports ApprovalFlow Revocation
begin

text \<open>
  Delivery as a whole: the handlers of \<open>service/internal/enforcement\<close> and \<open>service/internal/revocation\<close>
  post messages to the outbox of \<open>service/internal/messaging/outbox.go\<close>, and the instances that hold a
  consumer's lease fetch and acknowledge them. Abstractly a consumer has a mailbox: the messages
  posted and not yet acknowledged, in their order, and the set of those acknowledged. The theory shows
  that the tables implement it when acknowledgements name the message and its number together, that a
  successor resumes where its predecessor stopped when they come in order, and what happens otherwise.
\<close>

section \<open>Mailboxes\<close>

record mailbox =
  mb_pending :: "uuid list"
  mb_done :: "uuid set"

inductive mailbox_step :: "mailbox \<Rightarrow> mailbox \<Rightarrow> bool" where
  post: "m \<notin> set (mb_pending A) \<union> mb_done A \<Longrightarrow> mailbox_step A (A\<lparr>mb_pending := mb_pending A @ [m]\<rparr>)"
| deliver: "m \<in> set (mb_pending A) \<Longrightarrow>
     mailbox_step A \<lparr>mb_pending = removeAll m (mb_pending A), mb_done = insert m (mb_done A)\<rparr>"

inductive_cases mailbox_stepE: "mailbox_step A B"

definition mailboxOk :: "mailbox \<Rightarrow> bool" where
  "mailboxOk A \<longleftrightarrow> distinct (mb_pending A) \<and> set (mb_pending A) \<inter> mb_done A = {}"

lemma mailbox_step_facts:
  assumes "mailbox_step A B" "mailboxOk A"
  shows "mailboxOk B" "mb_done A \<subseteq> mb_done B" "set (mb_pending A) \<subseteq> set (mb_pending B) \<union> mb_done B"
  using assms by (auto simp: mailboxOk_def distinct_removeAll elim!: mailbox_stepE)

text \<open>What the abstract mailbox promises: nothing is lost, and nothing is delivered a second time.\<close>

lemma mailbox_run_facts:
  assumes "mailbox_step\<^sup>*\<^sup>* A B" "mailboxOk A"
  shows "mailboxOk B \<and> mb_done A \<subseteq> mb_done B \<and> set (mb_pending A) \<subseteq> set (mb_pending B) \<union> mb_done B"
  using assms
proof (induction)
  case (step B C)
  then show ?case using mailbox_step_facts [OF step(2)] by blast
qed simp


section \<open>The mailbox of a consumer in the database\<close>

definition unacked :: "outbox_row \<Rightarrow> bool" where
  "unacked r \<longleftrightarrow> o_acked_at r = None"

definition mailboxOf :: "uuid \<Rightarrow> string \<Rightarrow> db \<Rightarrow> mailbox" where
  "mailboxOf T c s =
     \<lparr>mb_pending = map o_message_id (filter unacked (queueOf T c s)),
      mb_done = {m. inInbox T c m s}\<rparr>"

text \<open>
  The outbox is ordered, a row is marked as acknowledged exactly if the inbox has its message, and
  the inbox has messages of the outbox only.
\<close>

definition mailInv :: "db \<Rightarrow> bool" where
  "mailInv s \<longleftrightarrow> outboxInv s \<and>
     (\<forall>r \<in> set (outbox s). unacked r \<longleftrightarrow> \<not> inInbox (o_tenant r) (o_consumer r) (o_message_id r) s) \<and>
     (\<forall>i \<in> set (inbox s). list_ex (\<lambda>r. o_tenant r = i_tenant i \<and> o_consumer r = i_consumer i \<and>
                                       o_message_id r = i_message_id i) (outbox s))"

lemma mailbox_frame:
  assumes "outbox s' = outbox s" "inbox s' = inbox s"
  shows "mailboxOf T c s' = mailboxOf T c s" "mailInv s' = mailInv s"
  using assms by (simp_all add: mailboxOf_def mailInv_def queueOf_def inInbox_def outboxInv_def)

lemma mailInv_empty [simp]: "mailInv emptyDb"
  by (simp add: mailInv_def) (simp add: emptyDb_def)

lemma queueOf_mem [simp]: "r \<in> set (queueOf T c s) \<longleftrightarrow> r \<in> set (outbox s) \<and> o_tenant r = T \<and> o_consumer r = c"
  by (auto simp: queueOf_def isOutbox_def)

lemma outbox_ids:
  assumes "outboxInv s" "r \<in> set (outbox s)" "x \<in> set (outbox s)" "o_tenant r = o_tenant x"
  shows "o_message_id r = o_message_id x \<longleftrightarrow> r = x"
  using assms by (auto simp: outboxInv_def distinct_map inj_on_def)

lemma queue_seqs:
  assumes "outboxInv s" "r \<in> set (queueOf T c s)" "x \<in> set (queueOf T c s)"
  shows "o_seq r = o_seq x \<longleftrightarrow> r = x"
proof -
  have "distinct (map o_seq (queueOf T c s))" using assms(1) by (metis distinct_upto outboxInv_def)
  then show ?thesis using assms(2,3) by (auto simp: distinct_map inj_on_def simp del: queueOf_mem)
qed

lemma queue_sorted: "outboxInv s \<Longrightarrow> sorted_wrt (<) (map o_seq (queueOf T c s))"
  by (simp add: outboxInv_def)

lemma mailbox_ok:
  assumes "mailInv s"
  shows "mailboxOk (mailboxOf T c s)"
proof -
  have d: "distinct (map (\<lambda>r. (o_tenant r, o_message_id r)) (outbox s))" using assms by (simp add: mailInv_def outboxInv_def)
  have "distinct (map o_message_id (queueOf T c s))"
    using d by (auto simp: distinct_map queueOf_def isOutbox_def inj_on_def)
  then have "distinct (map o_message_id (filter unacked (queueOf T c s)))" by (simp add: distinct_map_filter)
  then show ?thesis using assms by (auto simp: mailboxOk_def mailboxOf_def mailInv_def)
qed


section \<open>What the handlers do to the mail tables\<close>

definition sameMail :: "db \<Rightarrow> db \<Rightarrow> bool" where
  "sameMail s s' \<longleftrightarrow> outbox s' = outbox s \<and> inbox s' = inbox s \<and> consumer_cursors s' = consumer_cursors s"

lemma insert_grant_mail: "insert_grant G g s = Inr (x, s') \<Longrightarrow> sameMail s s'"
  unfolding insert_grant_def sameMail_def
  by (cases "list_ex (\<lambda>h. g_tenant h = g_tenant g \<and> g_request h = g_request g) (grants s)") auto

text \<open>The rules for the flow of control of a body, without those for its statements.\<close>

lemmas keeps_flow = keeps_return keeps_query keeps_step keeps_ignoring keeps_if keeps_case_sum keeps_case_option
  keeps_case_prod

text \<open>
  A property of the mail tables that posting a message keeps; every handler that only posts keeps it
  as well, on every path of its body.
\<close>

locale mail_property =
  fixes I :: "db \<Rightarrow> bool"
  assumes frame: "sameMail s s' \<Longrightarrow> I s \<Longrightarrow> I s'"
    and posting: "insert_outbox G nw msg s = Inr (u, s') \<Longrightarrow> I s \<Longrightarrow> I s'"
begin

lemma keeps_other:
  assumes "\<And>s x s'. f s = Inr (x, s') \<Longrightarrow> sameMail s s'"
  shows "keeps I (exec env l f)"
  using assms frame by (intro keeps_exec) blast

lemma keeps_write: "keeps I (WriteTx G env l msg)"
  unfolding WriteTx_def by (intro keeps_exec) (rule posting)

lemma keeps_audit: "keeps I (InsertTx P G J env l ev)"
proof (rule keeps_InsertTx)
  fix s es hs
  have a: "sameMail s (s\<lparr>audit_events := es, audit_heads := hs\<rparr>)" "sameMail (s\<lparr>audit_events := es, audit_heads := hs\<rparr>) s"
    by (simp_all add: sameMail_def)
  show "I (s\<lparr>audit_events := es, audit_heads := hs\<rparr>) = I s" using frame [OF a(1)] frame [OF a(2)] by blast
qed

lemma keeps_transition: "keeps I (exec env l (transition_approval_request nw T R st v))"
  by (rule keeps_other) (auto simp: transition_approval_request_def sameMail_def split: if_splits option.splits)

lemma keeps_create: "keeps I (createBody P G eng env i row b)"
  unfolding createBody_def
  by (intro keeps_flow keeps_write keeps_audit keeps_other)
     (auto simp: insert_approval_request_def sameMail_def split: if_splits)

lemma keeps_mint: "keeps I (mintGrant P G eng env s0 T R u n d res sc pv ru b e ae)"
  unfolding mintGrant_def getResourceDetails_def Let_def
  by (intro keeps_flow keeps_write keeps_audit keeps_other)
     (use insert_grant_mail in \<open>auto simp: markGranted_def sameMail_def\<close>)

lemma keeps_counter: "keeps I (advanceDeviceCounter env T d n)"
  unfolding advanceDeviceCounter_def
  by (intro keeps_flow keeps_other) (auto simp: advance_device_counter_def sameMail_def Let_def)

lemma keeps_decide: "keeps I (decideBody P G eng env s0 i q e b ae)"
  unfolding decideBody_def
  by (intro keeps_flow keeps_audit keeps_mint keeps_counter keeps_transition keeps_other)
     (auto simp: recordResponse_def sameMail_def)

lemma keeps_process: "keeps I (processBody P G eng env s0 i)"
proof -
  have q: "keeps I (\<lambda>t. case query env l g t of (r, t1) \<Rightarrow> k r t1)" if "\<And>r. keeps I (k r)" for l g k
    using that keeps_query [of I env l g] by (fastforce simp: keeps_def split: prod.splits)
  show ?thesis
    unfolding processBody_def Let_def by (intro keeps_flow keeps_decide q)
qed

lemma keeps_cancel: "keeps I (cancelBody P G eng env T R why)"
  unfolding cancelBody_def by (intro keeps_flow keeps_write keeps_audit keeps_transition)

lemma keeps_next: "keeps I (nextSeq G env T)"
  unfolding nextSeq_def by (intro keeps_flow keeps_other) (auto simp: sameMail_def)

lemma keeps_revocation: "keeps I (exec env l (insert_revocation v))"
  by (rule keeps_other) (auto simp: insert_revocation_def sameMail_def)

lemma keeps_queue: "keeps I (queueDelivery G env payload T cs)"
  by (induction cs) (auto intro!: keeps_flow keeps_write)

lemma keeps_issue: "keeps I (issueBody G json env T k target cs)"
proof -
  have t: "keeps I (terminateActiveSessions G env T k target)"
    unfolding terminateActiveSessions_def by (intro keeps_flow keeps_other) (auto simp: closeSessions_def sameMail_def)
  have i: "keeps I (invalidateGrants G env T k target)"
    unfolding invalidateGrants_def by (intro keeps_flow keeps_other) (auto simp: delete_grants_def sameMail_def Let_def)
  show ?thesis
    unfolding issueBody_def Let_def by (intro keeps_flow keeps_next keeps_revocation keeps_queue t i)
qed

lemma IssueRevocation_keeps: "IssueRevocation G json env T k target cs s = (r, s') \<Longrightarrow> I s \<Longrightarrow> I s'"
  unfolding IssueRevocation_def by (rule runTx_keeps [OF keeps_issue])

lemma RevokeDevice_keeps:
  assumes "RevokeDevice P G env T d why s = (r, s')" "I s"
  shows "I s'"
  using assms(2,1) unfolding RevokeDevice_def issueRevocationInTx_def Let_def
  by (rule runTx_keeps [rotated]) (intro keeps_flow keeps_next keeps_revocation keeps_other; simp add: sameMail_def)

lemma engine_step_keeps:
  assumes "engine_step P G eng s s'" "I s"
  shows "I s'"
  using assms(1)
proof cases
  case (create env i r)
  obtain row b where "s' = s \<or> runTx env EnfBegin EnfCommit (createBody P G eng env i row b) s = (r, s')"
    using create by (rule CreateApprovalRequest_run)
  then show ?thesis by (elim disjE) (use assms(2) in simp, erule runTx_keeps [OF keeps_create assms(2)])
next
  case (process env i r)
  then show ?thesis using runTx_keeps [OF keeps_process assms(2)] by (simp add: ProcessApproval_def)
next
  case (cancel env T R N why r)
  then show ?thesis using runTx_keeps [OF keeps_cancel assms(2)] by (simp add: CancelApprovalRequest_def)
next
  case (consume env T J r)
  then have "sameMail s s'" by (cases rule: ConsumeGrant_cases) (auto simp: sameMail_def)
  then show ?thesis using frame assms(2) by blast
qed

end



section \<open>The service implements the mailboxes\<close>

text \<open>An acknowledgement names a message of the consumer's queue together with its number.\<close>

definition ackNamesRow :: "stream_op \<Rightarrow> db \<Rightarrow> bool" where
  "ackNamesRow op s =
    (case op of
       OpAck env T c m seq fence \<Rightarrow> list_ex (\<lambda>r. o_message_id r = m \<and> o_seq r = seq) (queueOf T c s)
     | _ \<Rightarrow> True)"

text \<open>A step of the service: a handler of the engine, a revocation, or an operation on the streams.\<close>

inductive delivery_step :: "prims \<Rightarrow> pg \<Rightarrow> engine \<Rightarrow> (Revocation \<Rightarrow> bytes) \<Rightarrow> db \<Rightarrow> db \<Rightarrow> bool" for P G eng json where
  engine: "engine_step P G eng s s' \<Longrightarrow> delivery_step P G eng json s s'"
| revocation: "IssueRevocation G json env T k target cs s = (r, s') \<Longrightarrow> delivery_step P G eng json s s'"
| device: "RevokeDevice P G env T d why s = (u, s') \<Longrightarrow> delivery_step P G eng json s s'"
| stream: "ackNamesRow op s \<Longrightarrow> streamStep op s = (out, s') \<Longrightarrow> delivery_step P G eng json s s'"

definition mailAdvances :: "db \<Rightarrow> db \<Rightarrow> bool" where
  "mailAdvances s s' \<longleftrightarrow> mailInv s' \<and> (\<forall>T c. mailbox_step\<^sup>*\<^sup>* (mailboxOf T c s) (mailboxOf T c s'))"

lemma mailAdvances_refl [simp]: "mailInv s \<Longrightarrow> mailAdvances s s"
  by (simp add: mailAdvances_def)

lemma mailAdvances_trans: "mailAdvances s s' \<Longrightarrow> mailAdvances s' s'' \<Longrightarrow> mailAdvances s s''"
  unfolding mailAdvances_def by (meson rtranclp_trans)

lemma mailAdvances_one:
  assumes "mailInv s'" and "\<And>T c. mailboxOf T c s' = mailboxOf T c s \<or> mailbox_step (mailboxOf T c s) (mailboxOf T c s')"
  shows "mailAdvances s s'"
  using assms unfolding mailAdvances_def by (metis r_into_rtranclp rtranclp.rtrancl_refl)

lemma post_advances:
  assumes "insert_outbox G nw msg s = Inr (u, s')" "mailInv s"
  shows "mailAdvances s s'"
proof -
  have inv: "outboxInv s" "outboxInv s'"
    using assms insert_outbox_outboxInv [OF assms(1)] by (simp_all add: mailInv_def)
  from assms(1) inv(1) show ?thesis
  proof (cases rule: insert_outbox_Inr)
    case seen
    then show ?thesis using assms(2) by simp
  next
    case (appended payload)
    let ?T = "om_TenantID msg" and ?c = "om_Consumer msg" and ?m = "om_MessageID msg"
    define row where "row = writtenRow nw msg payload (int (length (queueOf ?T ?c s)) + 1)"
    have row: "o_tenant row = ?T" "o_consumer row = ?c" "o_message_id row = ?m" "unacked row"
      by (simp_all add: row_def writtenRow_def unacked_def)
    have s': "outbox s' = outbox s @ [row]" "inbox s' = inbox s" using appended(3) by (simp_all add: row_def)
    then have ib: "inInbox T c m s' = inInbox T c m s" for T c m by (simp add: inInbox_def)
    have new: "\<not> (\<exists>r \<in> set (outbox s). o_tenant r = ?T \<and> o_message_id r = ?m)"
      using appended(1) by (auto simp: seenMessage_def list_ex_iff)
    then have fresh: "\<not> inInbox ?T c ?m s" for c
      using assms(2) by (auto simp: mailInv_def inInbox_def list_ex_iff)
    have "mailInv s'" using assms(2) inv(2) fresh row by (auto simp: mailInv_def s' ib)
    moreover have "mailboxOf T c s' = mailboxOf T c s \<or> mailbox_step (mailboxOf T c s) (mailboxOf T c s')" for T c
    proof (cases "T = ?T \<and> c = ?c")
      case True
      let ?A = "mailboxOf ?T ?c s"
      have "?m \<notin> set (mb_pending ?A) \<union> mb_done ?A" using new fresh by (auto simp: mailboxOf_def)
      moreover have "mailboxOf ?T ?c s' = ?A\<lparr>mb_pending := mb_pending ?A @ [?m]\<rparr>"
        using row by (simp add: mailboxOf_def queueOf_def isOutbox_def s' ib)
      ultimately show ?thesis using True mailbox_step.post by metis
    next
      case False
      then show ?thesis using row by (auto simp: mailboxOf_def queueOf_def isOutbox_def s' ib)
    qed
    ultimately show ?thesis by (rule mailAdvances_one)
  qed
qed

interpretation mail: mail_property "mailAdvances s0" for s0
proof
  fix s s'
  assume "sameMail s s'" "mailAdvances s0 s"
  then show "mailAdvances s0 s'" using mailbox_frame [of s' s] by (simp add: mailAdvances_def sameMail_def)
next
  fix G nw msg s u s'
  assume "insert_outbox G nw msg s = Inr (u, s')" "mailAdvances s0 s"
  then show "mailAdvances s0 s'" using post_advances mailAdvances_trans by (metis mailAdvances_def)
qed

text \<open>Acknowledging a row of the queue by its number and its message.\<close>

lemma filter_updateWhere:
  "(\<And>r. K (f r) = K r) \<Longrightarrow> filter K (updateWhere Q f rows) = updateWhere Q f (filter K rows)"
  by (induction rows) (simp_all add: updateWhere_def)

lemma removeAll_marked:
  assumes "\<And>x. x \<in> set q \<Longrightarrow> o_message_id x = o_message_id r \<longleftrightarrow> x = r" "\<not> unacked r'"
  shows "map o_message_id (filter unacked (map (\<lambda>x. if x = r then r' else x) q)) =
         removeAll (o_message_id r) (map o_message_id (filter unacked q))"
  using assms(1)
proof (induction q)
  case (Cons x q)
  then show ?case using assms(2) Cons.prems [of x] by (cases "x = r") (simp_all add: eq_commute [of "o_message_id r"])
qed simp

lemma queueOf_ackedDb:
  "queueOf U d (ackedDb env T c m seq s) =
     map (\<lambda>r. if isOutbox T c r \<and> o_seq r = seq then r\<lparr>o_acked_at := Some (pgNow env)\<rparr> else r) (queueOf U d s)"
proof -
  have "isOutbox U d (r\<lparr>o_acked_at := a\<rparr>) = isOutbox U d r" for r a by (simp add: isOutbox_def)
  then show ?thesis by (simp add: queueOf_def ackedDb_def filter_updateWhere) (simp add: updateWhere_def)
qed

lemma inInbox_ackedDb:
  "inInbox U d x (ackedDb env T c m seq s) \<longleftrightarrow> (U = T \<and> d = c \<and> x = m) \<or> inInbox U d x s"
  by (auto simp: inInbox_def ackedDb_def)

lemma outboxInv_ackedDb [simp]: "outboxInv (ackedDb env T c m seq s) = outboxInv s"
proof -
  have "map o_seq (queueOf U d (ackedDb env T c m seq s)) = map o_seq (queueOf U d s)" for U d
    by (simp add: queueOf_ackedDb)
  moreover have "map (\<lambda>r. (o_tenant r, o_message_id r)) (outbox (ackedDb env T c m seq s)) =
      map (\<lambda>r. (o_tenant r, o_message_id r)) (outbox s)"
    by (simp add: ackedDb_def updateWhere_def)
  ultimately show ?thesis unfolding outboxInv_def by (metis length_map)
qed

lemma row_named:
  assumes "outboxInv s" "r \<in> set (queueOf T c s)" "x \<in> set (outbox s)"
  shows "isOutbox T c x \<and> o_seq x = o_seq r \<longleftrightarrow> x = r" "o_tenant x = T \<and> o_message_id x = o_message_id r \<longleftrightarrow> x = r"
  using assms queue_seqs [OF assms(1), of x T c r] outbox_ids [OF assms(1), of x r] by (auto simp: isOutbox_def)

lemma ack_mailInv:
  assumes "mailInv s" "r \<in> set (queueOf T c s)"
  shows "mailInv (ackedDb env T c (o_message_id r) (o_seq r) s)" (is "mailInv ?s'")
proof -
  have inv: "outboxInv s" using assms(1) by (simp add: mailInv_def)
  have ob: "outbox ?s' = map (\<lambda>x. if x = r then r\<lparr>o_acked_at := Some (pgNow env)\<rparr> else x) (outbox s)"
    using row_named(1) [OF inv assms(2)] by (auto simp: ackedDb_def updateWhere_def)
  have "unacked x \<longleftrightarrow> \<not> inInbox (o_tenant x) (o_consumer x) (o_message_id x) ?s'" if "x \<in> set (outbox ?s')" for x
    using that assms row_named(2) [OF inv assms(2)] by (auto simp: ob mailInv_def inInbox_ackedDb unacked_def)
  moreover have "list_ex (\<lambda>x. o_tenant x = i_tenant i \<and> o_consumer x = i_consumer i \<and> o_message_id x = i_message_id i) (outbox ?s')"
    if "i \<in> set (inbox ?s')" for i
  proof -
    have "list_ex (\<lambda>x. o_tenant x = i_tenant i \<and> o_consumer x = i_consumer i \<and> o_message_id x = i_message_id i) (outbox s)"
      using that assms by (auto simp: ackedDb_def mailInv_def list_ex_iff)
    then show ?thesis by (auto simp: ackedDb_def list_ex_updateWhere)
  qed
  ultimately show ?thesis using inv by (auto simp: mailInv_def)
qed

lemma ack_delivers:
  assumes "mailInv s" "r \<in> set (queueOf T c s)" "unacked r"
  shows "mailbox_step (mailboxOf T c s) (mailboxOf T c (ackedDb env T c (o_message_id r) (o_seq r) s))"
proof -
  let ?A = "mailboxOf T c s" and ?m = "o_message_id r"
  have inv: "outboxInv s" using assms(1) by (simp add: mailInv_def)
  have "queueOf T c (ackedDb env T c ?m (o_seq r) s) =
      map (\<lambda>x. if x = r then r\<lparr>o_acked_at := Some (pgNow env)\<rparr> else x) (queueOf T c s)"
    unfolding queueOf_ackedDb using row_named(1) [OF inv assms(2)] by (intro map_cong) auto
  moreover have "o_message_id x = ?m \<longleftrightarrow> x = r" if "x \<in> set (queueOf T c s)" for x
    using that row_named(2) [OF inv assms(2)] by auto
  ultimately have "map o_message_id (filter unacked (queueOf T c (ackedDb env T c ?m (o_seq r) s))) =
      removeAll ?m (map o_message_id (filter unacked (queueOf T c s)))"
    using removeAll_marked [of "queueOf T c s" r "r\<lparr>o_acked_at := Some (pgNow env)\<rparr>"] by (simp add: unacked_def)
  then have "mailboxOf T c (ackedDb env T c ?m (o_seq r) s) =
      \<lparr>mb_pending = removeAll ?m (mb_pending ?A), mb_done = insert ?m (mb_done ?A)\<rparr>"
    by (auto simp: mailboxOf_def inInbox_ackedDb)
  moreover have "?m \<in> set (mb_pending ?A)" using assms(2,3) by (auto simp: mailboxOf_def)
  ultimately show ?thesis using mailbox_step.deliver by metis
qed

lemma ack_others:
  assumes "(U, d) \<noteq> (T, c)"
  shows "mailboxOf U d (ackedDb env T c m seq s) = mailboxOf U d s"
proof -
  have "queueOf U d (ackedDb env T c m seq s) = queueOf U d s"
    unfolding queueOf_ackedDb using assms by (intro map_idI) (auto simp: isOutbox_def)
  then show ?thesis using assms by (auto simp: mailboxOf_def inInbox_ackedDb)
qed

lemma AckMessage_advances:
  assumes "AckMessage env T c m seq fence s = (r, s')" "mailInv s"
    and "list_ex (\<lambda>x. o_message_id x = m \<and> o_seq x = seq) (queueOf T c s)"
  shows "mailAdvances s s'"
  using assms(1)
proof (cases rule: AckMessage_cases)
  case acked
  obtain x where x: "x \<in> set (queueOf T c s)" "m = o_message_id x" "seq = o_seq x" using assms(3) by (auto simp: list_ex_iff)
  have "unacked x" using acked(2) x assms(2) by (auto simp: mailInv_def)
  then have "mailboxOf U d s' = mailboxOf U d s \<or> mailbox_step (mailboxOf U d s) (mailboxOf U d s')" for U d
    using ack_delivers [OF assms(2) x(1)] ack_others [of U d T c] acked(1) x(2,3) by (cases "(U, d) = (T, c)") auto
  moreover have "mailInv s'" using ack_mailInv [OF assms(2) x(1)] acked(1) x(2,3) by simp
  ultimately show ?thesis by (intro mailAdvances_one)
qed (use assms(2) in simp)

lemma AcquireLease_mail:
  "outbox (snd (AcquireLease env T c owner s)) = outbox s \<and> inbox (snd (AcquireLease env T c owner s)) = inbox s"
proof -
  obtain r s' where a: "AcquireLease env T c owner s = (r, s')" by fastforce
  then have "outbox s' = outbox s \<and> inbox s' = inbox s"
    unfolding AcquireLease_def by (rule runTx_cases) (auto simp: upsertLease_def split: option.splits)
  then show ?thesis by (simp add: a)
qed

lemma lease_mail:
  "outbox (snd (RenewLease env l s)) = outbox s \<and> inbox (snd (RenewLease env l s)) = inbox s"
  "outbox (snd (ReleaseLease env l s)) = outbox s \<and> inbox (snd (ReleaseLease env l s)) = inbox s"
  by (simp_all add: RenewLease_def renewRows_def ReleaseLease_def autocommit_def Let_def)

lemma streamStep_advances:
  assumes "streamStep op s = (out, s')" "ackNamesRow op s" "mailInv s"
  shows "mailAdvances s s'"
proof (cases op)
  case (OpAck env T c m seq fence)
  then show ?thesis using assms AckMessage_advances by (auto simp: ackNamesRow_def split: prod.splits)
qed (use assms mailbox_frame [of s' s] AcquireLease_mail lease_mail in \<open>auto simp: mailAdvances_def\<close>)

lemma delivery_step_advances:
  assumes "delivery_step P G eng json s s'" "mailInv s"
  shows "mailAdvances s s'"
  using assms(1)
proof cases
  case engine
  then show ?thesis by (rule mail.engine_step_keeps) (use assms(2) in simp)
next
  case (revocation env T k target cs r)
  then show ?thesis by (rule mail.IssueRevocation_keeps) (use assms(2) in simp)
next
  case (device env T d why u)
  then show ?thesis by (rule mail.RevokeDevice_keeps) (use assms(2) in simp)
next
  case (stream op out)
  then show ?thesis using streamStep_advances assms(2) by blast
qed

text \<open>
  C18: Delivery implements the mailboxes: over any run of the engine's handlers, of revocations, of lease
  operations and of acknowledgements that name a message with its number, by any instances, with any
  faults and lost commits, the mailbox of every consumer changes only by posting a new message at
  its end and by acknowledging a pending one. So no message is lost (a pending one stays pending
  until it is acknowledged), none is acknowledged twice, and none is pending after it was acknowledged.
\<close>

theorem delivery_refines_mailbox:
  assumes "(delivery_step P G eng json)\<^sup>*\<^sup>* s s'" and "mailInv s"
  shows "mailInv s' \<and> mailbox_step\<^sup>*\<^sup>* (mailboxOf T c s) (mailboxOf T c s') \<and>
         set (mb_pending (mailboxOf T c s)) \<subseteq> set (mb_pending (mailboxOf T c s')) \<union> mb_done (mailboxOf T c s') \<and>
         mb_done (mailboxOf T c s) \<subseteq> mb_done (mailboxOf T c s') \<and>
         distinct (mb_pending (mailboxOf T c s')) \<and> set (mb_pending (mailboxOf T c s')) \<inter> mb_done (mailboxOf T c s') = {}"
proof -
  have "mailAdvances s s'"
    using assms
  proof (induction)
    case (step s1 s2)
    then show ?case using delivery_step_advances [OF step(2)] mailAdvances_trans by (metis mailAdvances_def)
  qed simp
  then have "mailInv s'" "mailbox_step\<^sup>*\<^sup>* (mailboxOf T c s) (mailboxOf T c s')" by (simp_all add: mailAdvances_def)
  then show ?thesis
    using mailbox_run_facts [OF _ mailbox_ok [OF assms(2)]] by (simp add: mailboxOk_def)
qed


section \<open>Resuming after a crash\<close>

text \<open>The cursor of the consumer separates the acknowledged messages from the others.\<close>

definition inOrder :: "uuid \<Rightarrow> string \<Rightarrow> db \<Rightarrow> bool" where
  "inOrder T c s \<longleftrightarrow>
    (case findCursor T c s of None \<Rightarrow> False
     | Some cur \<Rightarrow> list_all (\<lambda>r. unacked r \<longleftrightarrow> cur_last_acked_seq cur < o_seq r) (queueOf T c s))"

text \<open>Rows acknowledged one after the other under a fence, with the answers of the calls.\<close>

fun ackRows :: "svc_env \<Rightarrow> uuid \<Rightarrow> string \<Rightarrow> int \<Rightarrow> outbox_row list \<Rightarrow> db \<Rightarrow> (messaging_error + bool) list \<times> db" where
  "ackRows env T c fence [] s = ([], s)"
| "ackRows env T c fence (r # rs) s =
     (let (x, s1) = AckMessage env T c (o_message_id r) (o_seq r) fence s;
          (xs, s2) = ackRows env T c fence rs s1
      in (x # xs, s2))"

definition soundEnv :: "svc_env \<Rightarrow> bool" where
  "soundEnv env \<longleftrightarrow> (\<forall>l. \<not> fault env l) \<and> commitAs env = CommitOk"

lemma sorted_filter_key: "sorted (map f xs) \<Longrightarrow> sort_key f (filter K xs) = filter K xs"
  by (simp add: sort_key_id_if_sorted sorted_filter)

lemma pendingRows_queue:
  assumes "outboxInv s"
  shows "pendingRows T c from s = filter (\<lambda>r. from < o_seq r \<and> unacked r) (queueOf T c s)"
proof -
  have "sorted (map o_seq (queueOf T c s))" using assms by (simp add: outboxInv_def)
  from sorted_filter_key [OF this, of "\<lambda>r. from < o_seq r \<and> unacked r"] show ?thesis
    by (simp add: pendingRows_def queueOf_def isOutbox_def unacked_def conj_ac)
qed

lemma pendingRows_inOrder:
  assumes "outboxInv s" "inOrder T c s" "findCursor T c s = Some cur"
  shows "pendingRows T c (cur_last_acked_seq cur) s = filter unacked (queueOf T c s)"
  unfolding pendingRows_queue [OF assms(1)] using assms(2,3) by (intro filter_cong) (auto simp: inOrder_def list_all_iff)

lemma AckMessage_new:
  assumes "soundEnv env" "findCursor T c s = Some cur" "\<not> inInbox T c m s"
  shows "AckMessage env T c m seq (cur_lease_fence cur) s = (Inr True, ackedDb env T c m seq s)"
proof -
  have "inInbox T c m (s\<lparr>outbox := os\<rparr>) = inInbox T c m s" for os by (simp add: inInbox_def)
  then show ?thesis
    using assms by (simp add: AckMessage_def runTx_def ackBody_def step_def query_def exec_def commitTx_def soundEnv_def
        beginTx_def ackedDb_def)
qed

lemma findCursor_ackedDb:
  assumes "findCursor T c s = Some cur"
  shows "findCursor T c (ackedDb env T c m seq s) = Some (cur\<lparr>cur_last_acked_seq := max (cur_last_acked_seq cur) seq\<rparr>)"
proof -
  let ?f = "\<lambda>r. r\<lparr>cur_last_acked_seq := max (cur_last_acked_seq r) seq\<rparr>"
  have "findCursor T c (ackedDb env T c m seq s) =
      findCursor T c (s\<lparr>consumer_cursors := updateWhere (isCursor T c) ?f (consumer_cursors s)\<rparr>)"
    by (simp add: findCursor_def ackedDb_def)
  also have "\<dots> = map_option (\<lambda>r. if isCursor T c r then ?f r else r) (findCursor T c s)"
    by (rule findCursor_update) simp_all
  finally show ?thesis using assms findCursor_is [OF assms] by simp
qed

text \<open>Acknowledging the oldest pending row: the others stay as they are, and the cursor moves to it.\<close>

lemma ack_oldest:
  fixes env :: svc_env
  assumes inv: "mailInv s" and ord: "inOrder T c s" and cur: "findCursor T c s = Some cur"
    and rows: "filter unacked (queueOf T c s) = r # rs"
  defines "s' \<equiv> ackedDb env T c (o_message_id r) (o_seq r) s"
  shows "mailInv s'" "findCursor T c s' = Some (cur\<lparr>cur_last_acked_seq := o_seq r\<rparr>)" "inOrder T c s'"
    "filter unacked (queueOf T c s') = rs" "\<not> inInbox T c (o_message_id r) s"
proof -
  have ob: "outboxInv s" using inv by (simp add: mailInv_def)
  have r: "r \<in> set (queueOf T c s)" "unacked r" using arg_cong [OF rows, of set] by auto
  show "mailInv s'" unfolding s'_def by (rule ack_mailInv [OF inv r(1)])
  show "\<not> inInbox T c (o_message_id r) s" using inv r by (auto simp: mailInv_def)
  have low: "cur_last_acked_seq cur < o_seq r" using ord cur r by (auto simp: inOrder_def list_all_iff)
  then show c': "findCursor T c s' = Some (cur\<lparr>cur_last_acked_seq := o_seq r\<rparr>)"
    using findCursor_ackedDb [OF cur] by (simp add: s'_def max_def)
  have q': "queueOf T c s' = map (\<lambda>x. if x = r then r\<lparr>o_acked_at := Some (pgNow env)\<rparr> else x) (queueOf T c s)"
    unfolding s'_def queueOf_ackedDb using row_named(1) [OF ob r(1)] by (intro map_cong) auto
  have dist: "sorted_wrt (<) (map o_seq (r # rs))"
    using sorted_wrt_filter [of "\<lambda>x y. o_seq x < o_seq y" "queueOf T c s" unacked] queue_sorted [OF ob, of T c] rows
    by (simp add: sorted_wrt_map)
  have "filter unacked (map (\<lambda>x. if x = r then r\<lparr>o_acked_at := Some (pgNow env)\<rparr> else x) q) = filter (\<lambda>x. x \<noteq> r) (filter unacked q)" for q
    by (induction q) (auto simp: unacked_def)
  then have "filter unacked (queueOf T c s') = filter (\<lambda>x. x \<noteq> r) (r # rs)" unfolding q' by (simp only: rows)
  then show "filter unacked (queueOf T c s') = rs" using dist by (auto intro!: filter_True)
  have "unacked x \<longleftrightarrow> o_seq r < o_seq x" if x: "x \<in> set (queueOf T c s)" "x \<noteq> r" for x
  proof
    assume "unacked x"
    then have "x \<in> set (r # rs)" using x(1) by (simp flip: rows)
    then show "o_seq r < o_seq x" using dist x(2) by auto
  next
    assume "o_seq r < o_seq x"
    then have "cur_last_acked_seq cur < o_seq x" using low by simp
    then show "unacked x" using ord cur x(1) by (auto simp: inOrder_def list_all_iff)
  qed
  then show "inOrder T c s'" by (auto simp: inOrder_def c' q' list_all_iff unacked_def)
qed

lemma ackRows_in_order:
  assumes "soundEnv env" "mailInv s" "inOrder T c s" "findCursor T c s = Some cur"
    and "filter unacked (queueOf T c s) = rows @ rest"
  shows "\<exists>s1 n. ackRows env T c (cur_lease_fence cur) rows s = (replicate (length rows) (Inr True), s1) \<and> mailInv s1 \<and>
      inOrder T c s1 \<and> findCursor T c s1 = Some (cur\<lparr>cur_last_acked_seq := n\<rparr>) \<and> filter unacked (queueOf T c s1) = rest"
  using assms(2-5)
proof (induction rows arbitrary: s cur)
  case Nil
  then show ?case by (auto intro: exI [of _ "cur_last_acked_seq cur"])
next
  case (Cons r rows)
  let ?s' = "ackedDb env T c (o_message_id r) (o_seq r) s" and ?cur = "cur\<lparr>cur_last_acked_seq := o_seq r\<rparr>"
  have rows: "filter unacked (queueOf T c s) = r # rows @ rest" using Cons.prems(4) by simp
  note o = ack_oldest(1-4) [OF Cons.prems(1-3) rows, where env = env] ack_oldest(5) [OF Cons.prems(1-3) rows]
  have a: "AckMessage env T c (o_message_id r) (o_seq r) (cur_lease_fence cur) s = (Inr True, ?s')"
    using AckMessage_new [OF assms(1) Cons.prems(3)] o(5) by simp
  have "\<exists>s1 n. ackRows env T c (cur_lease_fence ?cur) rows ?s' = (replicate (length rows) (Inr True), s1) \<and> mailInv s1 \<and>
      inOrder T c s1 \<and> findCursor T c s1 = Some (?cur\<lparr>cur_last_acked_seq := n\<rparr>) \<and> filter unacked (queueOf T c s1) = rest"
    using o by (intro Cons.IH) simp_all
  then show ?case using a by auto
qed

text \<open>
  C27: A successor resumes where its predecessor stopped: an instance that acknowledged the first \<open>k\<close> of the
  pending messages in order, on a healthy connection and with the current token, had every one accepted as
  new; if it then crashes, the next instance to acquire the lease is told a position from which
  \<open>FetchPending\<close> returns exactly the remaining messages, oldest first and up to its limit.
\<close>

theorem resume_after_crash:
  assumes "mailInv s" and "inOrder T c s" and "findCursor T c s = Some cur" and "cur_lease_fence cur + 1 < 2 ^ 63"
    and "0 \<le> cur_lease_fence cur" and "soundEnv env" and "soundEnv env2" and "soundEnv env3" and "0 \<le> limit"
  shows "let rows = filter (\<lambda>r. o_acked_at r = None) (queueOf T c s);
             (answers, s1) = ackRows env T c (cur_lease_fence cur) (take k rows) s
         in answers = replicate (min k (length rows)) (Inr True) \<and>
            (\<exists>lease s2. AcquireLease env2 T c owner s1 = (Inr lease, s2) \<and>
               cl_LeaseFence lease = cur_lease_fence cur + 1 \<and>
               FetchPending env3 T c (cl_LastAckedSeq lease) limit s2 =
                 Inr (map messageOf (take (nat limit) (drop k rows))))"
proof -
  let ?rows = "filter unacked (queueOf T c s)"
  have un: "(\<lambda>r. o_acked_at r = None) = unacked" by (simp add: fun_eq_iff unacked_def)
  obtain s1 n where a: "ackRows env T c (cur_lease_fence cur) (take k ?rows) s = (replicate (length (take k ?rows)) (Inr True), s1)"
    and s1: "mailInv s1" "inOrder T c s1" "findCursor T c s1 = Some (cur\<lparr>cur_last_acked_seq := n\<rparr>)"
      "filter unacked (queueOf T c s1) = drop k ?rows"
    using ackRows_in_order [OF assms(6,1-3), of "take k ?rows" "drop k ?rows"] by auto
  obtain lease s2 where l: "AcquireLease env2 T c owner s1 = (Inr lease, s2)" "cl_LeaseFence lease = cur_lease_fence cur + 1"
      "cl_LastAckedSeq lease = n"
    using s1(3) assms(4,5,7)
    by (simp add: AcquireLease_def runTx_def step_def exec_def upsertLease_def commitTx_def soundEnv_def bigint_def inInt64_def)
  have o: "outbox s2 = outbox s1" using AcquireLease_mail [of env2 T c owner s1] l(1) by simp
  have ob: "outboxInv s1" "outboxInv s2" using s1(1) outboxInv_cong [OF o] by (simp_all add: mailInv_def)
  have "pendingRows T c n s2 = pendingRows T c n s1" by (simp add: pendingRows_def o)
  then have "pendingRows T c n s2 = drop k ?rows" using pendingRows_inOrder [OF ob(1) s1(2,3)] s1(4) by simp
  then have "FetchPending env3 T c n limit s2 = Inr (map messageOf (take (nat limit) (drop k ?rows)))"
    using assms(8,9) by (simp add: FetchPending_def soundEnv_def)
  then show ?thesis using a l by (auto simp: un min_def)
qed


section \<open>Where the streams lose messages\<close>

text \<open>
  \<open>AckMessage\<close> takes the number and the message on trust. An acknowledgement of one pending message with
  the number of another one is accepted: the other is never fetched again, and the named one stays
  pending for ever, since every further acknowledgement of it counts as a repetition.
\<close>

theorem mismatched_ack_loses_message:
  assumes "mailInv s" and "findCursor T c s = Some cur" and "soundEnv env"
    and "r \<in> set (queueOf T c s)" and "x \<in> set (queueOf T c s)" and "r \<noteq> x" and "unacked r" and "unacked x"
  shows "\<exists>s1. AckMessage env T c (o_message_id r) (o_seq x) (cur_lease_fence cur) s = (Inr True, s1) \<and>
     (\<forall>p. o_seq x \<notin> o_seq ` set (pendingRows T c p s1)) \<and> r \<in> set (pendingRows T c (o_seq r - 1) s1) \<and>
     (\<forall>env' seq fence. snd (AckMessage env' T c (o_message_id r) seq fence s1) = s1)"
proof -
  let ?s1 = "ackedDb env T c (o_message_id r) (o_seq x) s"
  have ob: "outboxInv s" using assms(1) by (simp add: mailInv_def)
  have "\<not> inInbox T c (o_message_id r) s" using assms(1,4,7) by (auto simp: mailInv_def)
  then have a: "AckMessage env T c (o_message_id r) (o_seq x) (cur_lease_fence cur) s = (Inr True, ?s1)"
    using AckMessage_new [OF assms(3,2)] by simp
  have ob1: "outboxInv ?s1" using ob by simp
  have gone: "o_seq x \<notin> o_seq ` set (pendingRows T c p ?s1)" for p
    unfolding pendingRows_queue [OF ob1] queueOf_ackedDb by (auto simp: isOutbox_def unacked_def)
  have "o_seq r \<noteq> o_seq x" using queue_seqs [OF ob assms(4,5)] assms(6) by simp
  then have "r \<in> set (queueOf T c ?s1)"
    using assms(4) unfolding queueOf_ackedDb by (force simp del: queueOf_mem simp: image_iff)
  then have stuck: "r \<in> set (pendingRows T c (o_seq r - 1) ?s1)"
    unfolding pendingRows_queue [OF ob1] using assms(7) by simp
  have known: "inInbox T c (o_message_id r) ?s1" by (simp add: inInbox_ackedDb)
  have "snd (AckMessage env' T c (o_message_id r) seq fence ?s1) = ?s1" for env' seq fence
  proof -
    obtain a s2 where a2: "AckMessage env' T c (o_message_id r) seq fence ?s1 = (a, s2)" by fastforce
    then have "s2 = ?s1" by (cases rule: AckMessage_cases) (use known in auto)
    then show ?thesis by (simp add: a2)
  qed
  then show ?thesis using a gone stuck by blast
qed

text \<open>
  The cursor is the largest number acknowledged. If a later message is acknowledged before an earlier
  one, a successor that resumes from its lease's position is never given the earlier one.
\<close>

theorem out_of_order_ack_skips:
  assumes "mailInv s" and "findCursor T c s = Some cur" and "soundEnv env" and "soundEnv env2"
    and "cur_lease_fence cur + 1 < 2 ^ 63" and "0 \<le> cur_lease_fence cur"
    and "r \<in> set (queueOf T c s)" and "x \<in> set (queueOf T c s)" and "unacked r" and "unacked x" and "o_seq r < o_seq x"
  shows "\<exists>s1 lease s2. AckMessage env T c (o_message_id x) (o_seq x) (cur_lease_fence cur) s = (Inr True, s1) \<and>
     AcquireLease env2 T c owner s1 = (Inr lease, s2) \<and> o_message_id r \<in> set (mb_pending (mailboxOf T c s2)) \<and>
     (\<forall>env3 limit msgs. FetchPending env3 T c (cl_LastAckedSeq lease) limit s2 = Inr msgs \<longrightarrow>
        o_message_id r \<notin> om_MessageID ` set msgs)"
proof -
  let ?s1 = "ackedDb env T c (o_message_id x) (o_seq x) s"
  let ?n = "max (cur_last_acked_seq cur) (o_seq x)"
  have ob: "outboxInv s" using assms(1) by (simp add: mailInv_def)
  have "\<not> inInbox T c (o_message_id x) s" using assms(1,8,10) by (auto simp: mailInv_def)
  then have a: "AckMessage env T c (o_message_id x) (o_seq x) (cur_lease_fence cur) s = (Inr True, ?s1)"
    using AckMessage_new [OF assms(3,2)] by simp
  have cur1: "findCursor T c ?s1 = Some (cur\<lparr>cur_last_acked_seq := ?n\<rparr>)" by (rule findCursor_ackedDb [OF assms(2)])
  obtain lease s2 where l: "AcquireLease env2 T c owner ?s1 = (Inr lease, s2)" "cl_LastAckedSeq lease = ?n"
    using cur1 assms(4-6)
    by (simp add: AcquireLease_def runTx_def step_def exec_def upsertLease_def commitTx_def soundEnv_def bigint_def inInt64_def)
  have o: "outbox s2 = outbox ?s1" using AcquireLease_mail [of env2 T c owner ?s1] l(1) by simp
  have ob2: "outboxInv s2" using ob outboxInv_cong [OF o] by simp
  have "r \<in> set (queueOf T c ?s1)"
    using assms(7,11) unfolding queueOf_ackedDb by (force simp del: queueOf_mem simp: image_iff)
  then have r2: "r \<in> set (queueOf T c s2)" by (simp add: o)
  then have "o_message_id r \<in> set (mb_pending (mailboxOf T c s2))" using assms(9) by (auto simp: mailboxOf_def)
  moreover have no: "o_message_id y \<noteq> o_message_id r" if "y \<in> set (pendingRows T c ?n s2)" for y
  proof
    assume "o_message_id y = o_message_id r"
    then have "y = r" using that row_named(2) [OF ob2 r2] unfolding pendingRows_queue [OF ob2] by auto
    then show False using that assms(11) unfolding pendingRows_queue [OF ob2] by simp
  qed
  have "o_message_id r \<notin> om_MessageID ` set msgs" if "FetchPending env3 T c ?n limit s2 = Inr msgs" for env3 limit msgs
    using that no by (auto simp: FetchPending_def messageOf_def dest!: in_set_takeD) metis
  ultimately show ?thesis using a l by metis
qed


section \<open>Concrete mail\<close>

definition demo_mail :: db where
  "demo_mail = emptyDb\<lparr>outbox := [writtenRow 3 (demo_msg 8) [5] 1, writtenRow 4 (demo_msg 9) [5] 2],
     consumer_cursors := [\<lparr>cur_tenant = 1, cur_consumer = ''dev'', cur_last_acked_seq = 0, cur_lease_owner = Some 2,
       cur_lease_fence = 1, cur_lease_expires_at = Some 0\<rparr>]\<rparr>"

lemma demo_mail_queue:
  "queueOf T c demo_mail = (if T = 1 \<and> c = ''dev'' then [writtenRow 3 (demo_msg 8) [5] 1, writtenRow 4 (demo_msg 9) [5] 2] else [])"
  by (auto simp: demo_mail_def queueOf_def isOutbox_def writtenRow_def demo_msg_def)

lemma demo_mail_ok: "mailInv demo_mail" "inOrder 1 ''dev'' demo_mail" "soundEnv (demo_svc n)"
proof -
  have "outboxInv demo_mail"
    by (simp add: outboxInv_def demo_mail_queue) (simp add: demo_mail_def writtenRow_def demo_msg_def upto.simps)
  moreover have "inbox demo_mail = []" "outbox demo_mail = [writtenRow 3 (demo_msg 8) [5] 1, writtenRow 4 (demo_msg 9) [5] 2]"
    by (simp_all add: demo_mail_def emptyDb_def)
  ultimately show "mailInv demo_mail" by (simp add: mailInv_def unacked_def inInbox_def writtenRow_def)
  have "\<exists>cur. findCursor 1 ''dev'' demo_mail = Some cur \<and> cur_last_acked_seq cur = 0"
    by (simp add: demo_mail_def findCursor_def isCursor_def)
  then show "inOrder 1 ''dev'' demo_mail" by (auto simp: inOrder_def demo_mail_queue unacked_def writtenRow_def)
  show "soundEnv (demo_svc n)" by (simp add: soundEnv_def)
qed

theorem delivery_refines_mailbox_witness:
  "mailInv (snd (streamStep (OpAck (demo_svc 7) 1 ''dev'' 8 1 1) demo_mail)) \<and>
   mailbox_step\<^sup>*\<^sup>* (mailboxOf 1 ''dev'' demo_mail) (mailboxOf 1 ''dev'' (snd (streamStep (OpAck (demo_svc 7) 1 ''dev'' 8 1 1) demo_mail)))"
proof -
  let ?op = "OpAck (demo_svc 7) 1 ''dev'' 8 1 1"
  have "ackNamesRow ?op demo_mail" by (simp add: ackNamesRow_def demo_mail_queue writtenRow_def demo_msg_def)
  then have "(delivery_step demo_prims demo_pg eng json)\<^sup>*\<^sup>* demo_mail (snd (streamStep ?op demo_mail))" for eng json
    using delivery_step.stream [of ?op demo_mail] by (metis prod.collapse r_into_rtranclp)
  from delivery_refines_mailbox [OF this demo_mail_ok(1)] show ?thesis by blast
qed

theorem resume_after_crash_witness:
  "\<exists>s1 lease s2. ackRows (demo_svc 7) 1 ''dev'' 1 [writtenRow 3 (demo_msg 8) [5] 1] demo_mail = ([Inr True], s1) \<and>
     AcquireLease (demo_svc 8) 1 ''dev'' 5 s1 = (Inr lease, s2) \<and>
     FetchPending (demo_svc 9) 1 ''dev'' (cl_LastAckedSeq lease) 10 s2 = Inr [demo_msg 9]"
proof -
  obtain cur where cur: "findCursor 1 ''dev'' demo_mail = Some cur" "cur_lease_fence cur = 1"
    by (simp add: demo_mail_def findCursor_def isCursor_def)
  have rows: "filter (\<lambda>r. o_acked_at r = None) (queueOf 1 ''dev'' demo_mail) =
      [writtenRow 3 (demo_msg 8) [5] 1, writtenRow 4 (demo_msg 9) [5] 2]"
    by (simp add: demo_mail_queue writtenRow_def)
  have "messageOf (writtenRow 4 (demo_msg 9) [5] 2) = demo_msg 9" by (simp add: messageOf_def writtenRow_def demo_msg_def)
  then show ?thesis
    using resume_after_crash [OF demo_mail_ok(1,2) cur(1) _ _ demo_mail_ok(3) demo_mail_ok(3) demo_mail_ok(3),
        of 10 7 1 8 5 9] cur(2) rows by (auto split: prod.splits)
qed

end
