(* ===== verification/Policy.thy ===== *)
theory Policy
  imports Messaging "HOL-Library.Multiset"
begin

text \<open>
  \<open>service/internal/policy/engine.go\<close>: evaluation of an access attempt against the tenant's newest
  policy bundle, coverage analysis of a policy document, and publication of bundles. \<open>sort.Slice\<close> is
  not stable, so the sorted rule list is a function that the engine is given, with the contract
  \<open>rule_sorter\<close>; JSON encoding and the text form of a \<open>jsonb\<close> value are functions of the record
  \<open>policy_codec\<close>.
\<close>

section \<open>Data\<close>

record SubjectSelector =
  sel_Users :: "string list"
  sel_Groups :: "string list"
  sel_DeviceTags :: "string list"
  sel_PrincipalKinds :: "PrincipalKind list"

record ResourceSelector =
  sel_ResourceIDs :: "string list"
  sel_Tags :: "string list"
  sel_Services :: "string list"
  sel_Ports :: "int list"
  sel_DeploymentModes :: "DeploymentMode list"
  sel_Sensitivity :: "Sensitivity list"

record PolicyRule =
  rule_ID :: string
  rule_Priority :: int
  rule_Effect :: EnforcementDecision
  rule_Description :: string
  rule_Subjects :: "SubjectSelector list"
  rule_Resources :: "ResourceSelector list"
  rule_Protocols :: "string list"
  rule_AllowedScopes :: "Scope list"
  rule_RequireOnlineCheck :: bool
  rule_MaxDurationSeconds :: "int option"
  rule_VerificationFrequency :: string

record PolicyDocument =
  doc_Version :: int
  doc_Rules :: "PolicyRule list"
  doc_InventorySnapshotID :: string

datatype explanation =
    NotRegistered
  | PolicyUnavailable
  | BundleExpired
  | DocumentParseError
  | AmbiguousPolicy int
  | RuleMatched string string
  | NoMatchingRule

record EvaluateResult =
  er_Decision :: EnforcementDecision
  er_MatchedRuleID :: string
  er_Scope :: Scope
  er_Explanation :: explanation
  er_RequireStepUp :: bool
  er_PolicyVersion :: int
  er_AuthzEpoch :: int

text \<open>The fields a result leaves out have Go's zero values.\<close>

definition denied :: "explanation \<Rightarrow> EvaluateResult" where
  "denied why = \<lparr>er_Decision = DecisionEnforceDeny, er_MatchedRuleID = [], er_Scope = [], er_Explanation = why,
     er_RequireStepUp = False, er_PolicyVersion = 0, er_AuthzEpoch = 0\<rparr>"

record policy_codec =
  marshal_Doc :: "PolicyDocument \<Rightarrow> bytes option"
  unmarshal_Doc :: "bytes \<Rightarrow> PolicyDocument option"
  jsonb_text :: "bytes \<Rightarrow> bytes"

datatype policy_error =
    MustParseResource
  | CheckProtected sql_error
  | CoverageQuery sql_error
  | CurrentVersion sql_error
  | MarshalDocument
  | SignBundle
  | InsertBundle sql_error


section \<open>Matching\<close>

definition subjectMatches :: "SubjectSelector \<Rightarrow> Principal \<Rightarrow> bool" where
  "subjectMatches sel prin =
    (if sel_PrincipalKinds sel \<noteq> [] \<and> \<not> list_ex (\<lambda>k. k = pr_Kind prin) (sel_PrincipalKinds sel) then False
     else case (if sel_Users sel \<noteq> [] then pr_User prin else None) of
            Some u \<Rightarrow> list_ex (\<lambda>x. x = oid_UserID u) (sel_Users sel)
          | None \<Rightarrow>
              if sel_Users sel = [] \<and> sel_Groups sel = [] \<and> sel_DeviceTags sel = [] \<and> sel_PrincipalKinds sel = [] then True
              else sel_PrincipalKinds sel \<noteq> [])"

definition resourceMatches :: "ResourceSelector \<Rightarrow> ResourceID \<Rightarrow> bool" where
  "resourceMatches sel resource =
    (if sel_ResourceIDs sel \<noteq> []
     then list_ex (\<lambda>rid. rid = res_ServiceID resource \<or> rid = res_ProtectedNodeID resource) (sel_ResourceIDs sel)
     else if sel_Ports sel \<noteq> [] then list_ex (\<lambda>p. p = res_Port resource) (sel_Ports sel)
     else if sel_Services sel \<noteq> [] then list_ex (\<lambda>s. s = res_ServiceID resource) (sel_Services sel)
     else if sel_DeploymentModes sel \<noteq> []
     then list_ex (\<lambda>m. m = res_DeploymentMode resource) (sel_DeploymentModes sel)
     else True)"

definition ruleMatches :: "PolicyRule \<Rightarrow> Principal \<Rightarrow> ResourceID \<Rightarrow> string \<Rightarrow> Scope \<Rightarrow> bool" where
  "ruleMatches rule prin resource protocol scope =
    (if rule_Subjects rule \<noteq> [] \<and> \<not> list_ex (\<lambda>sel. subjectMatches sel prin) (rule_Subjects rule) then False
     else if rule_Resources rule \<noteq> [] \<and> \<not> list_ex (\<lambda>sel. resourceMatches sel resource) (rule_Resources rule) then False
     else if rule_Protocols rule \<noteq> [] \<and> \<not> list_ex (\<lambda>p. p = protocol) (rule_Protocols rule) then False
     else if rule_AllowedScopes rule \<noteq> [] \<and> \<not> list_ex (\<lambda>s. s = scope) (rule_AllowedScopes rule) then False
     else True)"

definition hasConflictingTie ::
  "PolicyRule list \<Rightarrow> PolicyRule \<Rightarrow> Principal \<Rightarrow> ResourceID \<Rightarrow> string \<Rightarrow> Scope \<Rightarrow> bool" where
  "hasConflictingTie rules matched prin resource protocol scope =
     list_ex (\<lambda>r. rule_ID r \<noteq> rule_ID matched \<and> rule_Priority r = rule_Priority matched \<and>
                  rule_Effect r \<noteq> rule_Effect matched \<and> ruleMatches r prin resource protocol scope) rules"


section \<open>Evaluation\<close>

definition isResourceProtected ::
  "prims \<Rightarrow> svc_env \<Rightarrow> uuid \<Rightarrow> ResourceID \<Rightarrow> db \<Rightarrow> policy_error + bool" where
  "isResourceProtected P env tenantID resource s =
     need (uuid_Parse P (res_ProtectedNodeID resource)) MustParseResource (\<lambda>node.
     reject (fault env ''protected resource'') (CheckProtected ConnectionFault) (
     Inr (list_ex (\<lambda>r. r_tenant r = tenantID \<and> r_protected_node_id r = node \<and>
                       r_service_id r = res_ServiceID resource \<and> r_port r = res_Port resource) (resources s))))"

definition loadActiveBundle :: "svc_env \<Rightarrow> uuid \<Rightarrow> db \<Rightarrow> sql_error + policy_row" where
  "loadActiveBundle env tenantID s =
     reject (fault env ''load bundle'') ConnectionFault (
     case sort_key (\<lambda>p. - p_version p) (filter (\<lambda>p. p_tenant p = tenantID \<and> p_expires_at p > pgNow env) (policies s)) of
       [] \<Rightarrow> Inl NoRows
     | b # bs \<Rightarrow> Inr b)"

fun evaluateRules ::
  "policy_row \<Rightarrow> Principal \<Rightarrow> ResourceID \<Rightarrow> string \<Rightarrow> Scope \<Rightarrow> PolicyRule list \<Rightarrow> PolicyRule list \<Rightarrow> EvaluateResult" where
  "evaluateRules bundle prin resource protocol scope rules [] = denied NoMatchingRule"
| "evaluateRules bundle prin resource protocol scope rules (rule # rest) =
    (if ruleMatches rule prin resource protocol scope then
       (if hasConflictingTie rules rule prin resource protocol scope
        then denied (AmbiguousPolicy (rule_Priority rule))
        else \<lparr>er_Decision = rule_Effect rule, er_MatchedRuleID = rule_ID rule, er_Scope = scope,
              er_Explanation = RuleMatched (rule_ID rule) (rule_Description rule),
              er_RequireStepUp = (rule_Effect rule = DecisionRequireStepUp),
              er_PolicyVersion = p_version bundle, er_AuthzEpoch = p_epoch bundle\<rparr>)
     else evaluateRules bundle prin resource protocol scope rules rest)"

definition Evaluate ::
  "prims \<Rightarrow> policy_codec \<Rightarrow> (PolicyRule list \<Rightarrow> PolicyRule list) \<Rightarrow> svc_env \<Rightarrow> uuid \<Rightarrow> Principal \<Rightarrow> ResourceID \<Rightarrow> string
     \<Rightarrow> Scope \<Rightarrow> db \<Rightarrow> policy_error + EvaluateResult" where
  "Evaluate P K sortSlice env tenantID prin resource protocol requestedScope s =
     attempt (isResourceProtected P env tenantID resource s) (\<lambda>e. e) (\<lambda>isProtected.
     if \<not> isProtected then Inr ((denied NotRegistered)\<lparr>er_Decision := DecisionNotProtected\<rparr>)
     else case loadActiveBundle env tenantID s of
            Inl e \<Rightarrow> Inr (denied PolicyUnavailable)
          | Inr bundle \<Rightarrow>
              if clock env ''evaluate'' > p_expires_at bundle then Inr (denied BundleExpired)
              else (case unmarshal_Doc K (p_document bundle) of
                      None \<Rightarrow> Inr (denied DocumentParseError)
                    | Some doc \<Rightarrow>
                        (let rules = sortSlice (doc_Rules doc)
                         in Inr (evaluateRules bundle prin resource protocol requestedScope rules rules))))"


section \<open>The contract of the sort\<close>

text \<open>What \<open>sort.Slice\<close> promises with the comparison of \<open>Evaluate\<close>; ties may come in any order.\<close>

locale rule_sorter =
  fixes sortSlice :: "PolicyRule list \<Rightarrow> PolicyRule list"
  assumes same_rules: "mset (sortSlice rules) = mset rules"
    and descending: "sorted_wrt (\<lambda>a b. rule_Priority b \<le> rule_Priority a) (sortSlice rules)"
begin

lemma set_sorted: "set (sortSlice rules) = set rules"
  using same_rules by (rule mset_eq_setD)

text \<open>The first matching rule of the sorted list has the highest priority of all that match.\<close>

lemma first_match:
  assumes "find m (sortSlice rules) = Some r"
  shows "r \<in> set rules \<and> m r \<and> (\<forall>r' \<in> set rules. m r' \<longrightarrow> rule_Priority r' \<le> rule_Priority r)"
proof -
  obtain i where i: "i < length (sortSlice rules)" "m (sortSlice rules ! i)" "r = sortSlice rules ! i"
      "\<forall>j < i. \<not> m (sortSlice rules ! j)"
    using assms unfolding find_Some_iff by blast
  have "rule_Priority r' \<le> rule_Priority r" if r': "r' \<in> set rules" "m r'" for r'
  proof -
    obtain j where j: "j < length (sortSlice rules)" "r' = sortSlice rules ! j"
      using r'(1) unfolding set_sorted [of rules, symmetric] in_set_conv_nth by auto
    have "\<not> j < i" using i(4) r'(2) j(2) by blast
    then have "i \<le> j" by simp
    show ?thesis
    proof (cases "i = j")
      case False
      then have "i < j" using \<open>i \<le> j\<close> by simp
      then show ?thesis using sorted_wrt_nth_less [OF descending [of rules]] i(3) j by simp
    qed (use i(3) j(2) in simp)
  qed
  moreover have "r \<in> set rules" using nth_mem [OF i(1)] i(3) by (simp add: set_sorted)
  ultimately show ?thesis using i by blast
qed

end

text \<open>A stable insertion sort by descending priority is one such sort.\<close>

definition sortByPriority :: "PolicyRule list \<Rightarrow> PolicyRule list" where
  "sortByPriority rules = sort_key (\<lambda>r. - rule_Priority r) rules"

interpretation stable: rule_sorter sortByPriority
proof
  show "mset (sortByPriority rules) = mset rules" for rules by (simp add: sortByPriority_def)
  have "sorted (map (\<lambda>r. - rule_Priority r) (sortByPriority rules))" for rules
    by (simp add: sortByPriority_def)
  then show "sorted_wrt (\<lambda>a b. rule_Priority b \<le> rule_Priority a) (sortByPriority rules)" for rules
    by (simp add: sorted_map)
qed


section \<open>What evaluation decides\<close>

text \<open>
  The reference: of the matching rules those with the highest priority decide, if they agree; a
  disagreement, and no matching rule at all, is a denial. No order of the rules is involved.
\<close>

definition topRules :: "(PolicyRule \<Rightarrow> bool) \<Rightarrow> PolicyRule list \<Rightarrow> PolicyRule list" where
  "topRules m rules =
     filter (\<lambda>r. m r \<and> list_all (\<lambda>r'. m r' \<longrightarrow> rule_Priority r' \<le> rule_Priority r) rules) rules"

definition decisionOf :: "(PolicyRule \<Rightarrow> bool) \<Rightarrow> PolicyRule list \<Rightarrow> EnforcementDecision" where
  "decisionOf m rules =
     (case topRules m rules of
        [] \<Rightarrow> DecisionEnforceDeny
      | r # rs \<Rightarrow> if list_all (\<lambda>r'. rule_Effect r' = rule_Effect r) rs then rule_Effect r else DecisionEnforceDeny)"

lemma evaluateRules_find:
  "evaluateRules b pr res pc sc rules rs =
     (case find (\<lambda>r. ruleMatches r pr res pc sc) rs of
        None \<Rightarrow> denied NoMatchingRule
      | Some r \<Rightarrow> if hasConflictingTie rules r pr res pc sc then denied (AmbiguousPolicy (rule_Priority r))
                  else \<lparr>er_Decision = rule_Effect r, er_MatchedRuleID = rule_ID r, er_Scope = sc,
                        er_Explanation = RuleMatched (rule_ID r) (rule_Description r),
                        er_RequireStepUp = (rule_Effect r = DecisionRequireStepUp),
                        er_PolicyVersion = p_version b, er_AuthzEpoch = p_epoch b\<rparr>)"
  by (induction rs) auto

lemma set_topRules: "r \<in> set (topRules m rules) \<longleftrightarrow>
    r \<in> set rules \<and> m r \<and> (\<forall>r' \<in> set rules. m r' \<longrightarrow> rule_Priority r' \<le> rule_Priority r)"
  by (auto simp: topRules_def list_all_iff)

lemma decisionOf_agree:
  assumes "r \<in> set (topRules m rules)"
  shows "decisionOf m rules =
     (if \<forall>r' \<in> set (topRules m rules). rule_Effect r' = rule_Effect r then rule_Effect r else DecisionEnforceDeny)"
  using assms by (cases "topRules m rules") (auto simp: decisionOf_def list_all_iff)

context rule_sorter
begin

lemma evaluateRules_decision:
  assumes "inj_on rule_ID (set rules)"
  shows "er_Decision (evaluateRules b pr res pc sc (sortSlice rules) (sortSlice rules))
       = decisionOf (\<lambda>r. ruleMatches r pr res pc sc) rules"
proof (cases "find (\<lambda>r. ruleMatches r pr res pc sc) (sortSlice rules)")
  case None
  then have "topRules (\<lambda>r. ruleMatches r pr res pc sc) rules = []"
    using set_sorted [of rules] by (auto simp: find_None_iff topRules_def filter_empty_conv)
  then show ?thesis using None by (simp add: evaluateRules_find decisionOf_def denied_def)
next
  case (Some r)
  let ?m = "\<lambda>r. ruleMatches r pr res pc sc"
  note f = first_match [OF Some]
  then have top: "r \<in> set (topRules ?m rules)" by (simp add: set_topRules)
  have "hasConflictingTie (sortSlice rules) r pr res pc sc
      \<longleftrightarrow> (\<exists>r' \<in> set (topRules ?m rules). rule_Effect r' \<noteq> rule_Effect r)"
    using f assms set_sorted [of rules]
    by (auto simp: hasConflictingTie_def list_ex_iff set_topRules inj_on_def) (metis order_antisym)+
  then show ?thesis using Some decisionOf_agree [OF top]
    by (auto simp: evaluateRules_find denied_def)
qed

end

text \<open>
  C12: Evaluation implements the reference when the rules of the bundle have distinct identifiers: for a
  protected resource with a current bundle, the decision is that of the highest-priority matching
  rules if they agree, and a denial otherwise, for every way of sorting rules of equal priority. With
  an identifier used twice the order does matter, as shown below.
\<close>

theorem Evaluate_decides_by_priority:
  assumes "rule_sorter sortSlice"
    and "isResourceProtected P env T res s = Inr True"
    and "loadActiveBundle env T s = Inr b" and "clock env ''evaluate'' \<le> p_expires_at b"
    and "unmarshal_Doc K (p_document b) = Some doc" and "distinct (map rule_ID (doc_Rules doc))"
  shows "\<exists>r. Evaluate P K sortSlice env T pr res pc sc s = Inr r \<and>
           er_Decision r = decisionOf (\<lambda>r. ruleMatches r pr res pc sc) (doc_Rules doc)"
  using assms rule_sorter.evaluateRules_decision [OF assms(1)]
  by (simp add: Evaluate_def distinct_map Let_def)

lemma loadActiveBundle_newest:
  assumes "loadActiveBundle env T s = Inr b"
  shows "b \<in> set (policies s) \<and> p_tenant b = T \<and> p_expires_at b > pgNow env \<and>
    (\<forall>b' \<in> set (policies s). p_tenant b' = T \<and> p_expires_at b' > pgNow env \<longrightarrow> p_version b' \<le> p_version b)"
proof -
  let ?rows = "filter (\<lambda>p. p_tenant p = T \<and> p_expires_at p > pgNow env) (policies s)"
  obtain bs where e: "sort_key (\<lambda>p. - p_version p) ?rows = b # bs"
    using assms by (auto simp: loadActiveBundle_def split: list.splits)
  then have st: "set ?rows = insert b (set bs)" using set_sort [of "\<lambda>p. - p_version p" ?rows] by simp
  have so: "sorted (map (\<lambda>p. - p_version p) (b # bs))" using sorted_sort_key [of "\<lambda>p. - p_version p" ?rows] e by simp
  have "p_version b' \<le> p_version b" if "b' \<in> set ?rows" for b' using that so unfolding st by auto
  moreover have "b \<in> set ?rows" using st by simp
  ultimately show ?thesis by auto
qed

text \<open>
  C13: Fail closed: a result other than a denial for a registered resource was granted by a rule of the
  newest bundle of the tenant that is unexpired for the database and for the service, and no
  matching rule of that priority with another identifier disagrees. Without such a bundle, or if its
  document does not parse, every attempt is denied.
\<close>

theorem Evaluate_fails_closed:
  assumes "rule_sorter sortSlice" and "Evaluate P K sortSlice env T pr res pc sc s = Inr r"
    and "er_Decision r \<noteq> DecisionEnforceDeny"
  shows "isResourceProtected P env T res s = Inr False \<and> er_Decision r = DecisionNotProtected \<or>
     (\<exists>b doc rule. b \<in> set (policies s) \<and> p_tenant b = T \<and> p_expires_at b > pgNow env \<and>
        clock env ''evaluate'' \<le> p_expires_at b \<and>
        (\<forall>b' \<in> set (policies s). p_tenant b' = T \<and> p_expires_at b' > pgNow env \<longrightarrow> p_version b' \<le> p_version b) \<and>
        unmarshal_Doc K (p_document b) = Some doc \<and> rule \<in> set (doc_Rules doc) \<and>
        ruleMatches rule pr res pc sc \<and> er_Decision r = rule_Effect rule \<and> er_MatchedRuleID r = rule_ID rule \<and>
        er_PolicyVersion r = p_version b \<and> er_AuthzEpoch r = p_epoch b \<and>
        (\<forall>r' \<in> set (doc_Rules doc). ruleMatches r' pr res pc sc \<longrightarrow> rule_Priority r' \<le> rule_Priority rule \<and>
           (rule_Priority r' = rule_Priority rule \<and> rule_ID r' \<noteq> rule_ID rule \<longrightarrow> rule_Effect r' = rule_Effect rule)))"
proof (cases "isResourceProtected P env T res s")
  case (Inr prot)
  show ?thesis
  proof (cases prot)
    case False
    then show ?thesis using assms(2) Inr by (auto simp: Evaluate_def)
  next
    case True
    obtain b where b: "loadActiveBundle env T s = Inr b"
      using assms(2,3) Inr True by (cases "loadActiveBundle env T s") (auto simp: Evaluate_def denied_def)
    have ck: "clock env ''evaluate'' \<le> p_expires_at b"
      using assms(2,3) Inr True b by (auto simp: Evaluate_def denied_def not_less split: if_splits)
    obtain doc where doc: "unmarshal_Doc K (p_document b) = Some doc"
      using assms(2,3) Inr True b ck by (cases "unmarshal_Doc K (p_document b)") (auto simp: Evaluate_def denied_def)
    let ?rules = "sortSlice (doc_Rules doc)" and ?m = "\<lambda>r. ruleMatches r pr res pc sc"
    have r: "r = evaluateRules b pr res pc sc ?rules ?rules"
      using assms(2) Inr True b ck doc by (simp add: Evaluate_def Let_def)
    obtain rule where rule: "find ?m ?rules = Some rule"
      using r assms(3) by (cases "find ?m ?rules") (auto simp: evaluateRules_find denied_def)
    have nt: "\<not> hasConflictingTie ?rules rule pr res pc sc"
      using r assms(3) rule by (auto simp: evaluateRules_find denied_def)
    have "rule_Effect r' = rule_Effect rule" if "r' \<in> set (doc_Rules doc)" "?m r'" "rule_Priority r' = rule_Priority rule"
        "rule_ID r' \<noteq> rule_ID rule" for r'
      using nt that rule_sorter.set_sorted [OF assms(1), of "doc_Rules doc"]
      by (auto simp: hasConflictingTie_def list_ex_iff)
    then show ?thesis
      using loadActiveBundle_newest [OF b] ck doc rule_sorter.first_match [OF assms(1) rule] r rule nt
      by (intro disjI2 exI [of _ b] exI [of _ doc] exI [of _ rule]) (auto simp: evaluateRules_find)
  qed
qed (use assms(2) in \<open>simp add: Evaluate_def\<close>)


section \<open>Coverage\<close>

record CoverageGap =
  gap_ResourceID :: uuid
  gap_ServiceID :: string
  gap_Port :: int
  gap_Protocol :: string
  gap_Reason :: string

record CoverageResult =
  cov_Passed :: bool
  cov_Uncovered :: "CoverageGap list"
  cov_Warnings :: "string list"

text \<open>The deployment mode is a parameter that the source does not use.\<close>

definition coverageRuleMatches :: "PolicyRule \<Rightarrow> string \<Rightarrow> int \<Rightarrow> string \<Rightarrow> DeploymentMode \<Rightarrow> bool" where
  "coverageRuleMatches rule serviceID port protocol mode =
    (if \<not> (rule_Protocols rule = [] \<or> list_ex (\<lambda>p. p = protocol) (rule_Protocols rule)) then False
     else if rule_Resources rule = [] then True
     else list_ex (\<lambda>sel. list_ex (\<lambda>s. s = serviceID) (sel_Services sel) \<or> list_ex (\<lambda>p. p = port) (sel_Ports sel))
            (rule_Resources rule))"

definition relevantProtocols :: "DeploymentMode \<Rightarrow> string list" where
  "relevantProtocols mode =
     ''TCP'' # (if mode = ModeHTTPProxy then [''HTTP'', ''HTTPS''] else []) @
     (if mode = ModeTSSSH \<or> mode = ModeOpenSSH then [''SSH''] else [])"

definition resourceGaps :: "PolicyDocument \<Rightarrow> resource_row \<Rightarrow> CoverageGap list" where
  "resourceGaps doc r =
     map (\<lambda>protocol. \<lparr>gap_ResourceID = r_id r, gap_ServiceID = r_service_id r, gap_Port = r_port r,
                       gap_Protocol = protocol,
                       gap_Reason = ''No rule covers '' @ r_deployment_mode r @ ''/'' @ r_service_id r @ '':'' @
                         show_int (r_port r) @ ''/'' @ protocol\<rparr>)
       (filter (\<lambda>protocol. \<not> list_ex (\<lambda>rule. coverageRuleMatches rule (r_service_id r) (r_port r) protocol (r_deployment_mode r))
                     (doc_Rules doc))
          (relevantProtocols (r_deployment_mode r)))"

definition CheckCoverage :: "svc_env \<Rightarrow> uuid \<Rightarrow> PolicyDocument \<Rightarrow> db \<Rightarrow> policy_error + CoverageResult" where
  "CheckCoverage env tenantID doc s =
     reject (fault env ''coverage'') (CoverageQuery ConnectionFault) (
     let gaps = concat (map (resourceGaps doc) (filter (\<lambda>r. r_tenant r = tenantID) (resources s)))
     in Inr \<lparr>cov_Passed = (gaps = []), cov_Uncovered = gaps, cov_Warnings = []\<rparr>)"


section \<open>Publishing\<close>

record PublishPolicyInput =
  pub_TenantID :: uuid
  pub_Document :: PolicyDocument
  pub_DryRun :: bool
  pub_IssuedBy :: uuid

record PublishPolicyResult =
  pub_Version :: int
  pub_Epoch :: int
  pub_Bundle :: "policy_row option"
  pub_Coverage :: CoverageResult
  pub_Warnings :: "string list"
  pub_Published :: bool

text \<open>A bundle in memory: like a row, but a previous hash that was not found is the nil slice.\<close>

definition buildBundleForSigning :: "prims \<Rightarrow> uuid \<Rightarrow> int \<Rightarrow> int \<Rightarrow> bytes \<Rightarrow> bytes option \<Rightarrow> bytes" where
  "buildBundleForSigning P tenantID version epoch document prevHash =
     sha256 P (str_bytes (uuid_String P tenantID) @ int64ToBytes version @ int64ToBytes epoch @ document @
               (case prevHash of None \<Rightarrow> [] | Some h \<Rightarrow> h))"

definition tenantPolicies :: "uuid \<Rightarrow> db \<Rightarrow> policy_row list" where
  "tenantPolicies tenantID s = filter (\<lambda>p. p_tenant p = tenantID) (policies s)"

definition previousHash :: "prims \<Rightarrow> policy_codec \<Rightarrow> svc_env \<Rightarrow> uuid \<Rightarrow> int \<Rightarrow> db \<Rightarrow> bytes option" where
  "previousHash P K env tenantID currentVersion s =
    (if currentVersion > 0
     then (if fault env ''previous hash'' then None
           else map_option (\<lambda>p. sha256 P (jsonb_text K (p_document p)))
                  (find (\<lambda>p. p_tenant p = tenantID \<and> p_version p = currentVersion) (policies s)))
     else Some (replicate 32 0))"

definition insert_policy :: "pg \<Rightarrow> policy_row \<Rightarrow> bytes option \<Rightarrow> db \<Rightarrow> sql_error + unit \<times> db" where
  "insert_policy G b prevHash s =
     need (jsonb_in G (p_document b)) InvalidJson (\<lambda>document.
     need (sqlBytes G prevHash) (NotNullViolation ''policies.prev_hash'') (\<lambda>ph.
     if list_ex (\<lambda>p. p_tenant p = p_tenant b \<and> p_version p = p_version b) (policies s) then Inr ((), s)
     else
     reject (p_tenant b \<notin> set (tenants s) \<or>
             (case p_issued_by b of None \<Rightarrow> False | Some u \<Rightarrow> \<not> list_ex (\<lambda>r. u_id r = u) (users s)))
       (ForeignKeyViolation ''policies'') (
     Inr ((), s\<lparr>policies := policies s @ [b\<lparr>p_document := document, p_prev_hash := ph\<rparr>]\<rparr>))))"

text \<open>
  From the version query to the row to insert, and the insert: two statements outside a transaction.
  \<open>s\<close> is the database of the queries, the database of the insert may be another one.
\<close>

definition preparePolicy ::
  "prims \<Rightarrow> policy_codec \<Rightarrow> svc_env \<Rightarrow> (bytes \<Rightarrow> (bytes \<times> string) option) \<Rightarrow> PublishPolicyInput \<Rightarrow> db
     \<Rightarrow> policy_error + policy_row \<times> bytes option" where
  "preparePolicy P K env signer input s =
     reject (fault env ''current version'') (CurrentVersion ConnectionFault) (
     let currentVersion = maxOr 0 (map p_version (tenantPolicies (pub_TenantID input) s));
         currentEpoch = maxOr 0 (map p_epoch (tenantPolicies (pub_TenantID input) s));
         prevHash = previousHash P K env (pub_TenantID input) currentVersion s;
         newVersion = wrap64 (currentVersion + 1);
         newEpoch = wrap64 (currentEpoch + 1);
         nw = clock env ''publish''
     in need (marshal_Doc K (pub_Document input)) MarshalDocument (\<lambda>docBytes.
        need (signer (buildBundleForSigning P (pub_TenantID input) newVersion newEpoch docBytes prevHash)) SignBundle (\<lambda>(sig, kid).
        Inr (\<lparr>p_tenant = pub_TenantID input, p_version = newVersion, p_epoch = newEpoch, p_document = docBytes,
              p_prev_hash = (case prevHash of None \<Rightarrow> [] | Some h \<Rightarrow> h), p_signature = sig, p_kid = kid,
              p_not_before = nw, p_expires_at = nw + 5 * minute, p_min_daemon_version = ''2.1.0'',
              p_issued_by = Some (pub_IssuedBy input)\<rparr>, prevHash))))"

definition insertBundle ::
  "pg \<Rightarrow> svc_env \<Rightarrow> policy_row \<Rightarrow> bytes option \<Rightarrow> CoverageResult \<Rightarrow> db \<Rightarrow> (policy_error + PublishPolicyResult) \<times> db" where
  "insertBundle G env b prevHash coverage s =
    (let (r, s') = autocommit env ''insert bundle'' (insert_policy G b prevHash) s
     in (attempt r InsertBundle (\<lambda>u.
         Inr \<lparr>pub_Version = p_version b, pub_Epoch = p_epoch b, pub_Bundle = Some b, pub_Coverage = coverage,
              pub_Warnings = [], pub_Published = True\<rparr>), s'))"

text \<open>The dash of the warning is three bytes of UTF-8.\<close>

definition coverageWarning :: string where
  "coverageWarning =
     ''Coverage gaps detected '' @ [CHR 0xE2, CHR 0x80, CHR 0x94] @ '' policy rejected''"

definition PublishPolicy ::
  "prims \<Rightarrow> pg \<Rightarrow> policy_codec \<Rightarrow> svc_env \<Rightarrow> (bytes \<Rightarrow> (bytes \<times> string) option) \<Rightarrow> PublishPolicyInput \<Rightarrow> db
     \<Rightarrow> (policy_error + PublishPolicyResult) \<times> db" where
  "PublishPolicy P G K env signer input s =
    (case CheckCoverage env (pub_TenantID input) (pub_Document input) s of
       Inl e \<Rightarrow> (Inl e, s)
     | Inr coverage \<Rightarrow>
         (if \<not> cov_Passed coverage \<and> \<not> pub_DryRun input
          then (Inr \<lparr>pub_Version = 0, pub_Epoch = 0, pub_Bundle = None, pub_Coverage = coverage,
                     pub_Warnings = [coverageWarning], pub_Published = False\<rparr>, s)
          else if pub_DryRun input
          then (Inr \<lparr>pub_Version = 0, pub_Epoch = 0, pub_Bundle = None, pub_Coverage = coverage,
                     pub_Warnings = [], pub_Published = cov_Passed coverage\<rparr>, s)
          else (case preparePolicy P K env signer input s of
                  Inl e \<Rightarrow> (Inl e, s)
                | Inr (b, prevHash) \<Rightarrow> insertBundle G env b prevHash coverage s)))"


section \<open>What publishing guarantees\<close>

lemma insertBundle_Inr:
  assumes "insertBundle G env b ph c s = (Inr r, s')"
  shows "insert_policy G b ph s = Inr ((), s') \<and> pub_Version r = p_version b \<and> pub_Epoch r = p_epoch b \<and>
         pub_Bundle r = Some b \<and> pub_Published r"
  using assms by (auto simp: insertBundle_def split: prod.splits)

text \<open>
  The tenant's bundles in the order of insertion: versions and epochs count from 1, and each bundle
  carries the digest of the document before it.
\<close>

definition policyChain :: "prims \<Rightarrow> policy_codec \<Rightarrow> uuid \<Rightarrow> db \<Rightarrow> bool" where
  "policyChain P K T s \<longleftrightarrow>
    (let ps = tenantPolicies T s
     in map p_version ps = [1..int (length ps)] \<and> map p_epoch ps = [1..int (length ps)] \<and>
        map p_prev_hash ps = take (length ps) (replicate 32 0 # map (\<lambda>p. sha256 P (jsonb_text K (p_document p))) ps))"

lemma upto_snoc: "[1..int n + 1] = [1..int n] @ [int n + 1]"
  using upto_rec2 [of 1 "int n + 1"] by simp

lemma find_last_version:
  assumes "map p_version (tenantPolicies T s) = [1..int (length (tenantPolicies T s))]" "tenantPolicies T s \<noteq> []"
  shows "find (\<lambda>p. p_tenant p = T \<and> p_version p = int (length (tenantPolicies T s))) (policies s)
       = Some (last (tenantPolicies T s))"
proof -
  let ?ps = "tenantPolicies T s"
  let ?n = "int (length ?ps)"
  have f: "find (\<lambda>p. p_tenant p = T \<and> p_version p = v) xs = find (\<lambda>p. p_version p = v) (filter (\<lambda>p. p_tenant p = T) xs)" for v xs
    by (induction xs) auto
  obtain qs q where ps: "?ps = qs @ [q]" using assms(2) by (cases ?ps rule: rev_cases) auto
  have "map p_version qs @ [p_version q] = [1..int (length qs)] @ [int (length qs) + 1]"
    using assms(1) upto_snoc [of "length qs"] by (simp add: ps add.commute)
  then have q: "map p_version qs = [1..int (length qs)]" "p_version q = ?n" by (simp_all add: ps)
  have "find (\<lambda>p. p_version p = ?n) qs = None"
  proof (rule ccontr)
    assume "find (\<lambda>p. p_version p = ?n) qs \<noteq> None"
    then obtain x where "find (\<lambda>p. p_version p = ?n) qs = Some x" by blast
    then have "?n \<in> set (map p_version qs)" using find_Some_set [of "\<lambda>p. p_version p = ?n" qs x] by force
    then show False unfolding q(1) by (simp add: ps)
  qed
  then show ?thesis using q(2) f [of ?n "policies s"] by (simp add: tenantPolicies_def [symmetric] ps find_append)
qed

lemma take_snoc_shift: "take (Suc (length xs)) (a # map f (xs @ [y])) = take (length xs) (a # map f xs) @ [last (a # map f xs)]"
  by (cases xs rule: rev_cases) simp_all

lemma preparePolicy_next:
  assumes "preparePolicy P K env signer i s = Inr (b, ph)" "policyChain P K (pub_TenantID i) s"
    and "int (length (tenantPolicies (pub_TenantID i) s)) + 1 < 2 ^ 63"
  shows "p_tenant b = pub_TenantID i" "p_version b = int (length (tenantPolicies (pub_TenantID i) s)) + 1"
    "p_epoch b = p_version b" "Some (p_document b) = marshal_Doc K (pub_Document i)"
    "ph = None \<or> ph = Some (last (replicate 32 0 # map (\<lambda>p. sha256 P (jsonb_text K (p_document p))) (tenantPolicies (pub_TenantID i) s)))"
proof -
  let ?ps = "tenantPolicies (pub_TenantID i) s"
  have m: "maxOr 0 (map p_version ?ps) = int (length ?ps)" "maxOr 0 (map p_epoch ?ps) = int (length ?ps)"
    using assms(2) by (simp_all add: policyChain_def maxOr_upto Let_def)
  have w: "wrap64 (int (length ?ps) + 1) = int (length ?ps) + 1"
    using assms(3) by (intro wrap64_id) (simp add: inInt64_def)
  show "p_tenant b = pub_TenantID i" "p_version b = int (length ?ps) + 1" "p_epoch b = p_version b"
    "Some (p_document b) = marshal_Doc K (pub_Document i)"
    using assms(1) m w by (auto simp: preparePolicy_def Let_def)
  have ph: "ph = previousHash P K env (pub_TenantID i) (int (length ?ps)) s"
    using assms(1) m by (auto simp: preparePolicy_def Let_def)
  show "ph = None \<or> ph = Some (last (replicate 32 0 # map (\<lambda>p. sha256 P (jsonb_text K (p_document p))) ?ps))"
  proof (cases "?ps = []")
    case True
    then show ?thesis by (simp add: ph previousHash_def)
  next
    case False
    then show ?thesis using find_last_version [of "pub_TenantID i" s] assms(2)
      by (auto simp: ph previousHash_def policyChain_def last_map Let_def)
  qed
qed

text \<open>
  C38: One publication at a time, from a tenant whose bundles are numbered without a gap and chained by the
  digest of the previous document, on a driver that passes a nil slice as NULL: a publication that
  succeeded, not a dry run, adds exactly one bundle, whose version is the next number, which carries
  the digest of the previous document (zeros for the first) and expires five minutes after it was
  issued, and the document passed the coverage check. All other rows stay. The digest is that of the
  previous document alone, not of the whole previous bundle.
\<close>

theorem PublishPolicy_extends_chain:
  assumes "PublishPolicy P G K env signer i s = (Inr r, s')" and "pub_Published r" and "\<not> pub_DryRun i"
    and "policyChain P K (pub_TenantID i) s" and "nil_is_null G"
    and "int (length (tenantPolicies (pub_TenantID i) s)) + 1 < 2 ^ 63"
  shows "\<exists>b. policies s' = policies s @ [b] \<and> p_tenant b = pub_TenantID i \<and>
           p_version b = int (length (tenantPolicies (pub_TenantID i) s)) + 1 \<and> pub_Version r = p_version b \<and>
           pub_Epoch r = p_epoch b \<and> p_expires_at b = p_not_before b + 5 * minute \<and>
           policyChain P K (pub_TenantID i) s' \<and>
           CheckCoverage env (pub_TenantID i) (pub_Document i) s = Inr \<lparr>cov_Passed = True, cov_Uncovered = [], cov_Warnings = []\<rparr>"
proof -
  let ?T = "pub_TenantID i" and ?f = "\<lambda>p. sha256 P (jsonb_text K (p_document p))"
  let ?ps = "tenantPolicies ?T s"
  obtain c b ph where c: "CheckCoverage env ?T (pub_Document i) s = Inr c" "cov_Passed c"
    and b: "preparePolicy P K env signer i s = Inr (b, ph)" and ins: "insertBundle G env b ph c s = (Inr r, s')"
    using assms(1-3) by (auto simp: PublishPolicy_def split: sum.splits if_splits)
  note n = preparePolicy_next [OF b assms(4,6)]
  have v: "\<not> list_ex (\<lambda>p. p_tenant p = p_tenant b \<and> p_version p = p_version b) (policies s)"
  proof
    assume "list_ex (\<lambda>p. p_tenant p = p_tenant b \<and> p_version p = p_version b) (policies s)"
    then obtain x where "x \<in> set ?ps" "p_version x = p_version b" by (auto simp: list_ex_iff tenantPolicies_def n(1))
    then have "p_version b \<in> set (map p_version ?ps)" using imageI [of x "set ?ps" p_version] by simp
    moreover have "map p_version ?ps = [1..int (length ?ps)]" using assms(4) by (simp add: policyChain_def Let_def)
    ultimately show False using n(2) by (simp del: set_map)
  qed
  obtain d h where d: "jsonb_in G (p_document b) = Some d" and h: "ph = Some h"
    and s': "s' = s\<lparr>policies := policies s @ [b\<lparr>p_document := d, p_prev_hash := h\<rparr>]\<rparr>"
    using insertBundle_Inr [OF ins] v assms(5) by (auto simp: insert_policy_def sqlBytes_def split: if_splits option.splits)
  let ?b = "b\<lparr>p_document := d, p_prev_hash := h\<rparr>"
  have ps': "tenantPolicies ?T s' = ?ps @ [?b]" by (simp add: s' tenantPolicies_def n(1))
  have h': "h = last (replicate 32 0 # map ?f ?ps)" using n(5) h by simp
  have "policyChain P K ?T s'"
    using assms(4) n(2,3) h' take_snoc_shift [of ?ps "replicate 32 0" ?f ?b] upto_snoc [of "length ?ps"]
    by (simp add: policyChain_def ps' Let_def add.commute)
  moreover have "p_expires_at b = p_not_before b + 5 * minute" using b by (auto simp: preparePolicy_def Let_def)
  moreover have "c = \<lparr>cov_Passed = True, cov_Uncovered = [], cov_Warnings = []\<rparr>" using c by (auto simp: CheckCoverage_def Let_def)
  moreover have "pub_Version r = p_version b" "pub_Epoch r = p_epoch b"
    using insertBundle_Inr [OF ins] by simp_all
  ultimately show ?thesis using n c(1) s' by (intro exI [of _ ?b]) simp
qed

text \<open>
  Publication is not atomic: of two publications for a tenant that read the versions before either
  inserted, the second is reported as published with the same version, but its bundle is dropped
  by \<open>ON CONFLICT DO NOTHING\<close> and the database keeps only the first.
\<close>

theorem concurrent_publication_lost:
  assumes "preparePolicy P K env signer i s = Inr (b, ph)" and "preparePolicy P K env' signer' j s = Inr (b', ph')"
    and "pub_TenantID j = pub_TenantID i"
    and "insertBundle G env b ph c s = (Inr r, s1)" and "insertBundle G env' b' ph' c' s1 = (Inr r', s2)"
  shows "s2 = s1 \<and> pub_Published r' \<and> pub_Version r' = pub_Version r \<and> pub_Bundle r' = Some b'"
proof -
  have e: "p_tenant b' = p_tenant b" "p_version b' = p_version b"
    using assms(1-3) by (auto simp: preparePolicy_def Let_def)
  have "insert_policy G b ph s = Inr ((), s1)" and r: "pub_Version r = p_version b"
    using insertBundle_Inr [OF assms(4)] by simp_all
  then have "list_ex (\<lambda>p. p_tenant p = p_tenant b \<and> p_version p = p_version b) (policies s1)"
    by (cases "list_ex (\<lambda>p. p_tenant p = p_tenant b \<and> p_version p = p_version b) (policies s)")
       (auto simp: insert_policy_def)
  then show ?thesis using insertBundle_Inr [OF assms(5)] e r by (auto simp: insert_policy_def)
qed

text \<open>
  The coverage check passes exactly if every resource of the tenant has, for each protocol of its
  deployment mode, a rule that names its service or port or has no resource selector.
\<close>

theorem CheckCoverage_iff:
  "CheckCoverage env T doc s = Inr \<lparr>cov_Passed = True, cov_Uncovered = [], cov_Warnings = []\<rparr> \<longleftrightarrow>
     \<not> fault env ''coverage'' \<and>
     (\<forall>r \<in> set (resources s). r_tenant r = T \<longrightarrow>
        (\<forall>pc \<in> set (relevantProtocols (r_deployment_mode r)).
           \<exists>rule \<in> set (doc_Rules doc). coverageRuleMatches rule (r_service_id r) (r_port r) pc (r_deployment_mode r)))"
  by (auto simp: CheckCoverage_def resourceGaps_def list_ex_iff Let_def filter_empty_conv)


section \<open>Concrete policies\<close>

definition demo_rule :: "string \<Rightarrow> EnforcementDecision \<Rightarrow> PolicyRule" where
  "demo_rule rid eff =
     \<lparr>rule_ID = rid, rule_Priority = 10, rule_Effect = eff, rule_Description = [], rule_Subjects = [], rule_Resources = [],
      rule_Protocols = [], rule_AllowedScopes = [], rule_RequireOnlineCheck = False, rule_MaxDurationSeconds = None,
      rule_VerificationFrequency = []\<rparr>"

definition demo_selector :: ResourceSelector where
  "demo_selector = \<lparr>sel_ResourceIDs = [], sel_Tags = [], sel_Services = [], sel_Ports = [], sel_DeploymentModes = [],
     sel_Sensitivity = []\<rparr>"

definition demo_principal :: Principal where
  "demo_principal = \<lparr>pr_TenantID = 1, pr_TailnetID = [], pr_SrcNodeID = ''n'', pr_SrcNodeKeyEpoch = 1, pr_Kind = ''HUMAN'',
     pr_User = None, pr_NodeState = ''OK'', pr_PostureVersion = []\<rparr>"

text \<open>
  The coverage check and the evaluation disagree. A rule that names the resource's service and, in the
  same selector, other resource identifiers counts as covering it although it never matches; a
  selector without any field matches every resource but covers none.
\<close>

theorem coverage_disagrees_with_matching:
  "(\<exists>rule res. coverageRuleMatches rule (res_ServiceID res) (res_Port res) pc mode \<and> (\<forall>pr sc. \<not> ruleMatches rule pr res pc sc)) \<and>
   (\<exists>rule. (\<forall>res pr sc. ruleMatches rule pr res pc sc) \<and> (\<forall>svc port. \<not> coverageRuleMatches rule svc port pc mode))"
proof
  let ?r = "(demo_rule ''a'' DecisionRequireStepUp)\<lparr>rule_Resources := [demo_selector\<lparr>sel_ResourceIDs := [''x''], sel_Services := [''svc'']\<rparr>]\<rparr>"
  let ?res = "\<lparr>res_TenantID = 1, res_ProtectedNodeID = ''n'', res_ServiceID = ''svc'', res_Port = 22, res_Transport = ''TCP'',
     res_DeploymentMode = ''OPENSSH''\<rparr>"
  show "\<exists>rule res. coverageRuleMatches rule (res_ServiceID res) (res_Port res) pc mode \<and> (\<forall>pr sc. \<not> ruleMatches rule pr res pc sc)"
    by (intro exI [of _ ?r] exI [of _ ?res])
       (simp add: coverageRuleMatches_def ruleMatches_def resourceMatches_def demo_rule_def demo_selector_def)
  show "\<exists>rule. (\<forall>res pr sc. ruleMatches rule pr res pc sc) \<and> (\<forall>svc port. \<not> coverageRuleMatches rule svc port pc mode)"
    by (intro exI [of _ "(demo_rule ''a'' DecisionRequireStepUp)\<lparr>rule_Resources := [demo_selector]\<rparr>"])
       (simp add: coverageRuleMatches_def ruleMatches_def resourceMatches_def demo_rule_def demo_selector_def)
qed

text \<open>
  Rules that share an identifier escape the conflict check: with two matching rules of equal priority
  and equal identifier but opposite effects, a document can be allowed or denied depending only on
  how the sort orders equal priorities.
\<close>

theorem duplicate_rule_ids_order_dependent:
  "\<exists>rules srt1 srt2 pr res. rule_sorter srt1 \<and> rule_sorter srt2 \<and>
     er_Decision (evaluateRules b pr res pc sc (srt1 rules) (srt1 rules)) = DecisionAllowWithoutStepUp \<and>
     er_Decision (evaluateRules b pr res pc sc (srt2 rules) (srt2 rules)) = DecisionEnforceDeny"
proof -
  let ?rules = "[demo_rule ''a'' DecisionAllowWithoutStepUp, demo_rule ''a'' DecisionEnforceDeny]"
  let ?srt2 = "\<lambda>rules. sortByPriority (rev rules)"
  have 2: "rule_sorter ?srt2"
  proof
    show "mset (?srt2 rules) = mset rules" for rules using stable.same_rules [of "rev rules"] by simp
    show "sorted_wrt (\<lambda>a b. rule_Priority b \<le> rule_Priority a) (?srt2 rules)" for rules by (rule stable.descending)
  qed
  have m: "ruleMatches (demo_rule i e) pr res pc sc" for i e pr res
    by (simp add: ruleMatches_def demo_rule_def)
  have "sortByPriority ?rules = ?rules" "sortByPriority (rev ?rules) = rev ?rules"
    by (simp_all add: sortByPriority_def demo_rule_def)
  then have "er_Decision (evaluateRules b pr res pc sc (sortByPriority ?rules) (sortByPriority ?rules)) = DecisionAllowWithoutStepUp \<and>
     er_Decision (evaluateRules b pr res pc sc (?srt2 ?rules) (?srt2 ?rules)) = DecisionEnforceDeny" for pr res
    using m by (simp add: hasConflictingTie_def) (simp add: demo_rule_def)
  then show ?thesis using 2 stable.rule_sorter_axioms by blast
qed

definition demo_doc :: PolicyDocument where
  "demo_doc = \<lparr>doc_Version = 1, doc_Rules = [demo_rule ''a'' DecisionRequireStepUp], doc_InventorySnapshotID = []\<rparr>"

definition demo_policy_codec :: policy_codec where
  "demo_policy_codec = \<lparr>marshal_Doc = (\<lambda>d. Some [1]), unmarshal_Doc = (\<lambda>b. Some demo_doc), jsonb_text = (\<lambda>b. b)\<rparr>"

definition demo_bundle :: policy_row where
  "demo_bundle = \<lparr>p_tenant = 1, p_version = 1, p_epoch = 1, p_document = [1], p_prev_hash = replicate 32 0, p_signature = [2],
     p_kid = ''k'', p_not_before = 0, p_expires_at = 5 * minute, p_min_daemon_version = ''2.1.0'', p_issued_by = Some 2\<rparr>"

definition demo_policy_db :: db where
  "demo_policy_db = emptyDb\<lparr>tenants := [1], users := [\<lparr>u_tenant = 1, u_id = 2, u_issuer = ''iss'', u_subject = ''sub''\<rparr>],
     policies := [demo_bundle],
     resources := [\<lparr>r_tenant = 1, r_id = 5, r_protected_node_id = 4, r_service_id = ''svc'', r_port = 22,
        r_transport = ''TCP'', r_deployment_mode = ''OPENSSH'', r_sensitivity = ''HIGH'', r_display_label = None\<rparr>]\<rparr>"

definition demo_resource_id :: ResourceID where
  "demo_resource_id = \<lparr>res_TenantID = 1, res_ProtectedNodeID = uuid_String demo_prims 4, res_ServiceID = ''svc'', res_Port = 22,
     res_Transport = ''TCP'', res_DeploymentMode = ''OPENSSH''\<rparr>"

lemma demo_protected: "isResourceProtected demo_prims (demo_svc 0) 1 demo_resource_id demo_policy_db = Inr True"
  using demo_uuid_text_ok unfolding uuid_text_ok_def
  by (simp add: isResourceProtected_def demo_resource_id_def demo_policy_db_def emptyDb_def del: demo_prims_sel)

lemma demo_active: "loadActiveBundle (demo_svc 0) 1 demo_policy_db = Inr demo_bundle"
  by (simp add: loadActiveBundle_def demo_policy_db_def demo_bundle_def emptyDb_def minute_def second_def)

theorem Evaluate_decides_by_priority_witness:
  "\<exists>r. Evaluate demo_prims demo_policy_codec sortByPriority (demo_svc 0) 1 demo_principal demo_resource_id ''SSH'' ScopeConnection
         demo_policy_db = Inr r \<and> er_Decision r = DecisionRequireStepUp"
proof -
  have "clock (demo_svc 0) ''evaluate'' \<le> p_expires_at demo_bundle" "distinct (map rule_ID (doc_Rules demo_doc))"
    "unmarshal_Doc demo_policy_codec (p_document demo_bundle) = Some demo_doc"
    by (simp_all add: demo_bundle_def minute_def second_def demo_doc_def demo_policy_codec_def)
  from Evaluate_decides_by_priority [OF stable.rule_sorter_axioms demo_protected demo_active this(1,3,2),
      of demo_principal "''SSH''" ScopeConnection]
  show ?thesis by (simp add: decisionOf_def topRules_def demo_doc_def ruleMatches_def demo_rule_def)
qed

theorem Evaluate_fails_closed_witness:
  "\<exists>b. b \<in> set (policies demo_policy_db) \<and> p_version b = 1"
proof -
  have "clock (demo_svc 0) ''evaluate'' \<le> p_expires_at demo_bundle" by (simp add: demo_bundle_def minute_def second_def)
  then obtain r where r: "Evaluate demo_prims demo_policy_codec sortByPriority (demo_svc 0) 1 demo_principal demo_resource_id ''SSH''
      ScopeConnection demo_policy_db = Inr r" "er_Decision r = DecisionRequireStepUp" "er_PolicyVersion r = 1"
    using demo_protected demo_active
    by (simp add: Evaluate_def demo_policy_codec_def demo_doc_def sortByPriority_def ruleMatches_def hasConflictingTie_def
        demo_rule_def demo_bundle_def)
  from Evaluate_fails_closed [OF stable.rule_sorter_axioms r(1)] r(2,3) show ?thesis by auto
qed

definition demo_publish :: PublishPolicyInput where
  "demo_publish = \<lparr>pub_TenantID = 1, pub_Document = demo_doc, pub_DryRun = False, pub_IssuedBy = 2\<rparr>"

lemmas demo_policy_defs = demo_publish_def demo_policy_db_def demo_bundle_def demo_doc_def demo_policy_codec_def emptyDb_def
  demo_rule_def

theorem PublishPolicy_extends_chain_witness:
  "\<exists>s'. policyChain demo_prims demo_policy_codec 1 s' \<and> length (policies s') = 2"
proof -
  obtain r s' where run: "PublishPolicy demo_prims demo_pg demo_policy_codec (demo_svc 0) (\<lambda>b. Some ([3], ''k'')) demo_publish demo_policy_db
      = (Inr r, s')" and pub: "pub_Published r"
    by (simp add: PublishPolicy_def CheckCoverage_def resourceGaps_def relevantProtocols_def coverageRuleMatches_def
        preparePolicy_def previousHash_def tenantPolicies_def maxOr_def insertBundle_def autocommit_def insert_policy_def
        sqlBytes_def wrap64_def Let_def demo_policy_defs)
  have c: "policyChain demo_prims demo_policy_codec (pub_TenantID demo_publish) demo_policy_db"
    "int (length (tenantPolicies (pub_TenantID demo_publish) demo_policy_db)) + 1 < 2 ^ 63" "\<not> pub_DryRun demo_publish"
    by (simp_all add: policyChain_def tenantPolicies_def demo_policy_defs)
  from PublishPolicy_extends_chain [OF run pub c(3,1) _ c(2)] show ?thesis
    by (auto simp: demo_policy_defs)
qed

theorem concurrent_publication_lost_witness:
  "\<exists>b ph r r' s1. insertBundle demo_pg (demo_svc 0) b ph \<lparr>cov_Passed = True, cov_Uncovered = [], cov_Warnings = []\<rparr> demo_policy_db = (Inr r, s1) \<and>
     insertBundle demo_pg (demo_svc 0) b ph \<lparr>cov_Passed = True, cov_Uncovered = [], cov_Warnings = []\<rparr> s1 = (Inr r', s1)"
proof -
  let ?c = "\<lparr>cov_Passed = True, cov_Uncovered = [], cov_Warnings = []\<rparr>"
  obtain b ph where b: "preparePolicy demo_prims demo_policy_codec (demo_svc 0) (\<lambda>b. Some ([3], ''k'')) demo_publish demo_policy_db = Inr (b, ph)"
    and i: "\<exists>r s1. insertBundle demo_pg (demo_svc 0) b ph ?c demo_policy_db = (Inr r, s1)"
    by (simp add: preparePolicy_def previousHash_def tenantPolicies_def maxOr_def insertBundle_def autocommit_def insert_policy_def
        sqlBytes_def wrap64_def Let_def demo_policy_defs)
  then obtain r s1 where one: "insertBundle demo_pg (demo_svc 0) b ph ?c demo_policy_db = (Inr r, s1)" by blast
  then have i: "insert_policy demo_pg b ph demo_policy_db = Inr ((), s1)" by (simp add: insertBundle_Inr)
  then have "list_ex (\<lambda>p. p_tenant p = p_tenant b \<and> p_version p = p_version b) (policies s1)"
    by (cases "list_ex (\<lambda>p. p_tenant p = p_tenant b \<and> p_version p = p_version b) (policies demo_policy_db)")
       (auto simp: insert_policy_def)
  moreover have "\<exists>x. sqlBytes demo_pg ph = Some x"
    using i by (auto simp: insert_policy_def)
  ultimately obtain r' s2 where two: "insertBundle demo_pg (demo_svc 0) b ph ?c s1 = (Inr r', s2)"
    by (auto simp: insertBundle_def autocommit_def insert_policy_def)
  from concurrent_publication_lost [OF b b refl one two] one two show ?thesis by blast
qed

end
