(* ===== verification/Rbac.thy ===== *)
theory Rbac
  imports Database
begin

text \<open>
  \<open>service/internal/auth/rbac.go\<close>: roles, permissions and the authorizer with its role cache. The
  table \<open>user_roles\<close> is in no migration of the repository, so it is an optional table of the model:
  \<open>None\<close> where it does not exist, and every statement on it fails. The other tables that ownership
  checks read are those of the database. A call's \<open>auth_env\<close> gives the clock readings, the statements
  that fail, and where the iteration over a result breaks off.
\<close>

section \<open>Roles and permissions\<close>

type_synonym Role = string
type_synonym Permission = string

abbreviation RoleUser :: Role where "RoleUser \<equiv> ''user''"
abbreviation RoleDeviceAdmin :: Role where "RoleDeviceAdmin \<equiv> ''device_admin''"
abbreviation RolePolicyAuthor :: Role where "RolePolicyAuthor \<equiv> ''policy_author''"
abbreviation RolePolicyApprover :: Role where "RolePolicyApprover \<equiv> ''policy_approver''"
abbreviation RoleAuditor :: Role where "RoleAuditor \<equiv> ''auditor''"
abbreviation RoleSecurityAdmin :: Role where "RoleSecurityAdmin \<equiv> ''security_admin''"
abbreviation RoleOperator :: Role where "RoleOperator \<equiv> ''operator''"

abbreviation PermTenantRead :: Permission where "PermTenantRead \<equiv> ''tenant:read''"
abbreviation PermTenantWrite :: Permission where "PermTenantWrite \<equiv> ''tenant:write''"
abbreviation PermUserRead :: Permission where "PermUserRead \<equiv> ''user:read''"
abbreviation PermUserWrite :: Permission where "PermUserWrite \<equiv> ''user:write''"
abbreviation PermDeviceRead :: Permission where "PermDeviceRead \<equiv> ''device:read''"
abbreviation PermDeviceWrite :: Permission where "PermDeviceWrite \<equiv> ''device:write''"
abbreviation PermDeviceRevoke :: Permission where "PermDeviceRevoke \<equiv> ''device:revoke''"
abbreviation PermDeviceEnroll :: Permission where "PermDeviceEnroll \<equiv> ''device:enroll''"
abbreviation PermNodeRead :: Permission where "PermNodeRead \<equiv> ''node:read''"
abbreviation PermNodeRegister :: Permission where "PermNodeRegister \<equiv> ''node:register''"
abbreviation PermNodeRevoke :: Permission where "PermNodeRevoke \<equiv> ''node:revoke''"
abbreviation PermResourceRead :: Permission where "PermResourceRead \<equiv> ''resource:read''"
abbreviation PermResourceWrite :: Permission where "PermResourceWrite \<equiv> ''resource:write''"
abbreviation PermPolicyRead :: Permission where "PermPolicyRead \<equiv> ''policy:read''"
abbreviation PermPolicyWrite :: Permission where "PermPolicyWrite \<equiv> ''policy:write''"
abbreviation PermPolicyPublish :: Permission where "PermPolicyPublish \<equiv> ''policy:publish''"
abbreviation PermApprovalCreate :: Permission where "PermApprovalCreate \<equiv> ''approval:create''"
abbreviation PermApprovalRespond :: Permission where "PermApprovalRespond \<equiv> ''approval:respond''"
abbreviation PermAuditRead :: Permission where "PermAuditRead \<equiv> ''audit:read''"
abbreviation PermAuditExport :: Permission where "PermAuditExport \<equiv> ''audit:export''"
abbreviation PermBreakGlass :: Permission where "PermBreakGlass \<equiv> ''breakglass:execute''"
abbreviation PermSecuritySettings :: Permission where "PermSecuritySettings \<equiv> ''security:settings''"
abbreviation PermKeyRotate :: Permission where "PermKeyRotate \<equiv> ''key:rotate''"

definition rolePermissions :: "Role \<rightharpoonup> Permission list" where
  "rolePermissions = [
     RoleUser \<mapsto> [PermDeviceRead, PermDeviceEnroll, PermApprovalRespond],
     RoleDeviceAdmin \<mapsto> [PermDeviceRead, PermDeviceWrite, PermDeviceRevoke, PermDeviceEnroll, PermUserRead],
     RolePolicyAuthor \<mapsto> [PermPolicyRead, PermPolicyWrite, PermResourceRead],
     RolePolicyApprover \<mapsto> [PermPolicyRead, PermPolicyPublish, PermResourceRead],
     RoleAuditor \<mapsto> [PermAuditRead, PermAuditExport, PermTenantRead, PermUserRead, PermDeviceRead, PermPolicyRead],
     RoleSecurityAdmin \<mapsto> [PermSecuritySettings, PermKeyRotate, PermDeviceRevoke, PermNodeRevoke, PermBreakGlass, PermAuditRead],
     RoleOperator \<mapsto> [PermNodeRead, PermNodeRegister, PermResourceRead, PermUserRead, PermDeviceRead, PermAuditRead]]"

definition roleHasPermission :: "Role \<Rightarrow> Permission \<Rightarrow> bool" where
  "roleHasPermission role perm = (case rolePermissions role of None \<Rightarrow> False | Some perms \<Rightarrow> list_ex (\<lambda>p. p = perm) perms)"

definition hasAdminRole :: "Role list \<Rightarrow> bool" where
  "hasAdminRole roles = list_ex (\<lambda>r. r = RoleSecurityAdmin \<or> r = RoleOperator \<or> r = RoleDeviceAdmin) roles"


section \<open>State\<close>

record roleCacheEntry =
  rc_roles :: "Role list"
  rc_expires :: gotime

record role_row =
  ur_tenant :: uuid
  ur_user :: uuid
  ur_role :: Role
  ur_assigned_by :: uuid

text \<open>An authorizer with its database: the cache by tenant and user, and the table.\<close>

record Authorizer =
  au_userRoles :: "uuid \<times> uuid \<rightharpoonup> roleCacheEntry"
  au_table :: "role_row list option"
  au_db :: db

definition NewAuthorizer :: "role_row list option \<Rightarrow> db \<Rightarrow> Authorizer" where
  "NewAuthorizer tab d = \<lparr>au_userRoles = Map.empty, au_table = tab, au_db = d\<rparr>"

definition cacheTTL :: duration where
  "cacheTTL = 30 * second"

text \<open>
  \<open>ae_lookup\<close> and \<open>ae_store\<close> are the clock at the cache's check and at its update; \<open>ae_cut\<close> the number of
  rows after which the result breaks off, if it does; \<open>ae_applied\<close> tells whether a write that reports
  a failure was applied all the same.
\<close>

record auth_env =
  ae_lookup :: gotime
  ae_store :: gotime
  ae_queryFails :: bool
  ae_cut :: "nat option"
  ae_execFails :: bool
  ae_applied :: bool

datatype auth_error =
    RolesUnavailable
  | RowsBroken
  | NoRoles
  | PermissionDenied Permission "Role list"
  | OwnershipViolation uuid uuid
  | SameAuthorAndApprover
  | NoValidRoles uuid
  | CrossTenant uuid uuid
  | ObjectNotFound string uuid
  | UnknownObjectType string
  | AssignDenied auth_error
  | RemoveDenied auth_error
  | InsertRoleFailed
  | DeleteRoleFailed


section \<open>Role resolution and permission checks\<close>

definition tableRoles :: "uuid \<Rightarrow> uuid \<Rightarrow> role_row list \<Rightarrow> Role list" where
  "tableRoles T u tab = map ur_role (filter (\<lambda>r. ur_tenant r = T \<and> ur_user r = u) tab)"

text \<open>A result that breaks off is cached with the rows read so far, although the call fails.\<close>

definition queryRoles :: "auth_env \<Rightarrow> uuid \<Rightarrow> uuid \<Rightarrow> Authorizer \<Rightarrow> (auth_error + Role list) \<times> Authorizer" where
  "queryRoles env userID tenantID a =
    (case au_table a of
       None \<Rightarrow> (Inl RolesUnavailable, a)
     | Some tab \<Rightarrow>
        if ae_queryFails env then (Inl RolesUnavailable, a)
        else
         (let found = tableRoles tenantID userID tab;
              roles = (case ae_cut env of None \<Rightarrow> found | Some n \<Rightarrow> take n found);
              a' = a\<lparr>au_userRoles := (au_userRoles a)((tenantID, userID) \<mapsto>
                      \<lparr>rc_roles = roles, rc_expires = ae_store env + cacheTTL\<rparr>)\<rparr>
          in (if ae_cut env = None then Inr roles else Inl RowsBroken, a')))"

definition getRoles :: "auth_env \<Rightarrow> uuid \<Rightarrow> uuid \<Rightarrow> Authorizer \<Rightarrow> (auth_error + Role list) \<times> Authorizer" where
  "getRoles env userID tenantID a =
    (case au_userRoles a (tenantID, userID) of
       Some entry \<Rightarrow>
         if ae_lookup env < rc_expires entry then (Inr (rc_roles entry), a) else queryRoles env userID tenantID a
     | None \<Rightarrow> queryRoles env userID tenantID a)"

text \<open>What \<open>Check\<close> decides once the roles are known.\<close>

definition authorize :: "uuid \<Rightarrow> Permission \<Rightarrow> uuid option \<Rightarrow> Role list \<Rightarrow> auth_error + unit" where
  "authorize userID perm resourceOwner roles =
     reject (roles = []) NoRoles (
     reject (\<not> list_ex (\<lambda>role. roleHasPermission role perm) roles) (PermissionDenied perm roles) (
     case resourceOwner of
       Some owner \<Rightarrow> reject (owner \<noteq> userID \<and> \<not> hasAdminRole roles) (OwnershipViolation userID owner) (Inr ())
     | None \<Rightarrow> Inr ()))"

definition Authorizer_Check ::
  "auth_env \<Rightarrow> uuid \<Rightarrow> uuid \<Rightarrow> Permission \<Rightarrow> uuid option \<Rightarrow> Authorizer \<Rightarrow> (auth_error + unit) \<times> Authorizer" where
  "Authorizer_Check env userID tenantID perm resourceOwner a =
    (case getRoles env userID tenantID a of
       (Inl e, a') \<Rightarrow> (Inl e, a')
     | (Inr roles, a') \<Rightarrow> (authorize userID perm resourceOwner roles, a'))"

definition CheckSeparationOfDuties ::
  "auth_env \<Rightarrow> auth_env \<Rightarrow> uuid \<Rightarrow> uuid \<Rightarrow> uuid \<Rightarrow> Authorizer \<Rightarrow> (auth_error + unit) \<times> Authorizer" where
  "CheckSeparationOfDuties env1 env2 authorID approverID tenantID a =
    (if authorID = approverID then (Inl SameAuthorAndApprover, a)
     else case getRoles env1 authorID tenantID a of
        (Inl e, a1) \<Rightarrow> (Inl (NoValidRoles authorID), a1)
      | (Inr roles, a1) \<Rightarrow>
          if roles = [] then (Inl (NoValidRoles authorID), a1)
          else case getRoles env2 approverID tenantID a1 of
             (Inl e, a2) \<Rightarrow> (Inl (NoValidRoles approverID), a2)
           | (Inr roles, a2) \<Rightarrow>
               if roles = [] then (Inl (NoValidRoles approverID), a2) else (Inr (), a2))"

definition CheckPolicyApprovalSoD ::
  "auth_env \<Rightarrow> auth_env \<Rightarrow> uuid \<Rightarrow> uuid \<Rightarrow> uuid \<Rightarrow> Authorizer \<Rightarrow> (auth_error + unit) \<times> Authorizer" where
  "CheckPolicyApprovalSoD env1 env2 authorID approverID tenantID a =
     CheckSeparationOfDuties env1 env2 authorID approverID tenantID a"

definition CheckTenantScoping :: "uuid \<Rightarrow> uuid \<Rightarrow> uuid \<Rightarrow> auth_error + unit" where
  "CheckTenantScoping userID requestTenantID userTenantID =
     reject (requestTenantID \<noteq> userTenantID) (CrossTenant userID requestTenantID) (Inr ())"

text \<open>
  The tenant of the object found, by its kind. The table \<open>policies\<close> has no column \<open>id\<close>, so the query
  for a policy is always rejected.
\<close>

definition objectTenant :: "string \<Rightarrow> uuid \<Rightarrow> uuid \<Rightarrow> db \<Rightarrow> auth_error + uuid" where
  "objectTenant objectType tenantID objectID s =
    (if objectType = ''device'' then
       need (find (\<lambda>d. dv_tenant d = tenantID \<and> dv_id d = objectID) (devices s)) (ObjectNotFound objectType objectID)
         (\<lambda>d. Inr (dv_tenant d))
     else if objectType = ''node'' then
       need (find (\<lambda>n. n_tenant n = tenantID \<and> n_id n = objectID) (nodes s)) (ObjectNotFound objectType objectID)
         (\<lambda>n. Inr (n_tenant n))
     else if objectType = ''resource'' then
       need (find (\<lambda>r. r_tenant r = tenantID \<and> r_id r = objectID) (resources s)) (ObjectNotFound objectType objectID)
         (\<lambda>r. Inr (r_tenant r))
     else if objectType = ''policy'' then Inl (ObjectNotFound objectType objectID)
     else Inl (UnknownObjectType objectType))"

definition CheckObjectOwnership ::
  "auth_env \<Rightarrow> uuid \<Rightarrow> uuid \<Rightarrow> string \<Rightarrow> uuid \<Rightarrow> Authorizer \<Rightarrow> auth_error + unit" where
  "CheckObjectOwnership env userID tenantID objectType objectID a =
     reject (ae_queryFails env \<and> objectType \<in> {''device'', ''node'', ''resource'', ''policy''})
       (ObjectNotFound objectType objectID) (
     attempt (objectTenant objectType tenantID objectID (au_db a)) (\<lambda>e. e) (\<lambda>objTenantID.
     CheckTenantScoping userID tenantID objTenantID))"


section \<open>Role management\<close>

text \<open>\<open>INSERT ... ON CONFLICT DO NOTHING\<close> and \<open>DELETE\<close>.\<close>

definition insertRole :: "role_row \<Rightarrow> role_row list \<Rightarrow> role_row list" where
  "insertRole row tab =
     (if list_ex (\<lambda>r. ur_tenant r = ur_tenant row \<and> ur_user r = ur_user row \<and> ur_role r = ur_role row) tab
      then tab else tab @ [row])"

definition deleteRole :: "uuid \<Rightarrow> uuid \<Rightarrow> Role \<Rightarrow> role_row list \<Rightarrow> role_row list" where
  "deleteRole T u role tab = filter (\<lambda>r. \<not> (ur_tenant r = T \<and> ur_user r = u \<and> ur_role r = role)) tab"

text \<open>A write on the table; after a lost reply it may have been applied although it is reported as failed.\<close>

definition execRoles :: "auth_env \<Rightarrow> (role_row list \<Rightarrow> role_row list) \<Rightarrow> Authorizer \<Rightarrow> bool \<times> Authorizer" where
  "execRoles env f a =
    (case au_table a of
       None \<Rightarrow> (False, a)
     | Some tab \<Rightarrow>
        if ae_execFails env then (False, if ae_applied env then a\<lparr>au_table := Some (f tab)\<rparr> else a)
        else (True, a\<lparr>au_table := Some (f tab)\<rparr>))"

definition forget :: "uuid \<Rightarrow> uuid \<Rightarrow> Authorizer \<Rightarrow> Authorizer" where
  "forget tenantID userID a = a\<lparr>au_userRoles := (au_userRoles a)((tenantID, userID) := None)\<rparr>"

definition AssignRole ::
  "auth_env \<Rightarrow> uuid \<Rightarrow> uuid \<Rightarrow> uuid \<Rightarrow> Role \<Rightarrow> Authorizer \<Rightarrow> (auth_error + unit) \<times> Authorizer" where
  "AssignRole env tenantID userID assignedBy role a =
    (case Authorizer_Check env assignedBy tenantID PermSecuritySettings None a of
       (Inl e, a1) \<Rightarrow> (Inl (AssignDenied e), a1)
     | (Inr u, a1) \<Rightarrow>
        (case execRoles env (insertRole \<lparr>ur_tenant = tenantID, ur_user = userID, ur_role = role, ur_assigned_by = assignedBy\<rparr>) a1 of
           (False, a2) \<Rightarrow> (Inl InsertRoleFailed, a2)
         | (True, a2) \<Rightarrow> (Inr (), forget tenantID userID a2)))"

definition RemoveRole ::
  "auth_env \<Rightarrow> uuid \<Rightarrow> uuid \<Rightarrow> uuid \<Rightarrow> Role \<Rightarrow> Authorizer \<Rightarrow> (auth_error + unit) \<times> Authorizer" where
  "RemoveRole env tenantID userID removedBy role a =
    (case Authorizer_Check env removedBy tenantID PermSecuritySettings None a of
       (Inl e, a1) \<Rightarrow> (Inl (RemoveDenied e), a1)
     | (Inr u, a1) \<Rightarrow>
        (case execRoles env (deleteRole tenantID userID role) a1 of
           (False, a2) \<Rightarrow> (Inl DeleteRoleFailed, a2)
         | (True, a2) \<Rightarrow> (Inr (), forget tenantID userID a2)))"

section \<open>What the cache may hold\<close>

text \<open>Every cached role of a user is one of the user's rows in the table.\<close>

definition coherent :: "Authorizer \<Rightarrow> bool" where
  "coherent a \<longleftrightarrow>
     (\<forall>T u e. au_userRoles a (T, u) = Some e \<longrightarrow>
        (\<exists>tab. au_table a = Some tab \<and> set (rc_roles e) \<subseteq> set (tableRoles T u tab)))"

text \<open>No security administrator of the tenant, in the table or in the cache.\<close>

definition noSecurityAdmin :: "uuid \<Rightarrow> Authorizer \<Rightarrow> bool" where
  "noSecurityAdmin T a \<longleftrightarrow>
     (\<forall>tab u. au_table a = Some tab \<longrightarrow> RoleSecurityAdmin \<notin> set (tableRoles T u tab)) \<and>
     (\<forall>u e. au_userRoles a (T, u) = Some e \<longrightarrow> RoleSecurityAdmin \<notin> set (rc_roles e))"

lemma set_cut: "set (case c of None \<Rightarrow> xs | Some n \<Rightarrow> take n xs) \<subseteq> set xs"
  by (auto split: option.splits dest: in_set_takeD)

text \<open>One call resolves roles; afterwards the table is the same and only this user's entry may differ.\<close>

lemma getRoles_cases:
  assumes "getRoles env u T a = (r, a')"
  obtains (cached) e where "au_userRoles a (T, u) = Some e" "r = Inr (rc_roles e)" "a' = a"
  | (unavailable) "r = Inl RolesUnavailable" "a' = a"
  | (queried) tab roles x where "au_table a = Some tab" "set roles \<subseteq> set (tableRoles T u tab)"
      "a' = a\<lparr>au_userRoles := (au_userRoles a)((T, u) \<mapsto> \<lparr>rc_roles = roles, rc_expires = x\<rparr>)\<rparr>" "r = Inr roles \<or> r = Inl RowsBroken"
proof -
  have q: thesis if "queryRoles env u T a = (r, a')"
  proof (cases "au_table a")
    case None
    with that show thesis by (intro unavailable) (simp_all add: queryRoles_def)
  next
    case (Some tab)
    show thesis
    proof (cases "ae_queryFails env")
      case True
      with that Some show thesis by (intro unavailable) (simp_all add: queryRoles_def)
    next
      case False
      with that Some show thesis
        by (intro queried [OF Some set_cut [where c = "ae_cut env" and xs = "tableRoles T u tab"]])
          (auto simp: queryRoles_def Let_def split: if_splits)
    qed
  qed
  show thesis
  proof (cases "au_userRoles a (T, u)")
    case None
    with assms q show thesis by (simp add: getRoles_def)
  next
    case (Some e)
    show thesis
    proof (cases "ae_lookup env < rc_expires e")
      case True
      with assms Some show thesis by (intro cached [OF Some]) (simp_all add: getRoles_def)
    next
      case False
      with assms Some q show thesis by (simp add: getRoles_def)
    qed
  qed
qed

lemma coherent_getRoles:
  assumes "coherent a" "getRoles env u T a = (r, a')"
  shows "coherent a'" "au_table a' = au_table a" "au_db a' = au_db a"
    "\<And>roles. r = Inr roles \<Longrightarrow> roles = [] \<or> (\<exists>tab. au_table a = Some tab \<and> set roles \<subseteq> set (tableRoles T u tab))"
proof -
  have "coherent a' \<and> au_table a' = au_table a \<and> au_db a' = au_db a \<and>
      (\<forall>roles. r = Inr roles \<longrightarrow> roles = [] \<or> (\<exists>tab. au_table a = Some tab \<and> set roles \<subseteq> set (tableRoles T u tab)))"
    using assms(2) by (cases rule: getRoles_cases) (use assms(1) in \<open>auto simp: coherent_def\<close>)
  then show "coherent a'" "au_table a' = au_table a" "au_db a' = au_db a"
      "\<And>roles. r = Inr roles \<Longrightarrow> roles = [] \<or> (\<exists>tab. au_table a = Some tab \<and> set roles \<subseteq> set (tableRoles T u tab))"
    by blast+
qed

lemma noSecurityAdmin_getRoles:
  assumes "noSecurityAdmin T a" "getRoles env u U a = (r, a')"
  shows "noSecurityAdmin T a'" "au_table a' = au_table a"
    "\<And>roles. \<lbrakk>U = T; r = Inr roles\<rbrakk> \<Longrightarrow> RoleSecurityAdmin \<notin> set roles"
  using assms(2) by (cases rule: getRoles_cases; use assms(1) in \<open>fastforce simp: noSecurityAdmin_def split: if_splits\<close>)+

lemma Check_cases:
  assumes "Authorizer_Check env u T perm owner a = (r, a')"
  obtains r0 where "getRoles env u T a = (r0, a')"
    and "r = (case r0 of Inl e \<Rightarrow> Inl e | Inr roles \<Rightarrow> authorize u perm owner roles)"
  using assms by (cases "getRoles env u T a") (auto simp: Authorizer_Check_def split: sum.splits)

lemma authorize_Inr:
  "authorize u perm owner roles = Inr () \<longleftrightarrow>
     (\<exists>role \<in> set roles. roleHasPermission role perm) \<and>
     (case owner of None \<Rightarrow> True | Some w \<Rightarrow> w = u \<or> hasAdminRole roles)"
  by (cases owner) (auto simp: authorize_def list_ex_iff)

lemma security_settings_role: "roleHasPermission role PermSecuritySettings \<longleftrightarrow> role = RoleSecurityAdmin"
  by (simp add: roleHasPermission_def rolePermissions_def)


section \<open>Runs of one authorizer\<close>

text \<open>
  The calls of one authorizer, each as a whole. \<open>lost\<close> tells whether a removal whose reply was lost
  may have been applied.
\<close>

inductive auth_step :: "bool \<Rightarrow> Authorizer \<Rightarrow> Authorizer \<Rightarrow> bool" for lost where
  check: "Authorizer_Check env u T perm owner a = (r, a') \<Longrightarrow> auth_step lost a a'"
| separation: "CheckSeparationOfDuties env1 env2 x y T a = (r, a') \<Longrightarrow> auth_step lost a a'"
| assign: "AssignRole env T u actor role a = (r, a') \<Longrightarrow> auth_step lost a a'"
| remove: "RemoveRole env T u actor role a = (r, a') \<Longrightarrow> lost \<or> \<not> ae_execFails env \<or> \<not> ae_applied env \<Longrightarrow> auth_step lost a a'"

lemma SoD_frame:
  assumes "CheckSeparationOfDuties env1 env2 x y T a = (r, a')"
    and "\<And>env u a r a'. I a \<Longrightarrow> getRoles env u T a = (r, a') \<Longrightarrow> I a' \<and> au_table a' = au_table a"
    and "I a"
  shows "I a' \<and> au_table a' = au_table a"
proof (cases "x = y")
  case False
  obtain r1 a1 where g1: "getRoles env1 x T a = (r1, a1)" by fastforce
  obtain r2 a2 where g2: "getRoles env2 y T a1 = (r2, a2)" by fastforce
  have i1: "I a1 \<and> au_table a1 = au_table a" using assms(2) [OF assms(3) g1] .
  have i2: "I a2 \<and> au_table a2 = au_table a1" using assms(2) [OF _ g2] i1 by blast
  have "a' = a1 \<or> a' = a2"
    using assms(1) False g1 g2 by (auto simp: CheckSeparationOfDuties_def split: sum.splits if_splits)
  with i1 i2 show ?thesis by auto
qed (use assms in \<open>simp add: CheckSeparationOfDuties_def\<close>)

lemma tableRoles_insert: "set (tableRoles T u tab) \<subseteq> set (tableRoles T u (insertRole row tab))"
  by (auto simp: tableRoles_def insertRole_def)

lemma execRoles_cases:
  assumes "execRoles env f a = (b, a')"
  obtains (same) "a' = a" "\<not> b" | (applied) tab where "au_table a = Some tab" "a' = a\<lparr>au_table := Some (f tab)\<rparr>"
      "b \<longleftrightarrow> \<not> ae_execFails env" "ae_execFails env \<Longrightarrow> ae_applied env"
  using assms by (auto simp: execRoles_def split: option.splits if_splits)

lemma coherent_AssignRole:
  assumes "coherent a" "AssignRole env T u actor role a = (r, a')"
  shows "coherent a'"
proof -
  obtain rc a1 where c: "Authorizer_Check env actor T PermSecuritySettings None a = (rc, a1)" by fastforce
  have a1: "coherent a1" using c coherent_getRoles(1) [OF assms(1)] by (auto elim: Check_cases)
  let ?f = "insertRole \<lparr>ur_tenant = T, ur_user = u, ur_role = role, ur_assigned_by = actor\<rparr>"
  obtain b a2 where x: "execRoles env ?f a1 = (b, a2)" by fastforce
  have a2: "coherent a2"
    using x
  proof (cases rule: execRoles_cases)
    case (applied tab)
    then show ?thesis using a1 tableRoles_insert unfolding coherent_def by fastforce
  qed (use a1 in simp)
  have "coherent (forget T u a2)" using a2 by (auto simp: coherent_def forget_def)
  with a1 a2 show ?thesis
    using assms(2) c x by (auto simp: AssignRole_def split: sum.splits bool.splits)
qed

lemma coherent_RemoveRole:
  assumes "coherent a" "RemoveRole env T u actor role a = (r, a')" "\<not> ae_execFails env \<or> \<not> ae_applied env"
  shows "coherent a'"
proof -
  obtain rc a1 where c: "Authorizer_Check env actor T PermSecuritySettings None a = (rc, a1)" by fastforce
  have a1: "coherent a1" using c coherent_getRoles(1) [OF assms(1)] by (auto elim: Check_cases)
  obtain b a2 where x: "execRoles env (deleteRole T u role) a1 = (b, a2)" by fastforce
  have other: "tableRoles U v (deleteRole T u role tab) = tableRoles U v tab" if "(U, v) \<noteq> (T, u)" for U v tab
    using that unfolding tableRoles_def deleteRole_def filter_filter by (intro arg_cong [where f = "map ur_role"] filter_cong) auto
  have "if b then coherent (forget T u a2) else coherent a2"
    using x
  proof (cases rule: execRoles_cases)
    case (applied tab)
    then have "coherent (forget T u a2)"
      using a1 other unfolding coherent_def forget_def by (auto split: if_splits)
    with applied assms(3) show ?thesis by auto
  qed (use a1 in simp)
  with a1 show ?thesis
    using assms(2) c x by (auto simp: RemoveRole_def split: sum.splits bool.splits if_splits)
qed

lemma coherent_step: "auth_step False a a' \<Longrightarrow> coherent a \<Longrightarrow> coherent a'"
proof (induction rule: auth_step.induct)
  case (check env u T perm owner a r a')
  then show ?case using coherent_getRoles(1) by (auto elim: Check_cases)
next
  case (separation env1 env2 x y T a r a')
  then show ?case using SoD_frame [where I = coherent] coherent_getRoles(1,2) by blast
qed (auto dest: coherent_AssignRole coherent_RemoveRole)

lemma coherent_new [simp]: "coherent (NewAuthorizer tab d)"
  by (simp add: coherent_def NewAuthorizer_def)

text \<open>
  C21: Deny by default, for one authorizer that starts with an empty cache and is the only writer of the
  table, and as long as no removal of a role loses the answer of its statement: a permission check passes
  only for a user who holds, in the table at that moment, a role with the permission; and for an
  object of another owner only if one of the user's roles is administrative. Without these conditions
  a check may go by roles up to thirty seconds old.
\<close>

theorem Check_needs_current_role:
  assumes "(auth_step False)\<^sup>*\<^sup>* (NewAuthorizer tab0 d) a"
    and "Authorizer_Check env u T perm owner a = (Inr (), a')"
  shows "\<exists>tab role. au_table a = Some tab \<and> role \<in> set (tableRoles T u tab) \<and> roleHasPermission role perm \<and>
    (if owner \<in> {None, Some u} then True else hasAdminRole (tableRoles T u tab))"
proof -
  have c: "coherent a" using assms(1) by (induction rule: rtranclp_induct) (auto dest: coherent_step)
  obtain roles where g: "getRoles env u T a = (Inr roles, a')" and z: "authorize u perm owner roles = Inr ()"
    using assms(2) by (rule Check_cases) (auto split: sum.splits)
  obtain role where r: "role \<in> set roles" "roleHasPermission role perm" using z by (auto simp: authorize_Inr)
  then obtain tab where t: "au_table a = Some tab" "set roles \<subseteq> set (tableRoles T u tab)"
    using coherent_getRoles(4) [OF c g] by auto
  have "hasAdminRole (tableRoles T u tab)" if "owner \<notin> {None, Some u}"
    using z that t(2) by (auto simp: authorize_Inr hasAdminRole_def list_ex_iff split: option.splits)
  with r t show ?thesis by auto
qed

text \<open>One step without a security administrator leaves the tenant's roles as they are.\<close>

lemma noSecurityAdmin_denied:
  assumes "noSecurityAdmin T a" "Authorizer_Check env actor T PermSecuritySettings None a = (rc, a1)"
  shows "rc \<noteq> Inr ()" "noSecurityAdmin T a1" "au_table a1 = au_table a"
  using assms(2)
  by (rule Check_cases,
      use noSecurityAdmin_getRoles [OF assms(1)] in \<open>auto simp: authorize_Inr security_settings_role split: sum.splits\<close>)+

lemma noSecurityAdmin_other:
  assumes "noSecurityAdmin T a" "Authorizer_Check env u U perm owner a = (rc, a1)"
  shows "noSecurityAdmin T a1" "au_table a1 = au_table a"
  using assms(2) by (rule Check_cases, use noSecurityAdmin_getRoles [OF assms(1)] in auto)+

lemma tableRoles_other_tenant:
  "U \<noteq> T \<Longrightarrow> tableRoles T v (insertRole \<lparr>ur_tenant = U, ur_user = u, ur_role = role, ur_assigned_by = b\<rparr> tab) = tableRoles T v tab"
  "U \<noteq> T \<Longrightarrow> tableRoles T v (deleteRole U u role tab) = tableRoles T v tab"
  by (simp_all add: tableRoles_def insertRole_def deleteRole_def filter_filter)
     (intro arg_cong [where f = "map ur_role"] filter_cong, auto)

definition sameTenantRoles :: "uuid \<Rightarrow> Authorizer \<Rightarrow> Authorizer \<Rightarrow> bool" where
  "sameTenantRoles T a a' \<longleftrightarrow>
     (\<forall>u. map_option (tableRoles T u) (au_table a') = map_option (tableRoles T u) (au_table a))"

lemma noSecurityAdmin_exec:
  assumes "noSecurityAdmin T a" "execRoles env f a = (b, a')" "\<And>tab v. tableRoles T v (f tab) = tableRoles T v tab"
  shows "noSecurityAdmin T a' \<and> noSecurityAdmin T (forget U u a') \<and> sameTenantRoles T a a'"
  using assms(2)
proof (cases rule: execRoles_cases)
  case (applied tab)
  then show ?thesis using assms(1,3) by (auto simp: noSecurityAdmin_def sameTenantRoles_def forget_def)
qed (use assms(1) in \<open>auto simp: noSecurityAdmin_def sameTenantRoles_def forget_def\<close>)

lemma noSecurityAdmin_Assign:
  assumes "noSecurityAdmin T a" "AssignRole env U u actor role a = (r, a')"
  shows "noSecurityAdmin T a' \<and> sameTenantRoles T a a'"
proof -
  obtain rc a1 where c: "Authorizer_Check env actor U PermSecuritySettings None a = (rc, a1)" by fastforce
  note n1 = noSecurityAdmin_other [OF assms(1) c]
  show ?thesis
  proof (cases "U = T")
    case True
    then have "rc \<noteq> Inr ()" using noSecurityAdmin_denied(1) [OF assms(1)] c by blast
    with assms(2) c n1 show ?thesis by (auto simp: AssignRole_def sameTenantRoles_def split: sum.splits)
  next
    case False
    obtain b a2 where x: "execRoles env (insertRole \<lparr>ur_tenant = U, ur_user = u, ur_role = role, ur_assigned_by = actor\<rparr>) a1 = (b, a2)"
      by fastforce
    from noSecurityAdmin_exec [OF n1(1) x tableRoles_other_tenant(1) [OF False]] n1(1,2) assms(2) c x show ?thesis
      by (auto simp: AssignRole_def sameTenantRoles_def forget_def split: sum.splits bool.splits)
  qed
qed

lemma noSecurityAdmin_Remove:
  assumes "noSecurityAdmin T a" "RemoveRole env U u actor role a = (r, a')"
  shows "noSecurityAdmin T a' \<and> sameTenantRoles T a a'"
proof -
  obtain rc a1 where c: "Authorizer_Check env actor U PermSecuritySettings None a = (rc, a1)" by fastforce
  note n1 = noSecurityAdmin_other [OF assms(1) c]
  show ?thesis
  proof (cases "U = T")
    case True
    then have "rc \<noteq> Inr ()" using noSecurityAdmin_denied(1) [OF assms(1)] c by blast
    with assms(2) c n1 show ?thesis by (auto simp: RemoveRole_def sameTenantRoles_def split: sum.splits)
  next
    case False
    obtain b a2 where x: "execRoles env (deleteRole U u role) a1 = (b, a2)" by fastforce
    from noSecurityAdmin_exec [OF n1(1) x tableRoles_other_tenant(2) [OF False]] n1(1,2) assms(2) c x show ?thesis
      by (auto simp: RemoveRole_def sameTenantRoles_def forget_def split: sum.splits bool.splits)
  qed
qed

lemma noSecurityAdmin_step: "auth_step lost a a' \<Longrightarrow> noSecurityAdmin T a \<Longrightarrow> noSecurityAdmin T a' \<and> sameTenantRoles T a a'"
proof (induction rule: auth_step.induct)
  case (check env u U perm owner a r a')
  then show ?case using noSecurityAdmin_other by (fastforce simp: sameTenantRoles_def)
next
  case (separation env1 env2 x y U a r a')
  then have "noSecurityAdmin T a' \<and> au_table a' = au_table a"
    using SoD_frame [where I = "noSecurityAdmin T", OF separation(1)] noSecurityAdmin_getRoles(1,2) [of T] by auto
  then show ?case by (simp add: sameTenantRoles_def)
qed (auto dest: noSecurityAdmin_Assign noSecurityAdmin_Remove)

text \<open>
  C20: No escalation: in a tenant without a security administrator no sequence of calls, whoever makes them
  and whatever fails or is applied behind a lost reply, changes the roles of any user of the tenant.
\<close>

theorem no_role_escalation:
  assumes "(auth_step True)\<^sup>*\<^sup>* (NewAuthorizer (Some tab0) d) a"
    and "\<forall>u. RoleSecurityAdmin \<notin> set (tableRoles T u tab0)"
  shows "\<exists>tab. au_table a = Some tab \<and> tableRoles T u tab = tableRoles T u tab0"
proof -
  have "noSecurityAdmin T a \<and> sameTenantRoles T (NewAuthorizer (Some tab0) d) a"
    using assms(1)
  proof (induction rule: rtranclp_induct)
    case base
    then show ?case using assms(2) by (simp add: noSecurityAdmin_def sameTenantRoles_def NewAuthorizer_def)
  next
    case (step y z)
    then show ?case using noSecurityAdmin_step by (fastforce simp: sameTenantRoles_def)
  qed
  then show ?thesis by (auto simp: sameTenantRoles_def NewAuthorizer_def)
qed

text \<open>
  The ownership check does not look at the user: it passes for every user or for none, so a user may
  reach the devices of any other user of the tenant; and it finds no policy at all.
\<close>

theorem CheckObjectOwnership_ignores_user:
  "(CheckObjectOwnership env u T kind obj a = Inr ()) = (CheckObjectOwnership env v T kind obj a = Inr ()) \<and>
   CheckObjectOwnership env u T ''policy'' obj a \<noteq> Inr ()"
  by (auto simp: CheckObjectOwnership_def CheckTenantScoping_def objectTenant_def)

lemma grantedPermissions:
  "roleHasPermission role perm \<Longrightarrow>
     perm \<notin> {PermTenantWrite, PermUserWrite, PermResourceWrite, PermApprovalCreate}"
  unfolding roleHasPermission_def rolePermissions_def map_upd_Some_unfold
  by (simp only: fun_upd_apply split: if_split_asm option.split_asm) auto

text \<open>
  Four permissions that the package declares are given to no role, so nobody can ever hold them.
\<close>

theorem permissions_without_role:
  "perm \<in> {PermTenantWrite, PermUserWrite, PermResourceWrite, PermApprovalCreate} \<Longrightarrow> \<not> roleHasPermission role perm"
  using grantedPermissions [of role perm] by auto

section \<open>Concrete runs\<close>

definition demo_auth_env :: "gotime \<Rightarrow> auth_env" where
  "demo_auth_env t = \<lparr>ae_lookup = t, ae_store = t, ae_queryFails = False, ae_cut = None, ae_execFails = False, ae_applied = False\<rparr>"

definition demo_roles :: "role_row list" where
  "demo_roles = [\<lparr>ur_tenant = 1, ur_user = 1, ur_role = RoleSecurityAdmin, ur_assigned_by = 1\<rparr>]"

lemmas demo_rbac_defs = AssignRole_def RemoveRole_def Authorizer_Check_def getRoles_def queryRoles_def execRoles_def
  authorize_def tableRoles_def insertRole_def deleteRole_def forget_def NewAuthorizer_def demo_auth_env_def demo_roles_def
  roleHasPermission_def rolePermissions_def hasAdminRole_def cacheTTL_def second_def Let_def

text \<open>A security administrator makes user 2 an auditor, who may then read the audit log.\<close>

theorem Check_needs_current_role_witness:
  "\<exists>a a' tab role.
     AssignRole (demo_auth_env 0) 1 2 1 RoleAuditor (NewAuthorizer (Some demo_roles) emptyDb) = (Inr (), a) \<and>
     Authorizer_Check (demo_auth_env 5) 2 1 PermAuditRead None a = (Inr (), a') \<and>
     au_table a = Some tab \<and> role \<in> set (tableRoles 1 2 tab) \<and> roleHasPermission role PermAuditRead"
proof -
  obtain a where a: "AssignRole (demo_auth_env 0) 1 2 1 RoleAuditor (NewAuthorizer (Some demo_roles) emptyDb) = (Inr (), a)"
    by (simp add: demo_rbac_defs)
  have "\<exists>a'. Authorizer_Check (demo_auth_env 5) 2 1 PermAuditRead None a = (Inr (), a')"
    using a by (auto simp: demo_rbac_defs)
  then obtain a' where c: "Authorizer_Check (demo_auth_env 5) 2 1 PermAuditRead None a = (Inr (), a')" ..
  have "(auth_step False)\<^sup>*\<^sup>* (NewAuthorizer (Some demo_roles) emptyDb) a"
    using auth_step.assign [OF a] by (rule r_into_rtranclp)
  from Check_needs_current_role [OF this c] a c show ?thesis by blast
qed

text \<open>An operator of another tenant who tries to appoint herself is refused.\<close>

theorem no_role_escalation_witness:
  "\<exists>a e tab. AssignRole (demo_auth_env 0) 2 3 3 RoleSecurityAdmin (NewAuthorizer (Some demo_roles) emptyDb) = (Inl e, a) \<and>
     au_table a = Some tab \<and> tableRoles 2 3 tab = tableRoles 2 3 demo_roles"
proof -
  obtain a e where a: "AssignRole (demo_auth_env 0) 2 3 3 RoleSecurityAdmin (NewAuthorizer (Some demo_roles) emptyDb) = (Inl e, a)"
    by (simp add: demo_rbac_defs)
  have "(auth_step True)\<^sup>*\<^sup>* (NewAuthorizer (Some demo_roles) emptyDb) a"
    using auth_step.assign [OF a] by (rule r_into_rtranclp)
  moreover have "\<forall>u. RoleSecurityAdmin \<notin> set (tableRoles 2 u demo_roles)" by (simp add: tableRoles_def demo_roles_def)
  ultimately show ?thesis using no_role_escalation [of demo_roles emptyDb a 2 3] a by blast
qed

theorem permissions_without_role_witness: "\<not> roleHasPermission RoleSecurityAdmin PermResourceWrite"
  by (rule permissions_without_role) simp

end
