(* ===== verification/Enrollment.thy ===== *)
theory Enrollment
  imports Database
begin

text \<open>
  \<open>service/internal/enrollment/oidc.go\<close>: the issuer allow-list, one-time enrollment tickets, device
  enrollment, and the bootstrap of protected nodes. The tables \<open>enrollment_tickets\<close> and
  \<open>bootstrap_tokens\<close> are in no migration of the repository, so they are optional tables of the model:
  \<open>None\<close> where one does not exist, and every statement on it fails. Devices and nodes go into the
  tables of the database with their clauses.
\<close>

section \<open>Data\<close>

record OIDCProvider =
  op_IssuerURL :: string
  op_ClientID :: string
  op_ClientSecret :: string
  op_DiscoveryURL :: string

record EnrollmentTicket =
  et_Ticket :: string
  et_TenantID :: uuid
  et_UserID :: uuid
  et_Issuer :: string
  et_Subject :: string
  et_Challenge :: bytes
  et_ExpiresAt :: gotime
  et_Used :: bool

record DeviceEnrollment =
  de_DeviceAuthPub :: bytes
  de_ApprovalAuthPub :: bytes
  de_DeviceAuthAttestation :: bytes
  de_ApprovalAuthAttestation :: bytes
  de_SecurityLevel :: SecurityLevel

record NodeBootstrapToken =
  nb_Token :: string
  nb_TenantID :: uuid
  nb_TailnetID :: string
  nb_TSStableNodeID :: string
  nb_ExpiresAt :: gotime

record ticket_row =
  tk_hash :: bytes
  tk_tenant :: uuid
  tk_user :: uuid
  tk_issuer :: string
  tk_subject :: string
  tk_challenge :: bytes
  tk_expires_at :: gotime
  tk_used :: bool

record token_row =
  bt_hash :: bytes
  bt_tenant :: uuid
  bt_tailnet_id :: string
  bt_ts_stable_node_id :: string
  bt_expires_at :: gotime
  bt_issued_by :: uuid
  bt_used :: bool

record enroll_db =
  ed_tickets :: "ticket_row list option"
  ed_tokens :: "token_row list option"
  ed_db :: db

text \<open>
  A call's environment: failing statements by label, the outcome of its commit, the clock when a
  statement or check reads it and when the result is built, the two readings of the random source, a
  fresh UUID. An insert outside a transaction may also take effect and lose its answer.
\<close>

record enroll_env =
  en_fault :: "string \<Rightarrow> bool"
  en_commitAs :: commit_outcome
  en_now :: gotime
  en_returned :: gotime
  en_challenge :: "bytes option"
  en_secret :: "bytes option"
  en_newID :: uuid

datatype enroll_error =
    IssuerNotAllowed string
  | GenerateChallenge
  | StoreTicket
  | BeginTx
  | TicketNotFound
  | TicketHashMismatch
  | TicketUsed
  | TicketExpired
  | MarkTicketUsed
  | CommitTicket
  | AttestationFailed
  | UnsupportedSecurityLevel SecurityLevel
  | InsertDevice sql_error
  | StoreBootstrap
  | InvalidBootstrapToken
  | TokenUsed
  | TokenExpired
  | IdentityMismatch
  | MarkTokenUsed
  | InsertNode sql_error
  | CommitNode


section \<open>Issuers\<close>

text \<open>A later provider with the same issuer replaces an earlier one.\<close>

definition NewOIDCManager :: "OIDCProvider list \<Rightarrow> string \<rightharpoonup> OIDCProvider" where
  "NewOIDCManager providers = foldl (\<lambda>m p. m(op_IssuerURL p \<mapsto> p)) Map.empty providers"

definition ValidateIssuer :: "(string \<rightharpoonup> OIDCProvider) \<Rightarrow> string \<Rightarrow> enroll_error + OIDCProvider" where
  "ValidateIssuer allowedIssuers issuerURL = need (allowedIssuers issuerURL) (IssuerNotAllowed issuerURL) Inr"


section \<open>Secrets\<close>

text \<open>\<open>base64.RawURLEncoding\<close>.\<close>

definition b64char :: "nat \<Rightarrow> char" where
  "b64char n = ''ABCDEFGHIJKLMNOPQRSTUVWXYZabcdefghijklmnopqrstuvwxyz0123456789-_'' ! n"

fun rawURLEncode :: "bytes \<Rightarrow> string" where
  "rawURLEncode [] = []"
| "rawURLEncode [x] = [b64char (unat x div 4), b64char (unat x mod 4 * 16)]"
| "rawURLEncode [x, y] =
     [b64char (unat x div 4), b64char (unat x mod 4 * 16 + unat y div 16), b64char (unat y mod 16 * 4)]"
| "rawURLEncode (x # y # z # rest) =
     b64char (unat x div 4) # b64char (unat x mod 4 * 16 + unat y div 16)
     # b64char (unat y mod 16 * 4 + unat z div 64) # b64char (unat z mod 64) # rawURLEncode rest"

text \<open>The buffer of 32 bytes stays zero when the random source fails, which is not checked here.\<close>

definition newSecret :: "enroll_env \<Rightarrow> string" where
  "newSecret env = rawURLEncode (case en_secret env of None \<Rightarrow> replicate 32 0 | Some b \<Rightarrow> b)"

definition secretHash :: "prims \<Rightarrow> string \<Rightarrow> bytes" where
  "secretHash P secret = sha256 P (str_bytes secret)"


section \<open>Enrollment tickets\<close>

definition IssueEnrollmentTicket ::
  "prims \<Rightarrow> enroll_env \<Rightarrow> uuid \<Rightarrow> uuid \<Rightarrow> string \<Rightarrow> string \<Rightarrow> duration \<Rightarrow> enroll_db
     \<Rightarrow> (enroll_error + EnrollmentTicket) \<times> enroll_db" where
  "IssueEnrollmentTicket P env tenantID userID issuer subject ttl s =
    (case en_challenge env of
       None \<Rightarrow> (Inl GenerateChallenge, s)
     | Some challenge \<Rightarrow>
        (let ticket = newSecret env in
         case ed_tickets s of
           None \<Rightarrow> (Inl StoreTicket, s)
         | Some tab \<Rightarrow>
            if en_fault env ''insert'' then (Inl StoreTicket, s)
            else (reject (en_fault env ''insert: reply'') StoreTicket (
                  Inr \<lparr>et_Ticket = ticket, et_TenantID = tenantID, et_UserID = userID, et_Issuer = issuer, et_Subject = subject,
                       et_Challenge = challenge, et_ExpiresAt = en_returned env + ttl, et_Used = False\<rparr>),
                  s\<lparr>ed_tickets := Some (tab @ [\<lparr>tk_hash = secretHash P ticket, tk_tenant = tenantID, tk_user = userID,
                       tk_issuer = issuer, tk_subject = subject, tk_challenge = challenge,
                       tk_expires_at = en_now env + ttl, tk_used = False\<rparr>])\<rparr>)))"

definition ticketOf :: "string \<Rightarrow> ticket_row \<Rightarrow> EnrollmentTicket" where
  "ticketOf ticket r =
     \<lparr>et_Ticket = ticket, et_TenantID = tk_tenant r, et_UserID = tk_user r, et_Issuer = tk_issuer r, et_Subject = tk_subject r,
      et_Challenge = tk_challenge r, et_ExpiresAt = tk_expires_at r, et_Used = tk_used r\<rparr>"

text \<open>How a transaction that did its work ends: what is committed, and whether that is reported.\<close>

definition finish :: "enroll_env \<Rightarrow> 'e \<Rightarrow> 'a \<Rightarrow> enroll_db \<Rightarrow> enroll_db \<Rightarrow> ('e + 'a) \<times> enroll_db" where
  "finish env err x s s' =
    (case en_commitAs env of CommitOk \<Rightarrow> (Inr x, s') | CommitFailed \<Rightarrow> (Inl err, s) | CommitLost \<Rightarrow> (Inl err, s'))"

definition ValidateEnrollmentTicket ::
  "prims \<Rightarrow> enroll_env \<Rightarrow> string \<Rightarrow> enroll_db \<Rightarrow> (enroll_error + EnrollmentTicket) \<times> enroll_db" where
  "ValidateEnrollmentTicket P env ticket s =
    (let ticketHash = secretHash P ticket in
     if en_fault env ''begin'' then (Inl BeginTx, s)
     else case ed_tickets s of
       None \<Rightarrow> (Inl TicketNotFound, s)
     | Some tab \<Rightarrow>
        if en_fault env ''select'' then (Inl TicketNotFound, s)
        else case find (\<lambda>r. tk_hash r = ticketHash) tab of
          None \<Rightarrow> (Inl TicketNotFound, s)
        | Some r \<Rightarrow>
           if tk_hash r \<noteq> ticketHash then (Inl TicketHashMismatch, s)
           else if tk_used r then (Inl TicketUsed, s)
           else if en_now env > tk_expires_at r then (Inl TicketExpired, s)
           else if en_fault env ''update'' then (Inl MarkTicketUsed, s)
           else finish env CommitTicket (ticketOf ticket r) s
                  (s\<lparr>ed_tickets := Some (updateWhere (\<lambda>r. tk_hash r = ticketHash) (\<lambda>r. r\<lparr>tk_used := True\<rparr>) tab)\<rparr>))"


section \<open>Devices\<close>

definition verifyAttestation :: "DeviceEnrollment \<Rightarrow> EnrollmentTicket \<Rightarrow> enroll_error + unit" where
  "verifyAttestation enrollment ticket =
     reject (de_SecurityLevel enrollment \<noteq> SecurityLevelTEE \<and> de_SecurityLevel enrollment \<noteq> SecurityLevelStrongBox)
       AttestationFailed (Inr ())"

definition insert_device :: "pg \<Rightarrow> device_row \<Rightarrow> db \<Rightarrow> sql_error + unit \<times> db" where
  "insert_device G d s =
     need (jsonb_in G (dv_attestation d)) InvalidJson (\<lambda>attestation.
     reject (dv_security_level d \<noteq> ''STRONGBOX'' \<and> dv_security_level d \<noteq> ''TEE'') (CheckViolation ''security_level'') (
     reject (dv_state d \<noteq> ''ENROLLED'' \<and> dv_state d \<noteq> ''REVOKED'') (CheckViolation ''state'') (
     reject (list_ex (\<lambda>e. dv_id e = dv_id d \<or>
               (dv_tenant e = dv_tenant d \<and>
                 (dv_device_auth_pub e = dv_device_auth_pub d \<or> dv_approval_auth_pub e = dv_approval_auth_pub d))) (devices s))
       (UniqueViolation ''devices'') (
     reject (dv_tenant d \<notin> set (tenants s) \<or> \<not> userExists (dv_tenant d) (dv_user d) s) (ForeignKeyViolation ''devices'') (
     Inr ((), s\<lparr>devices := devices s @ [d\<lparr>dv_attestation := attestation\<rparr>]\<rparr>))))))"

definition deviceOf :: "uuid \<Rightarrow> EnrollmentTicket \<Rightarrow> DeviceEnrollment \<Rightarrow> device_row" where
  "deviceOf deviceID ticket enrollment =
     \<lparr>dv_tenant = et_TenantID ticket, dv_id = deviceID, dv_user = et_UserID ticket,
      dv_device_auth_pub = de_DeviceAuthPub enrollment, dv_approval_auth_pub = de_ApprovalAuthPub enrollment,
      dv_attestation = de_DeviceAuthAttestation enrollment, dv_security_level = de_SecurityLevel enrollment,
      dv_counter = 0, dv_state = ''ENROLLED'', dv_revoked_at = None\<rparr>"

definition EnrollDevice ::
  "pg \<Rightarrow> enroll_env \<Rightarrow> EnrollmentTicket \<Rightarrow> DeviceEnrollment \<Rightarrow> enroll_db \<Rightarrow> (enroll_error + uuid) \<times> enroll_db" where
  "EnrollDevice G env ticket enrollment s =
    (case verifyAttestation enrollment ticket of
       Inl e \<Rightarrow> (Inl e, s)
     | Inr u \<Rightarrow>
        if de_SecurityLevel enrollment \<noteq> SecurityLevelStrongBox \<and> de_SecurityLevel enrollment \<noteq> SecurityLevelTEE
        then (Inl (UnsupportedSecurityLevel (de_SecurityLevel enrollment)), s)
        else if en_fault env ''insert'' then (Inl (InsertDevice ConnectionFault), s)
        else case insert_device G (deviceOf (en_newID env) ticket enrollment) (ed_db s) of
          Inl e \<Rightarrow> (Inl (InsertDevice e), s)
        | Inr (u, d) \<Rightarrow>
            (reject (en_fault env ''insert: reply'') (InsertDevice ConnectionFault) (Inr (en_newID env)), s\<lparr>ed_db := d\<rparr>))"


section \<open>Nodes\<close>

definition IssueNodeBootstrap ::
  "prims \<Rightarrow> enroll_env \<Rightarrow> uuid \<Rightarrow> string \<Rightarrow> string \<Rightarrow> duration \<Rightarrow> uuid \<Rightarrow> enroll_db
     \<Rightarrow> (enroll_error + NodeBootstrapToken) \<times> enroll_db" where
  "IssueNodeBootstrap P env tenantID tailnetID tsStableNodeID ttl authorizedBy s =
    (let token = newSecret env in
     case ed_tokens s of
       None \<Rightarrow> (Inl StoreBootstrap, s)
     | Some tab \<Rightarrow>
        if en_fault env ''insert'' then (Inl StoreBootstrap, s)
        else (reject (en_fault env ''insert: reply'') StoreBootstrap (
              Inr \<lparr>nb_Token = token, nb_TenantID = tenantID, nb_TailnetID = tailnetID, nb_TSStableNodeID = tsStableNodeID,
                   nb_ExpiresAt = en_returned env + ttl\<rparr>),
              s\<lparr>ed_tokens := Some (tab @ [\<lparr>bt_hash = secretHash P token, bt_tenant = tenantID, bt_tailnet_id = tailnetID,
                   bt_ts_stable_node_id = tsStableNodeID, bt_expires_at = en_now env + ttl, bt_issued_by = authorizedBy,
                   bt_used = False\<rparr>])\<rparr>))"

definition insert_node :: "node_row \<Rightarrow> db \<Rightarrow> sql_error + unit \<times> db" where
  "insert_node n s =
     reject (n_cert_state n \<notin> {''ACTIVE'', ''REVOKED'', ''EXPIRED''}) (CheckViolation ''cert_state'') (
     reject (list_ex (\<lambda>m. n_id m = n_id n \<or>
               (n_tenant m = n_tenant n \<and>
                 (n_ts_stable_node_id m = n_ts_stable_node_id n \<or> n_cert_serial m = n_cert_serial n))) (nodes s))
       (UniqueViolation ''nodes'') (
     reject (n_tenant n \<notin> set (tenants s)) (ForeignKeyViolation ''nodes'') (
     Inr ((), s\<lparr>nodes := nodes s @ [n]\<rparr>))))"

definition certSerial :: "prims \<Rightarrow> uuid \<Rightarrow> string" where
  "certSerial P nodeID = ''dnivio-'' @ take 12 (uuid_String P nodeID)"

definition nodeOf :: "prims \<Rightarrow> uuid \<Rightarrow> token_row \<Rightarrow> string \<Rightarrow> string \<Rightarrow> node_row" where
  "nodeOf P nodeID r tailnetID tsStableNodeID =
     \<lparr>n_tenant = bt_tenant r, n_id = nodeID, n_ts_stable_node_id = tsStableNodeID, n_tailnet_id = tailnetID,
      n_cert_serial = certSerial P nodeID, n_cert_state = ''ACTIVE'', n_node_key_epoch = 0\<rparr>"

definition RegisterNode ::
  "prims \<Rightarrow> enroll_env \<Rightarrow> string \<Rightarrow> string \<Rightarrow> string \<Rightarrow> bytes \<Rightarrow> enroll_db \<Rightarrow> (enroll_error + uuid) \<times> enroll_db" where
  "RegisterNode P env token tailnetID tsStableNodeID csrDER s =
    (let tokenHash = secretHash P token in
     if en_fault env ''begin'' then (Inl BeginTx, s)
     else case ed_tokens s of
       None \<Rightarrow> (Inl InvalidBootstrapToken, s)
     | Some tab \<Rightarrow>
        if en_fault env ''select'' then (Inl InvalidBootstrapToken, s)
        else case find (\<lambda>r. bt_hash r = tokenHash) tab of
          None \<Rightarrow> (Inl InvalidBootstrapToken, s)
        | Some r \<Rightarrow>
           if bt_used r then (Inl TokenUsed, s)
           else if en_now env > bt_expires_at r then (Inl TokenExpired, s)
           else if bt_ts_stable_node_id r \<noteq> tsStableNodeID \<or> bt_tailnet_id r \<noteq> tailnetID then (Inl IdentityMismatch, s)
           else if en_fault env ''update'' then (Inl MarkTokenUsed, s)
           else if en_fault env ''insert'' then (Inl (InsertNode ConnectionFault), s)
           else case insert_node (nodeOf P (en_newID env) r tailnetID tsStableNodeID) (ed_db s) of
              Inl e \<Rightarrow> (Inl (InsertNode e), s)
            | Inr (u, d) \<Rightarrow>
                finish env CommitNode (en_newID env) s
                  (s\<lparr>ed_tokens := Some (updateWhere (\<lambda>r. bt_hash r = tokenHash) (\<lambda>r. r\<lparr>bt_used := True\<rparr>) tab), ed_db := d\<rparr>))"


section \<open>Runs\<close>

text \<open>
  Everything that may happen between two uses of a secret: calls of this package with any faults, and
  other changes of the database. The secret with hash \<open>h\<close> is not issued again.
\<close>

inductive enroll_step :: "prims \<Rightarrow> pg \<Rightarrow> bytes \<Rightarrow> enroll_db \<Rightarrow> enroll_db \<Rightarrow> bool" for P G h where
  issueTicket: "secretHash P (newSecret env) \<noteq> h \<Longrightarrow>
     enroll_step P G h s (snd (IssueEnrollmentTicket P env T u iss sub ttl s))"
| validate: "enroll_step P G h s (snd (ValidateEnrollmentTicket P env ticket s))"
| enrollDevice: "enroll_step P G h s (snd (EnrollDevice G env t e s))"
| issueNode: "secretHash P (newSecret env) \<noteq> h \<Longrightarrow>
     enroll_step P G h s (snd (IssueNodeBootstrap P env T tn n ttl auth s))"
| registerNode: "enroll_step P G h s (snd (RegisterNode P env token tn n csr s))"
| other: "enroll_step P G h s (s\<lparr>ed_db := d\<rparr>)"

text \<open>There are rows with the hash, and all of them are used.\<close>

definition usedTicket :: "bytes \<Rightarrow> enroll_db \<Rightarrow> bool" where
  "usedTicket h s =
    (case ed_tickets s of None \<Rightarrow> False
     | Some tab \<Rightarrow> list_ex (\<lambda>r. tk_hash r = h) tab \<and> list_all (\<lambda>r. tk_hash r = h \<longrightarrow> tk_used r) tab)"

definition usedToken :: "bytes \<Rightarrow> enroll_db \<Rightarrow> bool" where
  "usedToken h s =
    (case ed_tokens s of None \<Rightarrow> False
     | Some tab \<Rightarrow> list_ex (\<lambda>r. bt_hash r = h) tab \<and> list_all (\<lambda>r. bt_hash r = h \<longrightarrow> bt_used r) tab)"

lemma find_list_ex: "find Q xs = Some x \<Longrightarrow> list_ex Q xs"
  by (metis find_Some_set list_ex_iff)

lemma mark_ticket:
  "list_ex (\<lambda>r. tk_hash r = h) (updateWhere (\<lambda>r. tk_hash r = h') (\<lambda>r. r\<lparr>tk_used := True\<rparr>) tab) = list_ex (\<lambda>r. tk_hash r = h) tab"
  "list_all (\<lambda>r. tk_hash r = h \<longrightarrow> tk_used r) tab \<Longrightarrow>
     list_all (\<lambda>r. tk_hash r = h \<longrightarrow> tk_used r) (updateWhere (\<lambda>r. tk_hash r = h') (\<lambda>r. r\<lparr>tk_used := True\<rparr>) tab)"
  "list_all (\<lambda>r. tk_hash r = h \<longrightarrow> tk_used r) (updateWhere (\<lambda>r. tk_hash r = h) (\<lambda>r. r\<lparr>tk_used := True\<rparr>) tab)"
  by (induction tab) (simp_all add: updateWhere_def)

lemma mark_token:
  "list_ex (\<lambda>r. bt_hash r = h) (updateWhere (\<lambda>r. bt_hash r = h') (\<lambda>r. r\<lparr>bt_used := True\<rparr>) tab) = list_ex (\<lambda>r. bt_hash r = h) tab"
  "list_all (\<lambda>r. bt_hash r = h \<longrightarrow> bt_used r) tab \<Longrightarrow>
     list_all (\<lambda>r. bt_hash r = h \<longrightarrow> bt_used r) (updateWhere (\<lambda>r. bt_hash r = h') (\<lambda>r. r\<lparr>bt_used := True\<rparr>) tab)"
  "list_all (\<lambda>r. bt_hash r = h \<longrightarrow> bt_used r) (updateWhere (\<lambda>r. bt_hash r = h) (\<lambda>r. r\<lparr>bt_used := True\<rparr>) tab)"
  by (induction tab) (simp_all add: updateWhere_def)

lemmas used_defs = usedTicket_def usedToken_def mark_ticket mark_token

lemma finish_cases:
  "finish env err x s s' = (res, s2) \<Longrightarrow> (res = Inr x \<and> s2 = s') \<or> (res = Inl err \<and> s2 \<in> {s, s'})"
  by (auto simp: finish_def split: commit_outcome.splits)

text \<open>What a call leaves: the state as it was, or a ticket found fresh and marked.\<close>

lemma Validate_cases:
  assumes "ValidateEnrollmentTicket P env ticket s = (res, s')"
  shows "(s' = s \<and> (\<exists>e. res = Inl e)) \<or>
    (\<exists>tab r. ed_tickets s = Some tab \<and> find (\<lambda>r. tk_hash r = secretHash P ticket) tab = Some r \<and>
       \<not> tk_used r \<and> en_now env \<le> tk_expires_at r \<and> (res = Inr (ticketOf ticket r) \<or> (\<exists>e. res = Inl e)) \<and>
       s' = s\<lparr>ed_tickets := Some (updateWhere (\<lambda>r. tk_hash r = secretHash P ticket) (\<lambda>r. r\<lparr>tk_used := True\<rparr>) tab)\<rparr>)"
  using assms
  by (auto simp: ValidateEnrollmentTicket_def Let_def split: if_splits option.splits dest!: finish_cases)

lemma RegisterNode_cases:
  assumes "RegisterNode P env token tailnetID nodeID csr s = (res, s')"
  shows "(s' = s \<and> (\<exists>e. res = Inl e)) \<or>
    (\<exists>tab r d. ed_tokens s = Some tab \<and> find (\<lambda>r. bt_hash r = secretHash P token) tab = Some r \<and>
       \<not> bt_used r \<and> en_now env \<le> bt_expires_at r \<and> bt_ts_stable_node_id r = nodeID \<and> bt_tailnet_id r = tailnetID \<and>
       insert_node (nodeOf P (en_newID env) r tailnetID nodeID) (ed_db s) = Inr ((), d) \<and>
       (res = Inr (en_newID env) \<or> (\<exists>e. res = Inl e)) \<and>
       s' = s\<lparr>ed_tokens := Some (updateWhere (\<lambda>r. bt_hash r = secretHash P token) (\<lambda>r. r\<lparr>bt_used := True\<rparr>) tab), ed_db := d\<rparr>)"
  using assms
  by (auto simp: RegisterNode_def Let_def split: if_splits option.splits sum.splits prod.splits dest!: finish_cases)

lemma EnrollDevice_tables:
  "ed_tickets (snd (EnrollDevice G env t e s)) = ed_tickets s" "ed_tokens (snd (EnrollDevice G env t e s)) = ed_tokens s"
  by (auto simp: EnrollDevice_def split: sum.splits if_splits prod.splits)

lemma used_step:
  assumes "enroll_step P G h s s'"
  shows "(usedTicket h s \<longrightarrow> usedTicket h s') \<and> (usedToken h s \<longrightarrow> usedToken h s')"
  using assms
proof cases
  case (issueTicket env T u iss sub ttl)
  then show ?thesis
    by (auto simp: IssueEnrollmentTicket_def Let_def usedTicket_def usedToken_def split: option.splits)
next
  case (validate env ticket)
  then show ?thesis
    using Validate_cases [OF surjective_pairing [of "ValidateEnrollmentTicket P env ticket s"]]
    by (auto simp: used_defs)
next
  case (enrollDevice env t e)
  then show ?thesis by (simp add: usedTicket_def usedToken_def EnrollDevice_tables)
next
  case (issueNode env T tn n ttl auth)
  then show ?thesis
    by (auto simp: IssueNodeBootstrap_def Let_def usedTicket_def usedToken_def split: option.splits)
next
  case (registerNode env token tn n csr)
  then show ?thesis
    using RegisterNode_cases [OF surjective_pairing [of "RegisterNode P env token tn n csr s"]]
    by (auto simp: used_defs)
next
  case (other d)
  then show ?thesis by (simp add: usedTicket_def usedToken_def)
qed

lemma used_run:
  "(enroll_step P G h)\<^sup>*\<^sup>* s s' \<Longrightarrow> (usedTicket h s \<longrightarrow> usedTicket h s') \<and> (usedToken h s \<longrightarrow> usedToken h s')"
  by (induction rule: rtranclp_induct) (auto dest: used_step)

lemma find_used: "find Q tab = Some r \<Longrightarrow> list_all (\<lambda>r. Q r \<longrightarrow> U r) tab \<Longrightarrow> U r"
  by (metis find_Some_set list_all_iff)

lemma usedTicket_rejects: "usedTicket (secretHash P ticket) s \<Longrightarrow> \<exists>e. ValidateEnrollmentTicket P env ticket s = (Inl e, s)"
  using Validate_cases [OF surjective_pairing [of "ValidateEnrollmentTicket P env ticket s"]]
  by (auto simp: usedTicket_def prod_eq_iff dest: find_used)

lemma usedToken_rejects: "usedToken (secretHash P token) s \<Longrightarrow> \<exists>e. RegisterNode P env token tn n csr s = (Inl e, s)"
  using RegisterNode_cases [OF surjective_pairing [of "RegisterNode P env token tn n csr s"]]
  by (auto simp: usedToken_def prod_eq_iff dest: find_used)


section \<open>Single use\<close>

text \<open>
  C22: An enrollment ticket is accepted once: after a validation that succeeded, no later validation of the
  same ticket succeeds or changes anything, whatever happens in between, as long as the secret is not
  issued a second time. What the validation returns is the row of an unused ticket within its lifetime.
\<close>

theorem ticket_single_use:
  assumes "ValidateEnrollmentTicket P env ticket s = (Inr et, s1)" and "(enroll_step P G (secretHash P ticket))\<^sup>*\<^sup>* s1 s2"
  shows "(\<exists>tab r. ed_tickets s = Some tab \<and> r \<in> set tab \<and> tk_hash r = secretHash P ticket \<and> \<not> tk_used r \<and>
            en_now env \<le> tk_expires_at r \<and> et = ticketOf ticket r) \<and>
    (\<exists>e. ValidateEnrollmentTicket P env' ticket s2 = (Inl e, s2))"
proof -
  obtain tab r where r: "ed_tickets s = Some tab" "find (\<lambda>r. tk_hash r = secretHash P ticket) tab = Some r"
      "\<not> tk_used r" "en_now env \<le> tk_expires_at r" "et = ticketOf ticket r"
    and s1: "s1 = s\<lparr>ed_tickets := Some (updateWhere (\<lambda>r. tk_hash r = secretHash P ticket) (\<lambda>r. r\<lparr>tk_used := True\<rparr>) tab)\<rparr>"
    using Validate_cases [OF assms(1)] by auto
  have "usedTicket (secretHash P ticket) s1"
    unfolding usedTicket_def s1 using find_list_ex [OF r(2)] by (simp add: mark_ticket)
  with used_run [OF assms(2)] have "usedTicket (secretHash P ticket) s2" by blast
  from usedTicket_rejects [OF this] r find_Some_set [OF r(2)] show ?thesis by blast
qed

text \<open>
  C23: A registration that succeeded had an unused, unexpired bootstrap token for exactly this tailnet and
  this stable node; it added one active node of the token's tenant with these identifiers. No later
  registration with the token succeeds or changes anything, whatever happens in between.
\<close>

theorem bootstrap_single_use:
  assumes "RegisterNode P env token tailnetID nodeID csr s = (Inr nid, s1)" and "(enroll_step P G (secretHash P token))\<^sup>*\<^sup>* s1 s2"
  shows "(\<exists>tab r. ed_tokens s = Some tab \<and> r \<in> set tab \<and> bt_hash r = secretHash P token \<and> \<not> bt_used r \<and>
            en_now env \<le> bt_expires_at r \<and> bt_ts_stable_node_id r = nodeID \<and> bt_tailnet_id r = tailnetID \<and>
            ed_db s1 = (ed_db s)\<lparr>nodes := nodes (ed_db s) @ [nodeOf P nid r tailnetID nodeID]\<rparr>) \<and>
    (\<exists>e. RegisterNode P env' token tailnetID' nodeID' csr' s2 = (Inl e, s2))"
proof -
  obtain tab r d where r: "ed_tokens s = Some tab" "find (\<lambda>r. bt_hash r = secretHash P token) tab = Some r"
      "\<not> bt_used r" "en_now env \<le> bt_expires_at r" "bt_ts_stable_node_id r = nodeID" "bt_tailnet_id r = tailnetID"
      "insert_node (nodeOf P nid r tailnetID nodeID) (ed_db s) = Inr ((), d)"
    and s1: "s1 = s\<lparr>ed_tokens := Some (updateWhere (\<lambda>r. bt_hash r = secretHash P token) (\<lambda>r. r\<lparr>bt_used := True\<rparr>) tab), ed_db := d\<rparr>"
    using RegisterNode_cases [OF assms(1)] by auto
  have "usedToken (secretHash P token) s1"
    unfolding usedToken_def s1 using find_list_ex [OF r(2)] by (simp add: mark_token)
  with used_run [OF assms(2)] have "usedToken (secretHash P token) s2" by blast
  from usedToken_rejects [OF this] have "\<exists>e. RegisterNode P env' token tailnetID' nodeID' csr' s2 = (Inl e, s2)" .
  moreover have "ed_db s1 = (ed_db s)\<lparr>nodes := nodes (ed_db s) @ [nodeOf P nid r tailnetID nodeID]\<rparr>"
    using r(7) unfolding s1 by (simp add: insert_node_def)
  ultimately show ?thesis using r(1,3-6) find_Some_set [OF r(2)] by blast
qed

text \<open>
  Enrolling a device does not consume its ticket, and looks at nothing of it but the tenant and the
  user: with any other secret, issuer, subject, challenge, expiry and use mark the call does the same.
\<close>

theorem EnrollDevice_ignores_ticket:
  "EnrollDevice G env (t\<lparr>et_Ticket := secret, et_Issuer := issuer, et_Subject := subject, et_Challenge := challenge,
     et_ExpiresAt := expires, et_Used := used\<rparr>) enrollment s = EnrollDevice G env t enrollment s"
  by (simp add: EnrollDevice_def verifyAttestation_def deviceOf_def)

text \<open>On the schema of the repository, without the two tables, no secret is ever issued or accepted.\<close>

theorem enrollment_needs_tables:
  "let s = \<lparr>ed_tickets = None, ed_tokens = None, ed_db = d\<rparr> in
     (\<exists>e. IssueEnrollmentTicket P env T u iss sub ttl s = (Inl e, s)) \<and> (\<exists>e. ValidateEnrollmentTicket P env ticket s = (Inl e, s)) \<and>
     (\<exists>e. IssueNodeBootstrap P env T tn n ttl auth s = (Inl e, s)) \<and> (\<exists>e. RegisterNode P env ticket tn n csr s = (Inl e, s))"
  by (simp add: IssueEnrollmentTicket_def ValidateEnrollmentTicket_def IssueNodeBootstrap_def RegisterNode_def Let_def split: option.splits)


section \<open>From ticket to device\<close>

definition soundCall :: "enroll_env \<Rightarrow> bool" where
  "soundCall env \<longleftrightarrow> (\<forall>l. \<not> en_fault env l) \<and> en_commitAs env = CommitOk"

definition deviceIsNew :: "enroll_env \<Rightarrow> uuid \<Rightarrow> DeviceEnrollment \<Rightarrow> db \<Rightarrow> bool" where
  "deviceIsNew env T e d \<longleftrightarrow>
     \<not> list_ex (\<lambda>x. dv_id x = en_newID env \<or> (dv_tenant x = T \<and>
          (dv_device_auth_pub x = de_DeviceAuthPub e \<or> dv_approval_auth_pub x = de_ApprovalAuthPub e))) (devices d)"

text \<open>
  C24: The path of a device: on a healthy connection, with the table there, which no migration creates,
  and no earlier row with the secret's hash, a ticket that was issued is accepted within its lifetime and names the tenant, user
  and challenge it was issued for. With it a device that claims a hardware security level, with keys and an
  identifier new to the tenant, is enrolled for that user under the approval key it brought if the
  bytes it sends as attestation are JSON, and nothing else about them is looked at; if they are not, as
  the CBOR chain that the struct announces is not, the insert is refused and no device is added.
\<close>

theorem issued_ticket_enrolls:
  assumes "soundCall env1" and "en_challenge env1 = Some challenge" and "ed_tickets s = Some tab"
    and "\<not> list_ex (\<lambda>r. tk_hash r = secretHash P (newSecret env1)) tab"
    and "soundCall env2" and "en_now env2 \<le> en_now env1 + ttl"
    and "soundCall env3" and "de_SecurityLevel enr = ''TEE'' \<or> de_SecurityLevel enr = ''STRONGBOX''"
    and "T \<in> set (tenants (ed_db s))" and "userExists T u (ed_db s)" and "deviceIsNew env3 T enr (ed_db s)"
  shows "let (r1, s1) = IssueEnrollmentTicket P env1 T u iss sub ttl s;
             (r2, s2) = ValidateEnrollmentTicket P env2 (newSecret env1) s1
    in (\<exists>et. r1 = Inr et \<and> et_Ticket et = newSecret env1) \<and>
       (\<exists>et. r2 = Inr et \<and> et_TenantID et = T \<and> et_UserID et = u \<and> et_Challenge et = challenge \<and>
         (let (r3, s3) = EnrollDevice G env3 et enr s2 in
            if jsonb_in G (de_DeviceAuthAttestation enr) = None
            then r3 = Inl (InsertDevice InvalidJson) \<and> devices (ed_db s3) = devices (ed_db s)
            else r3 = Inr (en_newID env3) \<and>
              map_option (\<lambda>d. (dv_user d, dv_approval_auth_pub d, dv_state d, dv_counter d))
                (find (\<lambda>d. dv_tenant d = T \<and> dv_id d = en_newID env3) (devices (ed_db s3))) =
              Some (u, de_ApprovalAuthPub enr, ''ENROLLED'', 0)))"
proof -
  let ?sec = "newSecret env1" and ?h = "secretHash P (newSecret env1)"
  let ?row = "\<lparr>tk_hash = ?h, tk_tenant = T, tk_user = u, tk_issuer = iss, tk_subject = sub, tk_challenge = challenge,
      tk_expires_at = en_now env1 + ttl, tk_used = False\<rparr>"
  let ?et = "ticketOf ?sec ?row"
  have 1: "\<exists>et. IssueEnrollmentTicket P env1 T u iss sub ttl s = (Inr et, s\<lparr>ed_tickets := Some (tab @ [?row])\<rparr>) \<and> et_Ticket et = ?sec"
    using assms(1-3) by (simp add: IssueEnrollmentTicket_def soundCall_def Let_def)
  have f: "find (\<lambda>r. tk_hash r = ?h) (tab @ [?row]) = Some ?row"
    using assms(4) by (simp add: find_append find_None_list_ex [THEN iffD2])
  have 2: "\<exists>s2. ValidateEnrollmentTicket P env2 ?sec (s\<lparr>ed_tickets := Some (tab @ [?row])\<rparr>) = (Inr ?et, s2) \<and> ed_db s2 = ed_db s"
    using assms(5,6) f by (simp add: ValidateEnrollmentTicket_def soundCall_def finish_def Let_def)
  have tk: "et_TenantID ?et = T" "et_UserID ?et = u" "et_Challenge ?et = challenge" by (simp_all add: ticketOf_def)
  have new: "\<not> list_ex (\<lambda>e. dv_id e = en_newID env3 \<or> dv_tenant e = T \<and>
      (dv_device_auth_pub e = de_DeviceAuthPub enr \<or> dv_approval_auth_pub e = de_ApprovalAuthPub enr)) (devices (ed_db s))"
    using assms(11) by (simp add: deviceIsNew_def)
  let ?dev = "\<lambda>att. (deviceOf (en_newID env3) ?et enr)\<lparr>dv_attestation := att\<rparr>"
  have ins: "insert_device G (deviceOf (en_newID env3) ?et enr) (ed_db s) =
      (case jsonb_in G (de_DeviceAuthAttestation enr) of None \<Rightarrow> Inl InvalidJson
       | Some att \<Rightarrow> Inr ((), (ed_db s)\<lparr>devices := devices (ed_db s) @ [?dev att]\<rparr>))"
    using assms(8-10) new by (auto simp: insert_device_def deviceOf_def tk split: option.splits)
  have gone: "find (\<lambda>d. dv_tenant d = T \<and> dv_id d = en_newID env3) (devices (ed_db s)) = None"
    using new by (auto simp: find_None_iff list_ex_iff)
  have key: "dv_tenant (?dev att) = T \<and> dv_id (?dev att) = en_newID env3" for att by (simp add: deviceOf_def tk)
  have 3: "EnrollDevice G env3 ?et enr s2 =
      (case jsonb_in G (de_DeviceAuthAttestation enr) of None \<Rightarrow> (Inl (InsertDevice InvalidJson), s2)
       | Some att \<Rightarrow> (Inr (en_newID env3), s2\<lparr>ed_db := (ed_db s)\<lparr>devices := devices (ed_db s) @ [?dev att]\<rparr>\<rparr>))"
    if "ed_db s2 = ed_db s" for s2
    using assms(7,8) ins that by (auto simp: EnrollDevice_def verifyAttestation_def soundCall_def split: option.splits)
  obtain et s2 where "IssueEnrollmentTicket P env1 T u iss sub ttl s = (Inr et, s\<lparr>ed_tickets := Some (tab @ [?row])\<rparr>)"
      "et_Ticket et = ?sec" "ValidateEnrollmentTicket P env2 ?sec (s\<lparr>ed_tickets := Some (tab @ [?row])\<rparr>) = (Inr ?et, s2)"
      and s2: "ed_db s2 = ed_db s" using 1 2 by blast
  moreover have "let (r3, s3) = EnrollDevice G env3 ?et enr s2 in
      if jsonb_in G (de_DeviceAuthAttestation enr) = None
      then r3 = Inl (InsertDevice InvalidJson) \<and> devices (ed_db s3) = devices (ed_db s)
      else r3 = Inr (en_newID env3) \<and>
        map_option (\<lambda>d. (dv_user d, dv_approval_auth_pub d, dv_state d, dv_counter d))
          (find (\<lambda>d. dv_tenant d = T \<and> dv_id d = en_newID env3) (devices (ed_db s3))) =
        Some (u, de_ApprovalAuthPub enr, ''ENROLLED'', 0)"
    unfolding 3 [OF s2] using s2 gone key
    by (cases "jsonb_in G (de_DeviceAuthAttestation enr)") (auto simp: find_append deviceOf_def tk)
  ultimately show ?thesis using tk by (simp add: Let_def split_beta)
qed


section \<open>Witnesses\<close>

definition demo_enroll_env :: "gotime \<Rightarrow> enroll_env" where
  "demo_enroll_env now =
     \<lparr>en_fault = (\<lambda>l. False), en_commitAs = CommitOk, en_now = now, en_returned = now, en_challenge = Some [5], en_secret = Some [1, 2, 3], en_newID = 9\<rparr>"

definition demo_secret :: string where
  "demo_secret = newSecret (demo_enroll_env 0)"

definition demo_enroll_db :: enroll_db where
  "demo_enroll_db =
     \<lparr>ed_tickets = Some [\<lparr>tk_hash = secretHash demo_prims demo_secret, tk_tenant = 1, tk_user = 2, tk_issuer = ''iss'', tk_subject = ''sub'',
         tk_challenge = [5], tk_expires_at = 50, tk_used = False\<rparr>],
      ed_tokens = Some [\<lparr>bt_hash = secretHash demo_prims demo_secret, bt_tenant = 1, bt_tailnet_id = ''tn'', bt_ts_stable_node_id = ''n1'',
         bt_expires_at = 50, bt_issued_by = 2, bt_used = False\<rparr>],
      ed_db = emptyDb\<lparr>tenants := [1], users := [\<lparr>u_tenant = 1, u_id = 2, u_issuer = ''iss'', u_subject = ''sub''\<rparr>]\<rparr>\<rparr>"

lemma demo_validated:
  "\<exists>et s1. ValidateEnrollmentTicket demo_prims (demo_enroll_env 10) demo_secret demo_enroll_db = (Inr et, s1)"
  by (simp add: ValidateEnrollmentTicket_def demo_enroll_env_def demo_enroll_db_def finish_def Let_def)

theorem ticket_single_use_witness:
  "\<exists>et s1 e. ValidateEnrollmentTicket demo_prims (demo_enroll_env 10) demo_secret demo_enroll_db = (Inr et, s1) \<and>
     ValidateEnrollmentTicket demo_prims (demo_enroll_env 11) demo_secret s1 = (Inl e, s1)"
proof -
  obtain et s1 where v: "ValidateEnrollmentTicket demo_prims (demo_enroll_env 10) demo_secret demo_enroll_db = (Inr et, s1)"
    using demo_validated by blast
  from ticket_single_use [OF v rtranclp.rtrancl_refl, of "demo_enroll_env 11"] v show ?thesis by blast
qed

lemma demo_registered:
  "\<exists>s1. RegisterNode demo_prims (demo_enroll_env 10) demo_secret ''tn'' ''n1'' [] demo_enroll_db = (Inr 9, s1)"
  by (simp add: RegisterNode_def demo_enroll_env_def demo_enroll_db_def finish_def Let_def insert_node_def nodeOf_def emptyDb_def)

theorem bootstrap_single_use_witness:
  "\<exists>s1 e. RegisterNode demo_prims (demo_enroll_env 10) demo_secret ''tn'' ''n1'' [] demo_enroll_db = (Inr 9, s1) \<and>
     RegisterNode demo_prims (demo_enroll_env 11) demo_secret ''tn'' ''n1'' [] s1 = (Inl e, s1)"
proof -
  obtain s1 where v: "RegisterNode demo_prims (demo_enroll_env 10) demo_secret ''tn'' ''n1'' [] demo_enroll_db = (Inr 9, s1)"
    using demo_registered by blast
  from bootstrap_single_use [OF v rtranclp.rtrancl_refl, of "demo_enroll_env 11" "''tn''" "''n1''" "[]"] v show ?thesis by blast
qed

definition demo_enrollment :: DeviceEnrollment where
  "demo_enrollment = \<lparr>de_DeviceAuthPub = [1], de_ApprovalAuthPub = [2], de_DeviceAuthAttestation = [3],
     de_ApprovalAuthAttestation = [4], de_SecurityLevel = ''TEE''\<rparr>"

definition demo_json_pg :: pg where
  "demo_json_pg = \<lparr>jsonb_in = Some, inet_ok = (\<lambda>s. True), epoch_text = (\<lambda>t. []), aggregate_for_update = False,
     nil_is_null = True, uuid_in = (\<lambda>s. None)\<rparr>"

theorem issued_ticket_enrolls_witness:
  "\<exists>et. fst (IssueEnrollmentTicket demo_prims (demo_enroll_env 10) 1 2 ''iss'' ''sub'' 60
       (demo_enroll_db\<lparr>ed_tickets := Some []\<rparr>)) = Inr et \<and> et_Ticket et = demo_secret"
proof -
  have s: "newSecret (demo_enroll_env 10) = demo_secret" by (simp add: demo_secret_def newSecret_def demo_enroll_env_def)
  have "soundCall (demo_enroll_env n)" for n by (simp add: soundCall_def demo_enroll_env_def)
  then show ?thesis
    using issued_ticket_enrolls [of "demo_enroll_env 10" "[5]" "demo_enroll_db\<lparr>ed_tickets := Some []\<rparr>" "[]" demo_prims "demo_enroll_env 20" 60
        "demo_enroll_env 30" demo_enrollment 1 2 "''iss''" "''sub''" demo_json_pg]
    by (simp add: s split_beta Let_def demo_enrollment_def demo_json_pg_def deviceIsNew_def userExists_def)
      (simp add: demo_enroll_env_def demo_enroll_db_def emptyDb_def)
qed

end
