(* ===== verification/RateLimit.thy ===== *)
theory RateLimit
  imports Prelude Complex_Main "HOL-Library.Log_Nat"
begin

text \<open>
  \<open>service/internal/ratelimit/limiter.go\<close>: the hierarchical limiter over a \<open>BucketStore\<close> and the two
  stores of the repository. The Valkey store of production is not in the repository; the limiter is a
  function of whatever store it is given. The in-memory store refills its buckets in \<open>float64\<close>, which is
  modelled as rationals rounded to 53 binary digits after every operation: values stay far from the
  ends of the exponent's range. A conversion to \<open>int\<close> out of range is not modelled.
\<close>

section \<open>Floating point\<close>

definition pow2 :: "int \<Rightarrow> rat" where
  "pow2 k = (if 0 \<le> k then 2 ^ nat k else 1 / 2 ^ nat (- k))"

text \<open>The exponent of the leading binary digit of a positive number.\<close>

definition ilog2 :: "rat \<Rightarrow> int" where
  "ilog2 x = (case quotient_of x of (n, d) \<Rightarrow>
     let b = bitlen n - bitlen d in if pow2 b \<le> x then b else b - 1)"

text \<open>To the nearest integer, ties to even.\<close>

definition roundEven :: "rat \<Rightarrow> int" where
  "roundEven y =
    (let f = floor y in
     if y - of_int f < 1 / 2 then f else if y - of_int f > 1 / 2 then f + 1 else if even f then f else f + 1)"

definition roundPos :: "rat \<Rightarrow> rat" where
  "roundPos x = (let u = pow2 (ilog2 x - 52) in u * of_int (roundEven (x / u)))"

definition float64 :: "rat \<Rightarrow> rat" where
  "float64 x = (if x = 0 then 0 else if x < 0 then - roundPos (- x) else roundPos x)"

text \<open>\<open>int(f)\<close> truncates.\<close>

definition goTrunc :: "rat \<Rightarrow> int" where
  "goTrunc x = (if 0 \<le> x then floor x else ceiling x)"

lemma pow2_pos [simp]: "0 < pow2 k"
  by (simp add: pow2_def)

lemma pow2_nonneg [simp]: "0 \<le> pow2 k" "pow2 k \<noteq> 0"
  using pow2_pos [of k] by linarith+

lemma pow2_add: "pow2 (a + b) = pow2 a * pow2 b"
proof -
  have "pow2 k = 2 powi k" for k unfolding pow2_def power_int_def inverse_eq_divide by (simp add: power_one_over)
  then show ?thesis by (simp add: power_int_add)
qed

lemma pow2_ilog2_le:
  assumes "0 < x"
  shows "pow2 (ilog2 x) \<le> x"
proof -
  obtain n d where q: "quotient_of x = (n, d)" by fastforce
  have d: "0 < d" using quotient_of_denom_pos [OF q] .
  have x: "x = of_int n / of_int d" using quotient_of_div [OF q] .
  have n: "0 < n" using assms d unfolding x by (simp add: zero_less_divide_iff)
  let ?b = "bitlen n - bitlen d"
  have bn: "2 ^ nat (bitlen n - 1) \<le> n" and bd: "d < 2 ^ nat (bitlen d)"
    using bitlen_bounds [OF n] bitlen_bounds [OF d] by simp_all
  have nn: "0 < bitlen n" "0 < bitlen d"
    using n d bitlen_eq_zero_iff [of n] bitlen_eq_zero_iff [of d] bitlen_nonneg [of n] bitlen_nonneg [of d] by linarith+
  have e: "pow2 (?b - 1) * pow2 (bitlen d) = pow2 (bitlen n - 1)" by (simp flip: pow2_add)
  have "pow2 (?b - 1) * of_int d \<le> pow2 (?b - 1) * pow2 (bitlen d)"
    using bd nn by (intro mult_left_mono) (simp_all add: pow2_def flip: of_int_power_le_of_int_cancel_iff)
  also have "\<dots> \<le> of_int n" unfolding e using bn nn by (simp add: pow2_def)
  finally have "pow2 (?b - 1) \<le> x" using d unfolding x by (simp add: le_divide_eq)
  then show ?thesis by (simp add: ilog2_def q Let_def)
qed


lemma roundEven_bounds: "of_int (roundEven y) \<le> y + 1 / 2" "y - 1 / 2 \<le> of_int (roundEven y)"
proof -
  obtain f :: int where f: "f = floor y" by simp
  have b: "of_int f \<le> y" "y < of_int f + 1" unfolding f by linarith+
  show "of_int (roundEven y) \<le> y + 1 / 2" "y - 1 / 2 \<le> of_int (roundEven y)"
    using b unfolding roundEven_def Let_def f [symmetric] by auto
qed

text \<open>The relative error of one operation is at most \<open>2 ^ -53\<close>.\<close>

lemma roundPos_bounds:
  assumes "0 < x"
  shows "roundPos x \<le> x * (1 + 1 / 2 ^ 53)" and "x * (1 - 1 / 2 ^ 53) \<le> roundPos x"
proof -
  let ?u = "pow2 (ilog2 x - 52)"
  have u: "0 < ?u" by simp
  have "?u * pow2 52 = pow2 (ilog2 x)" by (simp flip: pow2_add)
  then have "?u * 2 ^ 52 \<le> x" using pow2_ilog2_le [OF assms] by (simp add: pow2_def)
  then have half: "?u / 2 \<le> x / 2 ^ 53" by simp
  have hi: "roundPos x \<le> ?u * (x / ?u + 1 / 2)"
    unfolding roundPos_def Let_def using u roundEven_bounds(1) [of "x / ?u"] by (intro mult_left_mono) simp_all
  have lo: "?u * (x / ?u - 1 / 2) \<le> roundPos x"
    unfolding roundPos_def Let_def using u roundEven_bounds(2) [of "x / ?u"] by (intro mult_left_mono) simp_all
  have e: "?u * (x / ?u + 1 / 2) = x + ?u / 2" "?u * (x / ?u - 1 / 2) = x - ?u / 2"
    using u by (simp_all add: distrib_left right_diff_distrib)
  show "roundPos x \<le> x * (1 + 1 / 2 ^ 53)" using hi half unfolding e(1) by (simp add: distrib_left)
  show "x * (1 - 1 / 2 ^ 53) \<le> roundPos x" using lo half unfolding e(2) by (simp add: right_diff_distrib)
qed

lemma float64_bounds:
  assumes "0 \<le> x"
  shows "float64 x \<le> x * (1 + 1 / 2 ^ 53)" and "x * (1 - 1 / 2 ^ 53) \<le> float64 x" and "0 \<le> float64 x"
proof -
  show lo: "x * (1 - 1 / 2 ^ 53) \<le> float64 x" and "float64 x \<le> x * (1 + 1 / 2 ^ 53)"
    using assms roundPos_bounds [of x] by (auto simp: float64_def)
  have "0 \<le> x * (1 - 1 / 2 ^ 53)" using assms by simp
  with lo show "0 \<le> float64 x" by linarith
qed

lemma float64_nonpos: "x \<le> 0 \<Longrightarrow> float64 x \<le> 0"
  using float64_bounds(3) [of "- x"] by (auto simp: float64_def split: if_splits)


section \<open>The limiter\<close>

record rate_config =
  rl_Enabled :: bool
  rl_ApprovalsPerMinuteUser :: int
  rl_ApprovalsPerMinuteSrcNode :: int
  rl_ApprovalsPerMinuteProtectedNode :: int
  rl_ApprovalsPerMinuteTenant :: int
  rl_ApprovalsPerMinuteGlobal :: int
  rl_MaxPendingPerUser :: int
  rl_MaxPromptsPerMinuteDevice :: int
  rl_MaxPendingConnectionsResource :: int
  rl_MaxPendingConnectionsNode :: int
  rl_MaxPreApprovalBytes :: int
  rl_MaxPreApprovalMemoryNode :: int
  rl_TenantFairSharePercent :: int

definition ratelimit_DefaultConfig :: rate_config where
  "ratelimit_DefaultConfig =
     \<lparr>rl_Enabled = True, rl_ApprovalsPerMinuteUser = 20, rl_ApprovalsPerMinuteSrcNode = 60,
      rl_ApprovalsPerMinuteProtectedNode = 300, rl_ApprovalsPerMinuteTenant = 1000, rl_ApprovalsPerMinuteGlobal = 10000,
      rl_MaxPendingPerUser = 5, rl_MaxPromptsPerMinuteDevice = 3, rl_MaxPendingConnectionsResource = 100,
      rl_MaxPendingConnectionsNode = 10000, rl_MaxPreApprovalBytes = 65536, rl_MaxPreApprovalMemoryNode = 268435456,
      rl_TenantFairSharePercent = 25\<rparr>"

text \<open>The interface \<open>BucketStore\<close>: \<open>Allow\<close> by the clock, the key, rate, burst and period, and \<open>Ping\<close>.\<close>

record ('s, 'e) BucketStore =
  bs_Allow :: "gotime \<Rightarrow> string \<Rightarrow> int \<Rightarrow> int \<Rightarrow> duration \<Rightarrow> 's \<Rightarrow> ('e + bool \<times> int \<times> gotime) \<times> 's"
  bs_Ping :: "'s \<Rightarrow> 'e + unit"

datatype 'e rate_error =
    StoreUnavailable 'e
  | CheckFailed string 'e
  | LimitExceeded string int
  | MaxPendingUser int
  | MaxPendingResource int
  | MaxPendingNode int

text \<open>The levels in order, with their keys and rates.\<close>

definition rateChecks :: "rate_config \<Rightarrow> string \<Rightarrow> string \<Rightarrow> string \<Rightarrow> string \<Rightarrow> string \<Rightarrow> (string \<times> string \<times> int) list" where
  "rateChecks cfg tenantID userID srcNodeID protectedNodeID deviceID =
     [(''global'', ''ratelimit:approval:global'', rl_ApprovalsPerMinuteGlobal cfg),
      (''tenant'', ''ratelimit:approval:tenant:'' @ tenantID, rl_ApprovalsPerMinuteTenant cfg),
      (''user'', ''ratelimit:approval:user:'' @ tenantID @ '':'' @ userID, rl_ApprovalsPerMinuteUser cfg),
      (''src_node'', ''ratelimit:approval:src_node:'' @ tenantID @ '':'' @ srcNodeID, rl_ApprovalsPerMinuteSrcNode cfg),
      (''protected_node'', ''ratelimit:approval:node:'' @ tenantID @ '':'' @ protectedNodeID, rl_ApprovalsPerMinuteProtectedNode cfg),
      (''device_prompt'', ''ratelimit:prompt:device:'' @ tenantID @ '':'' @ deviceID, rl_MaxPromptsPerMinuteDevice cfg)]"

text \<open>The loop; \<open>now i\<close> is the clock at its \<open>i\<close>-th call of the store.\<close>

fun runChecks ::
  "('s, 'e) BucketStore \<Rightarrow> (nat \<Rightarrow> gotime) \<Rightarrow> nat \<Rightarrow> (string \<times> string \<times> int) list \<Rightarrow> 's \<Rightarrow> ('e rate_error + unit) \<times> 's" where
  "runChecks B now i [] s = (Inr (), s)"
| "runChecks B now i ((name, key, rate) # checks) s =
    (case bs_Allow B (now i) key rate rate minute s of
       (Inl e, s') \<Rightarrow> (Inl (CheckFailed name e), s')
     | (Inr (allowed, remaining, resetAt), s') \<Rightarrow>
         if \<not> allowed then (Inl (LimitExceeded name remaining), s') else runChecks B now (Suc i) checks s')"

definition CheckApprovalRate ::
  "('s, 'e) BucketStore \<Rightarrow> rate_config \<Rightarrow> (nat \<Rightarrow> gotime) \<Rightarrow> string \<Rightarrow> string \<Rightarrow> string \<Rightarrow> string \<Rightarrow> string \<Rightarrow> string \<Rightarrow> 's
     \<Rightarrow> ('e rate_error + unit) \<times> 's" where
  "CheckApprovalRate B cfg now tenantID userID srcNodeID protectedNodeID deviceID sourceIP s =
    (if \<not> rl_Enabled cfg then (Inr (), s)
     else case bs_Ping B s of
       Inl e \<Rightarrow> (Inl (StoreUnavailable e), s)
     | Inr u \<Rightarrow> runChecks B now 0 (rateChecks cfg tenantID userID srcNodeID protectedNodeID deviceID) s)"

definition CheckPendingLimit :: "rate_config \<Rightarrow> int \<Rightarrow> 'e rate_error + unit" where
  "CheckPendingLimit cfg currentPending =
     (if \<not> rl_Enabled cfg then Inr ()
      else reject (currentPending \<ge> rl_MaxPendingPerUser cfg) (MaxPendingUser (rl_MaxPendingPerUser cfg)) (Inr ()))"

definition CheckHeldConnectionLimit :: "rate_config \<Rightarrow> int \<Rightarrow> int \<Rightarrow> 'e rate_error + unit" where
  "CheckHeldConnectionLimit cfg currentPendingPerResource currentPendingPerNode =
     (if \<not> rl_Enabled cfg then Inr ()
      else
      reject (currentPendingPerResource \<ge> rl_MaxPendingConnectionsResource cfg)
        (MaxPendingResource (rl_MaxPendingConnectionsResource cfg)) (
      reject (currentPendingPerNode \<ge> rl_MaxPendingConnectionsNode cfg) (MaxPendingNode (rl_MaxPendingConnectionsNode cfg)) (
      Inr ())))"


section \<open>The stores\<close>

record tokenBucket =
  tb_tokens :: int
  tb_lastRefill :: gotime

type_synonym InMemoryStore = "string \<rightharpoonup> tokenBucket"

definition NewInMemoryStore :: InMemoryStore where
  "NewInMemoryStore = Map.empty"

definition tokensToAdd :: "duration \<Rightarrow> duration \<Rightarrow> int \<Rightarrow> int" where
  "tokensToAdd elapsed period rate =
     goTrunc (float64 (float64 (float64 (of_int elapsed) / float64 (of_int period)) * float64 (of_int rate)))"

definition refill :: "gotime \<Rightarrow> int \<Rightarrow> int \<Rightarrow> duration \<Rightarrow> tokenBucket \<Rightarrow> tokenBucket" where
  "refill now rate burst period b =
    (let add = tokensToAdd (timeSub now (tb_lastRefill b)) period rate in
     if add > 0 then
       (let tokens = wrap64 (tb_tokens b + add)
        in \<lparr>tb_tokens = (if tokens > burst then burst else tokens), tb_lastRefill = now\<rparr>)
     else b)"

definition InMemoryStore_Allow ::
  "gotime \<Rightarrow> string \<Rightarrow> int \<Rightarrow> int \<Rightarrow> duration \<Rightarrow> InMemoryStore \<Rightarrow> ('e + bool \<times> int \<times> gotime) \<times> InMemoryStore" where
  "InMemoryStore_Allow now key rate burst period s =
    (let bucket = (case s key of None \<Rightarrow> \<lparr>tb_tokens = burst, tb_lastRefill = now\<rparr> | Some b \<Rightarrow> b);
         b1 = refill now rate burst period bucket
     in if tb_tokens b1 > 0
        then (let b2 = b1\<lparr>tb_tokens := tb_tokens b1 - 1\<rparr> in (Inr (True, tb_tokens b2, now + period), s(key \<mapsto> b2)))
        else (Inr (False, 0, now + period), s(key \<mapsto> b1)))"

definition inMemoryStore :: "(InMemoryStore, 'e) BucketStore" where
  "inMemoryStore = \<lparr>bs_Allow = InMemoryStore_Allow, bs_Ping = (\<lambda>s. Inr ())\<rparr>"

lemma inMemoryStore_Ping [simp]: "bs_Ping inMemoryStore s = Inr ()"
  by (simp add: inMemoryStore_def)

definition NoOpStore_Allow :: "gotime \<Rightarrow> string \<Rightarrow> int \<Rightarrow> int \<Rightarrow> duration \<Rightarrow> unit \<Rightarrow> ('e + bool \<times> int \<times> gotime) \<times> unit" where
  "NoOpStore_Allow now key rate burst period s = (Inr (True, rate, now + period), s)"

definition noOpStore :: "(unit, 'e) BucketStore" where
  "noOpStore = \<lparr>bs_Allow = NoOpStore_Allow, bs_Ping = (\<lambda>s. Inr ())\<rparr>"


section \<open>How much a bucket is refilled\<close>

text \<open>What a bucket of the rate gains per unit of time, rounding errors included.\<close>

definition gain :: "int \<Rightarrow> rat" where
  "gain rate = of_int rate / of_int minute * (1 + 1 / 2 ^ 50)"

lemma gain_nonneg [simp]: "0 \<le> rate \<Longrightarrow> 0 \<le> gain rate"
  by (simp add: gain_def time_defs)

lemma rounding_factor: "(1 + 1 / 2 ^ 53) ^ 4 / (1 - 1 / 2 ^ 53) \<le> (1 + 1 / 2 ^ 50 :: rat)"
  by (simp add: field_simps)

lemma tokensToAdd_bound:
  assumes "0 \<le> elapsed" "0 \<le> rate"
  shows "of_int (tokensToAdd elapsed minute rate) \<le> of_int elapsed * gain rate"
proof -
  define u :: rat where "u = 1 / 2 ^ 53"
  have u: "0 < u" "u < 1" by (simp_all add: u_def)
  note bounds = float64_bounds [folded u_def]
  let ?e = "of_int elapsed :: rat" and ?p = "of_int minute :: rat" and ?r = "of_int rate :: rat"
  have p: "0 < ?p" by (simp add: time_defs)
  have fp: "?p * (1 - u) \<le> float64 ?p" "0 < ?p * (1 - u)" using bounds(2) [of ?p] p u by simp_all
  have fe: "0 \<le> float64 ?e" "float64 ?e \<le> ?e * (1 + u)" using bounds [of ?e] assms(1) by simp_all
  have fr: "0 \<le> float64 ?r" "float64 ?r \<le> ?r * (1 + u)" using bounds [of ?r] assms(2) by simp_all
  define q where "q = float64 ?e / float64 ?p"
  have "0 \<le> ?e * (1 + u)" using assms(1) u by simp
  then have q: "0 \<le> q" "q \<le> ?e * (1 + u) / (?p * (1 - u))"
    unfolding q_def using fe fp by (auto intro: divide_nonneg_nonneg frac_le)
  have fq: "0 \<le> float64 q" "float64 q \<le> q * (1 + u)" using bounds [OF q(1)] by simp_all
  let ?m = "float64 q * float64 ?r"
  have m: "0 \<le> ?m" "?m \<le> (q * (1 + u)) * (?r * (1 + u))"
    using fq fr q u by (auto intro!: mult_mono)
  have "float64 ?m \<le> ?m * (1 + u)" using bounds(1) [OF m(1)] .
  also have "\<dots> \<le> (q * (1 + u)) * (?r * (1 + u)) * (1 + u)" using m(2) u by (intro mult_right_mono) simp_all
  also have "\<dots> \<le> (?e * (1 + u) / (?p * (1 - u)) * (1 + u)) * (?r * (1 + u)) * (1 + u)"
    using q(2) assms(2) u by (intro mult_right_mono) simp_all
  also have "\<dots> = ?e * ?r / ?p * ((1 + u) ^ 4 / (1 - u))" by (simp add: power4_eq_xxxx)
  also have "\<dots> \<le> ?e * ?r / ?p * (1 + 1 / 2 ^ 50)"
    using rounding_factor assms p unfolding u_def by (intro mult_left_mono) (simp_all add: divide_nonneg_nonneg)
  finally have "float64 ?m \<le> ?e * gain rate" by (simp add: gain_def)
  moreover have "of_int (tokensToAdd elapsed minute rate) \<le> float64 ?m"
    using bounds(3) [OF m(1)] by (simp add: tokensToAdd_def goTrunc_def q_def)
  ultimately show ?thesis by linarith
qed

lemma timeSub_bounds: "u \<le> t \<Longrightarrow> 0 \<le> timeSub t u \<and> timeSub t u \<le> t - u"
  by (simp add: timeSub_def)

lemma tokensToAdd_zero [simp]: "tokensToAdd 0 period rate = 0"
  by (simp add: tokensToAdd_def float64_def goTrunc_def)

lemma wrap64_le: "- (2 ^ 63) \<le> x \<Longrightarrow> wrap64 x \<le> x"
proof -
  assume "- (2 ^ 63) \<le> x"
  then have "0 \<le> x + 2 ^ 63" by simp
  then have "(x + 2 ^ 63) mod 2 ^ 64 \<le> x + 2 ^ 63" by (rule zmod_le_nonneg_dividend)
  then show ?thesis by (simp add: wrap64_def)
qed


section \<open>The contract of a store\<close>

text \<open>A call on one bucket leaves what can be seen of the others alone.\<close>

locale bucket_store =
  fixes B :: "('s, 'e) BucketStore" and view :: "'s \<Rightarrow> string \<Rightarrow> 'b"
  assumes frame: "bs_Allow B now k rate burst period s = (res, s') \<Longrightarrow> k' \<noteq> k \<Longrightarrow> view s' k' = view s k'"
begin

lemma checks_frame:
  "runChecks B now i checks s = (res, s') \<Longrightarrow> k \<notin> (\<lambda>(n, key, r). key) ` set checks \<Longrightarrow> view s' k = view s k"
proof (induction checks arbitrary: i s)
  case (Cons c checks)
  obtain name key rate where c: "c = (name, key, rate)" by (cases c)
  obtain r s1 where a: "bs_Allow B (now i) key rate rate minute s = (r, s1)" by fastforce
  have k: "k \<noteq> key" "k \<notin> (\<lambda>(n, key, r). key) ` set checks" using Cons.prems(2) c by auto
  have v: "view s1 k = view s k" using frame [OF a k(1)] .
  show ?case
  proof (cases "s' = s1")
    case False
    then have "runChecks B now (Suc i) checks s1 = (res, s')"
      using Cons.prems(1) a c by (auto split: sum.splits prod.splits if_splits)
    from Cons.IH [OF this k(2)] v show ?thesis by simp
  qed (use v in simp)
qed simp

end

text \<open>
  A store that limits: \<open>credit R t\<close> of a bucket with rate and burst \<open>R\<close> bounds what it can still hand
  out at the instant \<open>t\<close>. A call that is allowed costs one unit, waiting gains at the bucket's rate.
\<close>

definition granted :: "'e + bool \<times> int \<times> gotime \<Rightarrow> rat" where
  "granted res = (case res of Inr (True, r, t) \<Rightarrow> 1 | _ \<Rightarrow> 0)"

locale limiting_store = bucket_store B view for B :: "('s, 'e) BucketStore" and view :: "'s \<Rightarrow> string \<Rightarrow> 'b" +
  fixes credit :: "int \<Rightarrow> gotime \<Rightarrow> 'b \<Rightarrow> rat" and ok :: "gotime \<Rightarrow> 's \<Rightarrow> bool"
  assumes ok_later: "ok t s \<Longrightarrow> t \<le> t' \<Longrightarrow> ok t' s"
    and ok_Allow: "ok now s \<Longrightarrow> 0 \<le> R \<Longrightarrow> bs_Allow B now k R R minute s = (res, s') \<Longrightarrow> ok now s'"
    and charge: "ok now s \<Longrightarrow> 0 \<le> R \<Longrightarrow> bs_Allow B now k R R minute s = (res, s') \<Longrightarrow>
      credit R now (view s' k) + granted res \<le> credit R now (view s k)"
    and growth: "ok t s \<Longrightarrow> 0 \<le> R \<Longrightarrow> t \<le> t' \<Longrightarrow> credit R t' (view s k) \<le> credit R t (view s k) + of_int (t' - t) * gain R"
    and nonneg: "ok t s \<Longrightarrow> 0 \<le> R \<Longrightarrow> 0 \<le> credit R t (view s k)"
begin

text \<open>One call of the store, seen from the bucket \<open>K\<close>.\<close>

lemma one_call:
  assumes "ok t s" "t \<le> now" "0 \<le> rate" "0 \<le> R" "key = K \<Longrightarrow> rate = R" "bs_Allow B now key rate rate minute s = (res, s')"
  shows "ok now s' \<and>
    credit R now (view s' K) + (if key = K then granted res else 0) \<le> credit R t (view s K) + of_int (now - t) * gain R"
proof -
  have n: "ok now s" using ok_later assms(1,2) .
  have "credit R now (view s' K) + (if key = K then granted res else 0) \<le> credit R now (view s K)"
    using charge [OF n assms(4)] frame [OF assms(6)] assms(5,6) by (cases "key = K") auto
  with growth [OF assms(1,4,2), of K] ok_Allow [OF n assms(3,6)] show ?thesis by linarith
qed

lemma checks_credit:
  assumes "runChecks B now i checks s = (res, s')" "ok t s" "0 \<le> R"
    and "t \<le> now i" "\<And>j. now j \<le> now (Suc j)" "list_all (\<lambda>(n, k, r). 0 \<le> r \<and> (k = K \<longrightarrow> r = R)) checks"
    and "now (i + length checks) \<le> T"
  shows "ok T s' \<and>
    credit R T (view s' K) + (if res = Inr () then of_nat (length (filter (\<lambda>(n, k, r). k = K) checks)) else 0)
      \<le> credit R t (view s K) + of_int (T - t) * gain R"
  using assms
proof (induction checks arbitrary: i s t)
  case Nil
  then show ?case using growth [of t s R T K] ok_later [of t s T] by simp
next
  case (Cons c checks)
  obtain name key rate where c: "c = (name, key, rate)" by (cases c)
  have r: "0 \<le> rate" "key = K \<Longrightarrow> rate = R" using Cons.prems(6) c by simp_all
  obtain a s1 where a: "bs_Allow B (now i) key rate rate minute s = (a, s1)" by fastforce
  have step: "ok (now i) s1 \<and>
      credit R (now i) (view s1 K) + (if key = K then granted a else 0) \<le> credit R t (view s K) + of_int (now i - t) * gain R"
    by (rule one_call [OF Cons.prems(2,4) r(1) Cons.prems(3) _ a]) (rule r(2))
  have later: "now i \<le> now (Suc i)" by (rule Cons.prems(5))
  have "now (Suc i) \<le> now (Suc i + length checks)" by (rule lift_Suc_mono_le [of now]) (rule Cons.prems(5), simp)
  then have iT: "now i \<le> T" using Cons.prems(7) later by simp
  show ?case
  proof (cases "\<exists>x. a = Inr (True, x)")
    case True
    then have rest: "runChecks B now (Suc i) checks s1 = (res, s')" using Cons.prems(1) a c by auto
    have "granted a = 1" using True by (auto simp: granted_def)
    moreover have "ok T s' \<and>
        credit R T (view s' K) + (if res = Inr () then of_nat (length (filter (\<lambda>(n, k, r). k = K) checks)) else 0)
          \<le> credit R (now i) (view s1 K) + of_int (T - now i) * gain R"
      by (rule Cons.IH [OF rest]) (use step Cons.prems later c in auto)
    ultimately show ?thesis using step c by (auto simp: of_int_diff left_diff_distrib)
  next
    case False
    then have "s' = s1" "res \<noteq> Inr ()" using Cons.prems(1) a c by (auto split: sum.splits prod.splits if_splits)
    moreover have "0 \<le> granted a" by (simp add: granted_def split: sum.splits prod.splits bool.splits)
    moreover have "credit R T (view s1 K) \<le> credit R (now i) (view s1 K) + of_int (T - now i) * gain R" "ok T s1"
      using growth [OF _ Cons.prems(3) iT] ok_later [OF _ iT] step by blast+
    ultimately show ?thesis using step by (auto simp: of_int_diff left_diff_distrib split: if_splits)
  qed
qed

end


section \<open>The stores keep the contract\<close>

text \<open>What a bucket of the in-memory store can still hand out at an instant.\<close>

definition bucketCredit :: "int \<Rightarrow> gotime \<Rightarrow> tokenBucket option \<Rightarrow> rat" where
  "bucketCredit R t b =
    (case b of None \<Rightarrow> of_int (max 0 R)
     | Some b \<Rightarrow> of_int (max 0 (tb_tokens b)) + of_int (t - tb_lastRefill b) * gain R)"

definition storeOK :: "gotime \<Rightarrow> InMemoryStore \<Rightarrow> bool" where
  "storeOK t s \<longleftrightarrow> (\<forall>k b. s k = Some b \<longrightarrow> tb_lastRefill b \<le> t \<and> - (2 ^ 63) \<le> tb_tokens b)"

definition bucketOf :: "gotime \<Rightarrow> int \<Rightarrow> tokenBucket option \<Rightarrow> tokenBucket" where
  "bucketOf now burst b = (case b of None \<Rightarrow> \<lparr>tb_tokens = burst, tb_lastRefill = now\<rparr> | Some b \<Rightarrow> b)"

lemma refill_credit:
  assumes "tb_lastRefill b \<le> now" "- (2 ^ 63) \<le> tb_tokens b" "0 \<le> R"
  shows "bucketCredit R now (Some (refill now R R minute b)) \<le> bucketCredit R now (Some b)"
    and "tb_lastRefill (refill now R R minute b) \<le> now" and "- (2 ^ 63) \<le> tb_tokens (refill now R R minute b)"
proof -
  let ?add = "tokensToAdd (timeSub now (tb_lastRefill b)) minute R"
  have sub: "0 \<le> timeSub now (tb_lastRefill b)" "timeSub now (tb_lastRefill b) \<le> now - tb_lastRefill b"
    using timeSub_bounds [OF assms(1)] by simp_all
  have "of_int ?add \<le> of_int (timeSub now (tb_lastRefill b)) * gain R" using tokensToAdd_bound [OF sub(1) assms(3)] .
  also have "\<dots> \<le> of_int (now - tb_lastRefill b) * gain R"
    using sub(2) assms(3) by (intro mult_right_mono) (simp_all only: of_int_le_iff gain_nonneg)
  finally have add: "of_int ?add \<le> of_int (now - tb_lastRefill b) * gain R" .
  have w: "wrap64 (tb_tokens b + ?add) \<le> max 0 (tb_tokens b) + ?add" if "0 < ?add"
    using wrap64_le [of "tb_tokens b + ?add"] that assms(2) by linarith
  show "bucketCredit R now (Some (refill now R R minute b)) \<le> bucketCredit R now (Some b)"
  proof (cases "0 < ?add")
    case True
    let ?n = "if wrap64 (tb_tokens b + ?add) > R then R else wrap64 (tb_tokens b + ?add)"
    have "max 0 ?n \<le> max 0 (tb_tokens b) + ?add" using w [OF True] True by auto
    then have "of_int (max 0 ?n) \<le> (of_int (max 0 (tb_tokens b) + ?add) :: rat)" by (rule of_int_le_iff [THEN iffD2])
    with add show ?thesis using True by (simp add: bucketCredit_def refill_def Let_def)
  qed (simp add: refill_def)
  have "- (2 ^ 63) \<le> wrap64 x" for x using inInt64_wrap64 [of x] by (simp add: inInt64_def)
  then show "tb_lastRefill (refill now R R minute b) \<le> now" "- (2 ^ 63) \<le> tb_tokens (refill now R R minute b)"
    using assms by (auto simp: refill_def Let_def)
qed

text \<open>The bucket after a call, and its result.\<close>

lemma Allow_bucket:
  assumes "InMemoryStore_Allow now k R R minute s = (res, s')"
  defines "b1 \<equiv> refill now R R minute (bucketOf now R (s k))"
  shows "s' = s(k \<mapsto> if 0 < tb_tokens b1 then b1\<lparr>tb_tokens := tb_tokens b1 - 1\<rparr> else b1) \<and>
    granted res = (if 0 < tb_tokens b1 then 1 else 0)"
  using assms by (auto simp: InMemoryStore_Allow_def bucketOf_def granted_def Let_def)

lemma Allow_credit:
  assumes "storeOK now s" "0 \<le> R" "InMemoryStore_Allow now k R R minute s = (res, s')"
  shows "bucketCredit R now (s' k) + granted res \<le> bucketCredit R now (s k) \<and> storeOK now s'"
proof -
  let ?b = "bucketOf now R (s k)"
  let ?b1 = "refill now R R minute ?b"
  have b: "tb_lastRefill ?b \<le> now" "- (2 ^ 63) \<le> tb_tokens ?b"
    using assms(1,2) by (auto simp: bucketOf_def storeOK_def split: option.splits)
  note r = refill_credit [OF b assms(2)]
  have "bucketCredit R now (Some ?b) = bucketCredit R now (s k)" by (simp add: bucketCredit_def bucketOf_def split: option.splits)
  with r(1) have c: "bucketCredit R now (Some ?b1) \<le> bucketCredit R now (s k)" by simp
  have s': "s' = s(k \<mapsto> if 0 < tb_tokens ?b1 then ?b1\<lparr>tb_tokens := tb_tokens ?b1 - 1\<rparr> else ?b1)"
    and g: "granted res = (if 0 < tb_tokens ?b1 then 1 else 0)" using Allow_bucket [OF assms(3)] by simp_all
  have "bucketCredit R now (s' k) + granted res \<le> bucketCredit R now (Some ?b1)"
    unfolding s' g by (auto simp: bucketCredit_def)
  moreover have "storeOK now s'" using assms(1) r(2,3) unfolding s' storeOK_def by auto
  ultimately show ?thesis using c by linarith
qed

interpretation noop: bucket_store noOpStore "\<lambda>s k. ()"
  by unfold_locales simp

interpretation mem: bucket_store inMemoryStore "\<lambda>s. s"
  by unfold_locales (auto simp: inMemoryStore_def InMemoryStore_Allow_def Let_def split: if_splits)

interpretation mem: limiting_store inMemoryStore "\<lambda>s. s" bucketCredit storeOK
proof unfold_locales
  fix t t' :: gotime and s :: InMemoryStore
  assume "storeOK t s" "t \<le> t'"
  then show "storeOK t' s" unfolding storeOK_def by fastforce
next
  fix now R k s and res :: "'e + bool \<times> int \<times> gotime" and s'
  assume a: "storeOK now s" "0 \<le> R" "bs_Allow inMemoryStore now k R R minute s = (res, s')"
  then have e: "InMemoryStore_Allow now k R R minute s = (res, s')" by (simp add: inMemoryStore_def)
  show "storeOK now s'" "bucketCredit R now (s' k) + granted res \<le> bucketCredit R now (s k)"
    using Allow_credit [OF a(1,2) e] by simp_all
next
  fix t t' R :: int and s :: InMemoryStore and k
  assume a: "storeOK t s" "0 \<le> R" "t \<le> t'"
  have "0 \<le> of_int (t' - t) * gain R" using a(2,3) by simp
  then show "bucketCredit R t' (s k) \<le> bucketCredit R t (s k) + of_int (t' - t) * gain R"
    by (auto simp: bucketCredit_def of_int_diff left_diff_distrib split: option.splits)
next
  fix t R :: int and s :: InMemoryStore and k
  assume "storeOK t s" "0 \<le> R"
  then show "0 \<le> bucketCredit R t (s k)"
    by (auto simp: bucketCredit_def storeOK_def split: option.splits intro!: add_nonneg_nonneg)
qed


section \<open>Limits over a run\<close>

record rate_call =
  rc_now :: "nat \<Rightarrow> gotime"
  rc_tenant :: string
  rc_user :: string
  rc_srcNode :: string
  rc_node :: string
  rc_device :: string
  rc_sourceIP :: string

text \<open>A sequence of checks, with whether each of them let its request proceed.\<close>

fun rateRun :: "('s, 'e) BucketStore \<Rightarrow> rate_config \<Rightarrow> rate_call list \<Rightarrow> 's \<Rightarrow> bool list \<times> 's" where
  "rateRun B cfg [] s = ([], s)"
| "rateRun B cfg (c # cs) s =
    (case CheckApprovalRate B cfg (rc_now c) (rc_tenant c) (rc_user c) (rc_srcNode c) (rc_node c) (rc_device c) (rc_sourceIP c) s of
       (res, s1) \<Rightarrow> (case rateRun B cfg cs s1 of (oks, s2) \<Rightarrow> ((res = Inr ()) # oks, s2)))"

text \<open>The clock does not run backwards, within a call and from one to the next; the last reading.\<close>

fun clockOK :: "gotime \<Rightarrow> rate_call list \<Rightarrow> bool" where
  "clockOK t [] = True"
| "clockOK t (c # cs) = (t \<le> rc_now c 0 \<and> (\<forall>j. rc_now c j \<le> rc_now c (Suc j)) \<and> clockOK (rc_now c 6) cs)"

fun lastReading :: "gotime \<Rightarrow> rate_call list \<Rightarrow> gotime" where
  "lastReading t [] = t"
| "lastReading t (c # cs) = lastReading (rc_now c 6) cs"

definition ratesOK :: "rate_config \<Rightarrow> bool" where
  "ratesOK cfg \<longleftrightarrow>
     0 \<le> rl_ApprovalsPerMinuteUser cfg \<and> 0 \<le> rl_ApprovalsPerMinuteSrcNode cfg \<and> 0 \<le> rl_ApprovalsPerMinuteProtectedNode cfg \<and>
     0 \<le> rl_ApprovalsPerMinuteTenant cfg \<and> 0 \<le> rl_ApprovalsPerMinuteGlobal cfg \<and> 0 \<le> rl_MaxPromptsPerMinuteDevice cfg"

abbreviation userKey :: "string \<Rightarrow> string \<Rightarrow> string" where
  "userKey T U \<equiv> ''ratelimit:approval:user:'' @ T @ '':'' @ U"

lemma user_level:
  assumes "ratesOK cfg"
  shows "list_all (\<lambda>(n, k, r). 0 \<le> r \<and> (k = userKey T U \<longrightarrow> r = rl_ApprovalsPerMinuteUser cfg)) (rateChecks cfg t u a b d)"
    and "length (filter (\<lambda>(n, k, r). k = userKey T U) (rateChecks cfg t u a b d)) = (if userKey t u = userKey T U then 1 else 0)"
  using assms by (simp_all add: rateChecks_def ratesOK_def)

lemma mono_clock: "(\<And>j. f j \<le> f (Suc j)) \<Longrightarrow> f i \<le> (f (i + n) :: gotime)"
  by (rule lift_Suc_mono_le) simp_all

definition passed :: "string \<Rightarrow> string \<Rightarrow> (rate_call \<times> bool) list \<Rightarrow> nat" where
  "passed T U hist = length (filter (\<lambda>(c, ok). ok \<and> rc_tenant c = T \<and> rc_user c = U) hist)"

lemma rateRun_credit:
  assumes "rl_Enabled cfg" "ratesOK cfg" "clockOK t calls" "storeOK t s" and K: "K = userKey T U"
    and "rateRun (inMemoryStore :: (InMemoryStore, 'e) BucketStore) cfg calls s = (oks, s')"
  shows "storeOK (lastReading t calls) s' \<and>
    bucketCredit (rl_ApprovalsPerMinuteUser cfg) (lastReading t calls) (s' K) + of_nat (passed T U (zip calls oks))
      \<le> bucketCredit (rl_ApprovalsPerMinuteUser cfg) t (s K) + of_int (lastReading t calls - t) * gain (rl_ApprovalsPerMinuteUser cfg)"
  using assms(3,4,6)
proof (induction calls arbitrary: t s oks s')
  case Nil
  then show ?case by (simp add: passed_def)
next
  case (Cons c cs)
  let ?R = "rl_ApprovalsPerMinuteUser cfg" and ?T = "rc_now c 6"
  let ?checks = "rateChecks cfg (rc_tenant c) (rc_user c) (rc_srcNode c) (rc_node c) (rc_device c)"
  obtain res s1 where r: "runChecks (inMemoryStore :: (InMemoryStore, 'e) BucketStore) (rc_now c) 0 ?checks s = (res, s1)" by fastforce
  have call: "CheckApprovalRate (inMemoryStore :: (InMemoryStore, 'e) BucketStore) cfg (rc_now c) (rc_tenant c) (rc_user c)
      (rc_srcNode c) (rc_node c) (rc_device c) (rc_sourceIP c) s = (res, s1)"
    using r assms(1) by (simp add: CheckApprovalRate_def)
  obtain oks' s2 where rest: "rateRun (inMemoryStore :: (InMemoryStore, 'e) BucketStore) cfg cs s1 = (oks', s2)" by fastforce
  have o: "oks = (res = Inr ()) # oks'" "s' = s2" using Cons.prems(3) call rest by simp_all
  have R: "0 \<le> ?R" using assms(2) by (simp add: ratesOK_def)
  have clk: "t \<le> rc_now c 0" "rc_now c j \<le> rc_now c (Suc j)" "clockOK ?T cs" for j using Cons.prems(1) by simp_all
  have len: "rc_now c (0 + length ?checks) \<le> ?T" by (simp add: rateChecks_def numeral_eq_Suc)
  have one: "storeOK ?T s1 \<and> bucketCredit ?R ?T (s1 K) +
      (if res = Inr () then of_nat (length (filter (\<lambda>(n, k, r). k = K) ?checks)) else 0)
      \<le> bucketCredit ?R t (s K) + of_int (?T - t) * gain ?R"
    by (rule mem.checks_credit [OF r Cons.prems(2) R clk(1) _ user_level(1) [OF assms(2), of T U, folded K] len]) (rule clk(2))
  then have "storeOK ?T s1" by simp
  from Cons.IH [OF clk(3) this rest]
  have two: "storeOK (lastReading ?T cs) s2 \<and> bucketCredit ?R (lastReading ?T cs) (s2 K) + of_nat (passed T U (zip cs oks'))
      \<le> bucketCredit ?R ?T (s1 K) + of_int (lastReading ?T cs - ?T) * gain ?R" .
  have "passed T U (zip (c # cs) oks) \<le>
      (if res = Inr () then length (filter (\<lambda>(n, k, r). k = K) ?checks) else 0) + passed T U (zip cs oks')"
    unfolding o user_level(2) [OF assms(2), of T U, folded K] using K by (auto simp: passed_def)
  then have "of_nat (passed T U (zip (c # cs) oks)) \<le>
      (if res = Inr () then of_nat (length (filter (\<lambda>(n, k, r). k = K) ?checks)) else 0) + (of_nat (passed T U (zip cs oks')) :: rat)"
    by (cases "res = Inr ()") (simp_all only: if_True if_False simp_thms add_0 of_nat_le_iff flip: of_nat_add)
  with one two show ?case unfolding o by (simp add: of_int_diff left_diff_distrib)
qed

text \<open>
  C25: With the in-memory store and a clock that does not run backwards, over any sequence of checks of any
  requests: the number of requests of one user that pass is at most the user's burst plus the rate
  times the minutes elapsed, up to a relative error of \<open>2 ^ -50\<close> from the rounding of the refill.
\<close>

theorem approvals_per_user_bounded:
  assumes "rl_Enabled cfg" and "ratesOK cfg" and "clockOK t calls"
    and "rateRun (inMemoryStore :: (InMemoryStore, 'e) BucketStore) cfg calls NewInMemoryStore = (oks, s')"
  shows "of_nat (passed T U (zip calls oks)) \<le>
    (of_int (rl_ApprovalsPerMinuteUser cfg) +
     of_int (lastReading t calls - t) * of_int (rl_ApprovalsPerMinuteUser cfg) / of_int minute * (1 + 1 / 2 ^ 50) :: rat)"
proof -
  have s: "storeOK t NewInMemoryStore" by (simp add: storeOK_def NewInMemoryStore_def)
  have R: "0 \<le> rl_ApprovalsPerMinuteUser cfg" using assms(2) by (simp add: ratesOK_def)
  note run = rateRun_credit [OF assms(1-3) s refl assms(4), of T U]
  have "bucketCredit (rl_ApprovalsPerMinuteUser cfg) t (NewInMemoryStore (userKey T U)) = of_int (rl_ApprovalsPerMinuteUser cfg)"
    using R by (simp add: bucketCredit_def NewInMemoryStore_def)
  moreover have "0 \<le> bucketCredit (rl_ApprovalsPerMinuteUser cfg) (lastReading t calls) (s' (userKey T U))"
    using mem.nonneg R run by blast
  ultimately show ?thesis using run by (simp add: gain_def)
qed

text \<open>
  A request that is refused has been charged to the levels checked before the one that refused it:
  whenever it is not the global limit that is exceeded, the global bucket has lost a token, so that
  refused requests of one device or user use up the limit that all tenants share.
\<close>

theorem refused_request_charges_global:
  assumes "rl_Enabled cfg" and "name \<noteq> ''global''"
    and "CheckApprovalRate (inMemoryStore :: (InMemoryStore, 'e) BucketStore) cfg now t u a b d ip s = (Inl (LimitExceeded name remaining), s')"
  shows "\<exists>r1 r2 s1. (InMemoryStore_Allow (now 0) ''ratelimit:approval:global'' (rl_ApprovalsPerMinuteGlobal cfg)
      (rl_ApprovalsPerMinuteGlobal cfg) minute s :: ('e + bool \<times> int \<times> gotime) \<times> InMemoryStore) = (Inr (True, r1, r2), s1) \<and>
    s' ''ratelimit:approval:global'' = s1 ''ratelimit:approval:global''"
proof -
  let ?g = "''ratelimit:approval:global''" and ?R = "rl_ApprovalsPerMinuteGlobal cfg"
  obtain rest where c: "rateChecks cfg t u a b d = (''global'', ?g, ?R) # rest" "?g \<notin> (\<lambda>(n, k, r). k) ` set rest"
    by (simp add: rateChecks_def)
  have r: "runChecks (inMemoryStore :: (InMemoryStore, 'e) BucketStore) now 0 ((''global'', ?g, ?R) # rest) s = (Inl (LimitExceeded name remaining), s')"
    using assms(1,3) c(1) by (simp add: CheckApprovalRate_def)
  then have "\<exists>r1 r2 s1. bs_Allow (inMemoryStore :: (InMemoryStore, 'e) BucketStore) (now 0) ?g ?R ?R minute s = (Inr (True, r1, r2), s1) \<and>
      runChecks (inMemoryStore :: (InMemoryStore, 'e) BucketStore) now 1 rest s1 = (Inl (LimitExceeded name remaining), s')"
    using assms(2) by (auto split: prod.splits sum.splits if_splits)
  then obtain r1 r2 s1 where a: "bs_Allow (inMemoryStore :: (InMemoryStore, 'e) BucketStore) (now 0) ?g ?R ?R minute s = (Inr (True, r1, r2), s1)"
    "runChecks (inMemoryStore :: (InMemoryStore, 'e) BucketStore) now 1 rest s1 = (Inl (LimitExceeded name remaining), s')" by blast
  have "s' ?g = s1 ?g" using mem.checks_frame [OF a(2) c(2)] .
  moreover have "(InMemoryStore_Allow (now 0) ?g ?R ?R minute s :: ('e + bool \<times> int \<times> gotime) \<times> InMemoryStore) = (Inr (True, r1, r2), s1)" using a(1) by (simp add: inMemoryStore_def)
  ultimately show ?thesis by blast
qed


section \<open>Witnesses\<close>

definition demo_call :: "gotime \<Rightarrow> rate_call" where
  "demo_call t = \<lparr>rc_now = (\<lambda>i. t), rc_tenant = ''t'', rc_user = ''u'', rc_srcNode = ''a'', rc_node = ''b'', rc_device = ''d'', rc_sourceIP = []\<rparr>"

definition demo_rates :: rate_config where
  "demo_rates = ratelimit_DefaultConfig\<lparr>rl_ApprovalsPerMinuteUser := 1\<rparr>"

lemma demo_rates_ok: "rl_Enabled demo_rates" "ratesOK demo_rates"
  by (simp_all add: demo_rates_def ratelimit_DefaultConfig_def ratesOK_def)

lemma Allow_same_instant:
  "s k = None \<Longrightarrow> InMemoryStore_Allow now k R R minute s =
     (if 0 < R then (Inr (True, R - 1, now + minute), s(k \<mapsto> \<lparr>tb_tokens = R - 1, tb_lastRefill = now\<rparr>))
      else (Inr (False, 0, now + minute), s(k \<mapsto> \<lparr>tb_tokens = R, tb_lastRefill = now\<rparr>)))"
  "s k = Some \<lparr>tb_tokens = n, tb_lastRefill = now\<rparr> \<Longrightarrow> InMemoryStore_Allow now k R R minute s =
     (if 0 < n then (Inr (True, n - 1, now + minute), s(k \<mapsto> \<lparr>tb_tokens = n - 1, tb_lastRefill = now\<rparr>))
      else (Inr (False, 0, now + minute), s(k \<mapsto> \<lparr>tb_tokens = n, tb_lastRefill = now\<rparr>)))"
  by (simp_all add: InMemoryStore_Allow_def refill_def timeSub_def Let_def)

lemma demo_two_calls:
  "fst (rateRun (inMemoryStore :: (InMemoryStore, string) BucketStore) demo_rates [demo_call 5, demo_call 5] NewInMemoryStore) = [True, False]"
  by (simp add: CheckApprovalRate_def rateChecks_def demo_call_def demo_rates_def ratelimit_DefaultConfig_def inMemoryStore_def
      Allow_same_instant NewInMemoryStore_def)

theorem approvals_per_user_bounded_witness:
  "\<exists>oks s'. rateRun (inMemoryStore :: (InMemoryStore, string) BucketStore) demo_rates [demo_call 5, demo_call 5] NewInMemoryStore = (oks, s') \<and>
     oks = [True, False] \<and> (of_nat (passed ''t'' ''u'' (zip [demo_call 5, demo_call 5] oks)) :: rat) \<le> 1"
proof -
  obtain s' where r: "rateRun (inMemoryStore :: (InMemoryStore, string) BucketStore) demo_rates [demo_call 5, demo_call 5] NewInMemoryStore = ([True, False], s')"
    using demo_two_calls by (metis prod.collapse)
  have clk: "clockOK 5 [demo_call 5, demo_call 5]" "lastReading 5 [demo_call 5, demo_call 5] = 5" by (simp_all add: demo_call_def)
  have one: "rl_ApprovalsPerMinuteUser demo_rates = 1" by (simp add: demo_rates_def)
  from approvals_per_user_bounded [OF demo_rates_ok clk(1) r, of "''t''" "''u''"] r
  show ?thesis unfolding clk(2) one by auto
qed

definition demo_no_prompts :: rate_config where
  "demo_no_prompts = demo_rates\<lparr>rl_MaxPromptsPerMinuteDevice := 0\<rparr>"

lemma demo_refused:
  "fst (CheckApprovalRate (inMemoryStore :: (InMemoryStore, string) BucketStore) demo_no_prompts (\<lambda>i. 5) ''t'' ''u'' ''a'' ''b'' ''d'' []
     NewInMemoryStore) = Inl (LimitExceeded ''device_prompt'' 0)"
  by (simp add: CheckApprovalRate_def rateChecks_def demo_no_prompts_def demo_rates_def ratelimit_DefaultConfig_def inMemoryStore_def
      Allow_same_instant NewInMemoryStore_def)

theorem refused_request_charges_global_witness:
  "\<exists>s' r1 r2 s1. CheckApprovalRate (inMemoryStore :: (InMemoryStore, string) BucketStore) demo_no_prompts
       (\<lambda>i. 5) ''t'' ''u'' ''a'' ''b'' ''d'' [] NewInMemoryStore = (Inl (LimitExceeded ''device_prompt'' 0), s') \<and>
     (InMemoryStore_Allow 5 ''ratelimit:approval:global'' 10000 10000 minute NewInMemoryStore :: (string + bool \<times> int \<times> gotime) \<times> InMemoryStore) =
       (Inr (True, r1, r2), s1) \<and> s' ''ratelimit:approval:global'' = s1 ''ratelimit:approval:global''"
proof -
  obtain s' where c: "CheckApprovalRate (inMemoryStore :: (InMemoryStore, string) BucketStore) demo_no_prompts (\<lambda>i. 5) ''t'' ''u'' ''a'' ''b'' ''d'' [] NewInMemoryStore
      = (Inl (LimitExceeded ''device_prompt'' 0), s')" using demo_refused by (metis prod.collapse)
  have cfg: "rl_Enabled demo_no_prompts" "rl_ApprovalsPerMinuteGlobal demo_no_prompts = 10000"
    by (simp_all add: demo_no_prompts_def demo_rates_def ratelimit_DefaultConfig_def)
  have "''device_prompt'' \<noteq> ''global''" by simp
  from refused_request_charges_global [OF cfg(1) this c] c show ?thesis unfolding cfg(2) by blast
qed

end
