(* ===== verification/Observability.thy ===== *)
theory Observability
  imports Prelude "HOL-Library.List_Lexorder" "HOL-Library.Char_ord" "HOL-Library.Multiset"
begin

text \<open>
  \<open>service/internal/observability/metrics.go\<close>: the counters with their snapshot, and the event logger as
  the text it writes. Shown: a line does not depend on the order in which Go iterates over the fields;
  it contains every value as it was given; and one call can write the lines of two.
\<close>

section \<open>Metrics\<close>

record MetricsCollector =
  mc_ApprovalRequestsCreated :: int
  mc_ApprovalRequestsApproved :: int
  mc_ApprovalRequestsDenied :: int
  mc_ApprovalRequestsExpired :: int
  mc_GrantsIssued :: int
  mc_GrantsConsumed :: int
  mc_EnforcementDenied :: int
  mc_SessionsTerminated :: int
  mc_DevicesEnrolled :: int
  mc_DevicesRevoked :: int
  mc_RevocationsDelivered :: int
  mc_PendingApprovalRequests :: int
  mc_ActiveSessions :: int
  mc_HeldConnections :: int
  mc_ConsumerStreamsActive :: int
  mc_ApprovalRequestLatencyNs :: int
  mc_GrantSigningLatencyNs :: int
  mc_AuditInsertLatencyNs :: int
  mc_RevocationDeliveryLatencyNs :: int

definition NewMetricsCollector :: MetricsCollector where
  "NewMetricsCollector =
     \<lparr>mc_ApprovalRequestsCreated = 0, mc_ApprovalRequestsApproved = 0, mc_ApprovalRequestsDenied = 0,
      mc_ApprovalRequestsExpired = 0, mc_GrantsIssued = 0, mc_GrantsConsumed = 0, mc_EnforcementDenied = 0,
      mc_SessionsTerminated = 0, mc_DevicesEnrolled = 0, mc_DevicesRevoked = 0, mc_RevocationsDelivered = 0,
      mc_PendingApprovalRequests = 0, mc_ActiveSessions = 0, mc_HeldConnections = 0, mc_ConsumerStreamsActive = 0,
      mc_ApprovalRequestLatencyNs = 0, mc_GrantSigningLatencyNs = 0, mc_AuditInsertLatencyNs = 0,
      mc_RevocationDeliveryLatencyNs = 0\<rparr>"

record MetricsSnapshot =
  sn_ApprovalRequestsCreated :: int
  sn_ApprovalRequestsApproved :: int
  sn_ApprovalRequestsDenied :: int
  sn_GrantsIssued :: int
  sn_GrantsConsumed :: int
  sn_EnforcementDenied :: int
  sn_PendingApprovalRequests :: int
  sn_ActiveSessions :: int
  sn_HeldConnections :: int
  sn_Timestamp :: gotime

definition Snapshot :: "gotime \<Rightarrow> MetricsCollector \<Rightarrow> MetricsSnapshot" where
  "Snapshot now m =
     \<lparr>sn_ApprovalRequestsCreated = mc_ApprovalRequestsCreated m, sn_ApprovalRequestsApproved = mc_ApprovalRequestsApproved m,
      sn_ApprovalRequestsDenied = mc_ApprovalRequestsDenied m, sn_GrantsIssued = mc_GrantsIssued m,
      sn_GrantsConsumed = mc_GrantsConsumed m, sn_EnforcementDenied = mc_EnforcementDenied m,
      sn_PendingApprovalRequests = mc_PendingApprovalRequests m, sn_ActiveSessions = mc_ActiveSessions m,
      sn_HeldConnections = mc_HeldConnections m, sn_Timestamp = now\<rparr>"


section \<open>The event logger\<close>

text \<open>
  \<open>%v\<close> of a map of strings: the pairs in the order of their keys, which \<open>fmt\<close> sorts. \<open>kvs\<close> is the map in
  some order of iteration.
\<close>

fun pairTexts :: "(string \<times> string) list \<Rightarrow> string" where
  "pairTexts [] = []"
| "pairTexts [(k, v)] = k @ '':'' @ v"
| "pairTexts ((k, v) # kv # rest) = k @ '':'' @ v @ '' '' @ pairTexts (kv # rest)"

definition mapText :: "(string \<times> string) list \<Rightarrow> string" where
  "mapText kvs = ''map['' @ pairTexts (sort_key fst kvs) @ '']''"

text \<open>
  What a call writes. \<open>header\<close> is the date and time that the logger puts before a message; a newline is
  added unless the message ends with one, which it never does, since it ends with the map.
\<close>

definition logger_log :: "string \<Rightarrow> string \<Rightarrow> string \<Rightarrow> (string \<times> string) list \<Rightarrow> string" where
  "logger_log header severity msg kvs =
     header @ ''['' @ severity @ ''] '' @ msg @ '' '' @ mapText kvs @ [CHR 0x0A]"

definition Info :: "string \<Rightarrow> string \<Rightarrow> (string \<times> string) list \<Rightarrow> string" where
  "Info header msg kvs = logger_log header ''INFO'' msg kvs"

definition Warn :: "string \<Rightarrow> string \<Rightarrow> (string \<times> string) list \<Rightarrow> string" where
  "Warn header msg kvs = logger_log header ''WARN'' msg kvs"

definition Error :: "string \<Rightarrow> string \<Rightarrow> (string \<times> string) list \<Rightarrow> string" where
  "Error header msg kvs = logger_log header ''ERROR'' msg kvs"

definition Critical :: "string \<Rightarrow> string \<Rightarrow> (string \<times> string) list \<Rightarrow> string" where
  "Critical header msg kvs = logger_log header ''CRITICAL'' msg kvs"


section \<open>What lines say\<close>

lemma pairTexts_contains:
  "(k, v) \<in> set kvs \<Longrightarrow> \<exists>pre post. pairTexts kvs = pre @ k @ '':'' @ v @ post"
proof (induction kvs rule: pairTexts.induct)
  case (2 k' v')
  then show ?case by (intro exI [of _ "[]"]) simp
next
  case (3 k' v' kv rest)
  show ?case
  proof (cases "(k, v) = (k', v')")
    case True
    then show ?thesis by (intro exI [of _ "[]"] exI [of _ "'' '' @ pairTexts (kv # rest)"]) simp
  next
    case False
    with 3 obtain pre post where "pairTexts (kv # rest) = pre @ k @ '':'' @ v @ post" by auto
    then show ?thesis by (intro exI [of _ "k' @ '':'' @ v' @ '' '' @ pre"] exI [of _ post]) simp
  qed
qed simp

text \<open>The line is a function of the fields as a map, not of the order in which Go iterates over it.\<close>

theorem log_line_deterministic:
  assumes "distinct (map fst kvs)" and "distinct (map fst kvs')" and "map_of kvs = map_of kvs'"
  shows "logger_log header severity msg kvs = logger_log header severity msg kvs'"
proof -
  have s: "set kvs = set kvs'" using assms by (metis map_of_inject_set)
  have "inj_on fst (set kvs)" using assms(1) by (simp add: distinct_map)
  then have "mset kvs = mset kvs'"
    using assms(1,2) s by (simp add: distinct_map set_eq_iff_mset_eq_distinct)
  then have "sort_key fst kvs = sort_key fst kvs'"
    using \<open>inj_on fst (set kvs)\<close> by (intro sort_key_inj_key_eq) simp_all
  then show ?thesis by (simp add: logger_log_def mapText_def)
qed

text \<open>Nothing is redacted: every value of every field is in the line as it was given.\<close>

theorem log_line_verbatim:
  assumes "(k, v) \<in> set kvs"
  shows "\<exists>pre post. logger_log header severity msg kvs = pre @ k @ '':'' @ v @ post"
proof -
  have "(k, v) \<in> set (sort_key fst kvs)" using assms by simp
  then obtain pre post where "pairTexts (sort_key fst kvs) = pre @ k @ '':'' @ v @ post"
    using pairTexts_contains by blast
  then show ?thesis
    by (intro exI [of _ "header @ ''['' @ severity @ ''] '' @ msg @ '' map['' @ pre"] exI [of _ "post @ '']'' @ [CHR 0x0A]"])
       (simp add: logger_log_def mapText_def)
qed

text \<open>
  Nothing is escaped: a message that contains a newline writes the very text of two calls, the second
  with a severity of the writer's choice.
\<close>

theorem log_line_forged:
  "Info header (msg @ '' map[]'' @ [CHR 0x0A] @ header @ ''['' @ severity @ ''] '' @ msg2) kvs =
     Info header msg [] @ logger_log header severity msg2 kvs"
  by (simp add: Info_def logger_log_def mapText_def)

theorem log_line_deterministic_witness:
  "Warn ''t '' ''m'' [(''b'', ''1''), (''a'', ''2'')] = ''t [WARN] m map[a:2 b:1]'' @ [CHR 0x0A] \<and>
   logger_log ''t '' ''WARN'' ''m'' [(''b'', ''1''), (''a'', ''2'')] = logger_log ''t '' ''WARN'' ''m'' [(''a'', ''2''), (''b'', ''1'')]"
proof
  show "logger_log ''t '' ''WARN'' ''m'' [(''b'', ''1''), (''a'', ''2'')] = logger_log ''t '' ''WARN'' ''m'' [(''a'', ''2''), (''b'', ''1'')]"
    by (rule log_line_deterministic) (auto simp: fun_eq_iff)
  show "Warn ''t '' ''m'' [(''b'', ''1''), (''a'', ''2'')] = ''t [WARN] m map[a:2 b:1]'' @ [CHR 0x0A]"
    by code_simp
qed

theorem log_line_verbatim_witness:
  "\<exists>pre post. Error [] ''x'' [(''token'', ''secret'')] = pre @ ''token'' @ '':'' @ ''secret'' @ post"
  using log_line_verbatim [of "''token''" "''secret''" "[(''token'', ''secret'')]" "[]" "''ERROR''" "''x''"]
  by (simp add: Error_def)

end
