(* ===== verification/Interstitial.thy ===== *)
theory Interstitial
  imports Prelude "HOL-Library.AList"
begin

text \<open>
  \<open>daemon/internal/interstitial/handler.go\<close>: the browser page that waits for an approval, its status
  polling and the redemption of the grant. The handler's map is a list of entries with distinct keys,
  in the order the map is iterated. The rendered page is the template library's; it is an argument.
  A request is its cookies, a response its headers, cookies, status code and body.
\<close>

section \<open>Data\<close>

record PendingRequest =
  pq_RequestID :: uuid
  pq_PollCap :: string
  pq_PollCapHash :: bytes
  pq_RedeemCap :: string
  pq_RedeemCapHash :: bytes
  pq_Status :: string
  pq_CreatedAt :: gotime
  pq_ExpiresAt :: gotime
  pq_ApprovedGrantJTI :: "uuid option"

type_synonym Handler = "(string \<times> PendingRequest) list"

record http_cookie =
  ck_Name :: string
  ck_Value :: string
  ck_Path :: string
  ck_Secure :: bool
  ck_HttpOnly :: bool
  ck_SameSiteStrict :: bool
  ck_MaxAge :: int

record http_response =
  hr_Header :: "(string \<times> string) list"
  hr_Cookies :: "http_cookie list"
  hr_Code :: int
  hr_Body :: string

record interstitialData =
  id_RequestID :: string
  id_DestName :: string
  id_PollPath :: string
  id_RefreshAfter :: int

datatype redeem_error =
    NoRedeemCookie
  | RequestNotFound
  | InvalidRedeemCapability
  | RequestNotApproved


section \<open>Operations\<close>

definition NewHandler :: Handler where
  "NewHandler = []"

text \<open>The 32 bytes that the random source left in the buffer; an error of it is ignored.\<close>

definition generateCapability :: "bytes \<Rightarrow> string" where
  "generateCapability b = hex_bytes b"

definition RegisterPending ::
  "prims \<Rightarrow> bytes \<Rightarrow> bytes \<Rightarrow> gotime \<Rightarrow> gotime \<Rightarrow> uuid \<Rightarrow> duration \<Rightarrow> Handler \<Rightarrow> (string \<times> string) \<times> Handler" where
  "RegisterPending P rnd1 rnd2 now1 now2 requestID ttl h =
    (let pollCap = generateCapability rnd1; redeemCap = generateCapability rnd2
     in ((pollCap, redeemCap),
         AList.update (uuid_String P requestID)
           \<lparr>pq_RequestID = requestID, pq_PollCap = pollCap, pq_PollCapHash = sha256 P (str_bytes pollCap),
            pq_RedeemCap = redeemCap, pq_RedeemCapHash = sha256 P (str_bytes redeemCap), pq_Status = ''PENDING'',
            pq_CreatedAt = now1, pq_ExpiresAt = now2 + ttl, pq_ApprovedGrantJTI = None\<rparr> h))"

definition MarkApproved :: "prims \<Rightarrow> uuid \<Rightarrow> uuid \<Rightarrow> Handler \<Rightarrow> Handler" where
  "MarkApproved P requestID grantJTI h =
    (case map_of h (uuid_String P requestID) of
       Some req \<Rightarrow> AList.update (uuid_String P requestID) (req\<lparr>pq_Status := ''APPROVED'', pq_ApprovedGrantJTI := Some grantJTI\<rparr>) h
     | None \<Rightarrow> h)"

definition MarkDenied :: "prims \<Rightarrow> uuid \<Rightarrow> Handler \<Rightarrow> Handler" where
  "MarkDenied P requestID h =
    (case map_of h (uuid_String P requestID) of
       Some req \<Rightarrow> AList.update (uuid_String P requestID) (req\<lparr>pq_Status := ''DENIED''\<rparr>) h
     | None \<Rightarrow> h)"

fun MarkExpired :: "gotime \<Rightarrow> Handler \<Rightarrow> int \<times> Handler" where
  "MarkExpired now [] = (0, [])"
| "MarkExpired now ((k, req) # h) =
    (let (count, h') = MarkExpired now h;
         expires = now > pq_ExpiresAt req \<and> pq_Status req = ''PENDING'';
         req' = (if expires then req\<lparr>pq_Status := ''EXPIRED''\<rparr> else req)
     in (if expires then count + 1 else count,
         if now > pq_ExpiresAt req + 5 * minute then h' else (k, req') # h'))"

definition statusPath :: "prims \<Rightarrow> uuid \<Rightarrow> string" where
  "statusPath P requestID = ''/.dnivio/status/'' @ uuid_String P requestID"

definition ServeInterstitial :: "prims \<Rightarrow> (interstitialData \<Rightarrow> string) \<Rightarrow> uuid \<Rightarrow> string \<Rightarrow> string \<Rightarrow> http_response" where
  "ServeInterstitial P page requestID pollCap destName =
     \<lparr>hr_Header = [
        (''Content-Security-Policy'', ''default-src 'self'; script-src 'self'; style-src 'self'; frame-ancestors 'none';''),
        (''Referrer-Policy'', ''no-referrer''),
        (''Cache-Control'', ''no-store, no-cache, must-revalidate, max-age=0''),
        (''X-Content-Type-Options'', ''nosniff''),
        (''X-Frame-Options'', ''DENY'')],
      hr_Cookies = [\<lparr>ck_Name = ''__Host-dnivio-poll'', ck_Value = pollCap, ck_Path = statusPath P requestID,
        ck_Secure = True, ck_HttpOnly = True, ck_SameSiteStrict = True, ck_MaxAge = 60\<rparr>],
      hr_Code = 200,
      hr_Body = page \<lparr>id_RequestID = uuid_String P requestID, id_DestName = destName,
        id_PollPath = statusPath P requestID, id_RefreshAfter = 2\<rparr>\<rparr>"

definition statusResponse :: "string \<Rightarrow> http_response" where
  "statusResponse status =
     \<lparr>hr_Header = [(''Cache-Control'', ''no-store, no-cache, must-revalidate, max-age=0''),
        (''Content-Type'', ''application/json''), (''Referrer-Policy'', ''no-referrer'')],
      hr_Cookies = [], hr_Code = 200,
      hr_Body = ''{'' @ [CHR 0x22] @ ''status'' @ [CHR 0x22] @ '':'' @ [CHR 0x22] @ status @ [CHR 0x22] @ ''}''\<rparr>"

text \<open>The first cookie of that name, as \<open>Request.Cookie\<close> finds it.\<close>

definition ServeStatus :: "prims \<Rightarrow> (string \<times> string) list \<Rightarrow> uuid \<Rightarrow> Handler \<Rightarrow> http_response" where
  "ServeStatus P cookies requestID h =
    (case map_of cookies ''__Host-dnivio-poll'' of
       None \<Rightarrow> statusResponse ''PENDING''
     | Some pollCookie \<Rightarrow>
        (case map_of h (uuid_String P requestID) of
           None \<Rightarrow> statusResponse ''PENDING''
         | Some req \<Rightarrow>
            if pq_PollCapHash req \<noteq> sha256 P (str_bytes pollCookie) then statusResponse ''PENDING''
            else statusResponse (pq_Status req)))"

definition RedeemGrant ::
  "prims \<Rightarrow> (string \<times> string) list \<Rightarrow> uuid \<Rightarrow> Handler \<Rightarrow> (redeem_error + uuid) \<times> Handler" where
  "RedeemGrant P cookies requestID h =
    (case map_of cookies ''__Host-dnivio-redeem'' of
       None \<Rightarrow> (Inl NoRedeemCookie, h)
     | Some redeemCookie \<Rightarrow>
        (case map_of h (uuid_String P requestID) of
           None \<Rightarrow> (Inl RequestNotFound, h)
         | Some req \<Rightarrow>
            if pq_RedeemCapHash req \<noteq> sha256 P (str_bytes redeemCookie) then (Inl InvalidRedeemCapability, h)
            else case pq_ApprovedGrantJTI req of
               None \<Rightarrow> (Inl RequestNotApproved, h)
             | Some jti \<Rightarrow>
                if pq_Status req \<noteq> ''APPROVED'' then (Inl RequestNotApproved, h)
                else (Inr jti, AList.update (uuid_String P requestID)
                        (req\<lparr>pq_RedeemCap := [], pq_RedeemCapHash := [], pq_Status := ''GRANTED''\<rparr>) h)))"

definition SetRedeemCookie :: "prims \<Rightarrow> uuid \<Rightarrow> string \<Rightarrow> http_cookie" where
  "SetRedeemCookie P requestID redeemCap =
     \<lparr>ck_Name = ''__Host-dnivio-redeem'', ck_Value = redeemCap, ck_Path = ''/.dnivio/redeem/'' @ uuid_String P requestID,
      ck_Secure = True, ck_HttpOnly = True, ck_SameSiteStrict = True, ck_MaxAge = 60\<rparr>"


section \<open>The map\<close>

lemma map_of_update [simp]: "map_of (AList.update k v h) k' = (if k' = k then Some v else map_of h k')"
  by (simp add: update_conv')

declare distinct_update [simp]

text \<open>What expiry does to one entry.\<close>

definition expired :: "gotime \<Rightarrow> PendingRequest \<Rightarrow> PendingRequest option" where
  "expired now req =
     (if now > pq_ExpiresAt req + 5 * minute then None
      else Some (if now > pq_ExpiresAt req \<and> pq_Status req = ''PENDING'' then req\<lparr>pq_Status := ''EXPIRED''\<rparr> else req))"

lemma keys_MarkExpired: "fst ` set (snd (MarkExpired now h)) \<subseteq> fst ` set h"
proof (induction now h rule: MarkExpired.induct)
  case (2 now k req h)
  then show ?case by (cases "MarkExpired now h") (simp add: Let_def subset_insertI2)
qed simp

lemma distinct_MarkExpired: "distinct (map fst h) \<Longrightarrow> distinct (map fst (snd (MarkExpired now h)))"
proof (induction now h rule: MarkExpired.induct)
  case (2 now k req h)
  then have "k \<notin> fst ` set (snd (MarkExpired now h))" using keys_MarkExpired [of now h] by auto
  with 2 show ?case by (auto simp: Let_def split: prod.splits)
qed simp

lemma map_of_MarkExpired:
  "distinct (map fst h) \<Longrightarrow> map_of (snd (MarkExpired now h)) k = Option.bind (map_of h k) (expired now)"
proof (induction now h rule: MarkExpired.induct)
  case (2 now k' req h)
  have "k' \<notin> fst ` set (snd (MarkExpired now h))" using keys_MarkExpired [of now h] 2(2) by auto
  then have "map_of (snd (MarkExpired now h)) k' = None" by (simp add: map_of_eq_None_iff)
  with 2 show ?case by (auto simp: Let_def expired_def split: prod.splits)
qed simp


section \<open>Redemption\<close>

text \<open>The calls that change a handler, and a run of them with the redemptions it granted.\<close>

datatype page_op =
    OpRegister bytes bytes gotime gotime uuid duration
  | OpApprove uuid uuid
  | OpDeny uuid
  | OpExpire gotime
  | OpRedeem "(string \<times> string) list" uuid

fun pageDo :: "prims \<Rightarrow> page_op \<Rightarrow> Handler \<Rightarrow> (uuid \<times> uuid) list \<times> Handler" where
  "pageDo P (OpRegister r1 r2 t1 t2 req ttl) h = ([], snd (RegisterPending P r1 r2 t1 t2 req ttl h))"
| "pageDo P (OpApprove req jti) h = ([], MarkApproved P req jti h)"
| "pageDo P (OpDeny req) h = ([], MarkDenied P req h)"
| "pageDo P (OpExpire now) h = ([], snd (MarkExpired now h))"
| "pageDo P (OpRedeem cookies req) h =
    (case RedeemGrant P cookies req h of (Inl e, h') \<Rightarrow> ([], h') | (Inr jti, h') \<Rightarrow> ([(req, jti)], h'))"

fun pageRun :: "prims \<Rightarrow> page_op list \<Rightarrow> Handler \<Rightarrow> (uuid \<times> uuid) list \<times> Handler" where
  "pageRun P [] h = ([], h)"
| "pageRun P (opn # ops) h =
    (case pageDo P opn h of (out1, h1) \<Rightarrow> case pageRun P ops h1 of (out2, h2) \<Rightarrow> (out1 @ out2, h2))"

definition registers :: "uuid \<Rightarrow> page_op \<Rightarrow> bool" where
  "registers req opn = (case opn of OpRegister r1 r2 t1 t2 req' ttl \<Rightarrow> req' = req | _ \<Rightarrow> False)"

lemma RedeemGrant_Inr:
  assumes "RedeemGrant P cookies req h = (Inr jti, h')"
  obtains c q where "map_of cookies ''__Host-dnivio-redeem'' = Some c" "map_of h (uuid_String P req) = Some q"
    "pq_RedeemCapHash q = sha256 P (str_bytes c)" "pq_Status q = ''APPROVED''" "pq_ApprovedGrantJTI q = Some jti"
    "h' = AList.update (uuid_String P req) (q\<lparr>pq_RedeemCap := [], pq_RedeemCapHash := [], pq_Status := ''GRANTED''\<rparr>) h"
  using assms by (auto simp: RedeemGrant_def split: option.splits if_splits)

lemma RedeemGrant_Inl: "RedeemGrant P cookies req h = (Inl e, h') \<Longrightarrow> h' = h"
  by (auto simp: RedeemGrant_def split: option.splits if_splits)

text \<open>Whether the redemption capability of a request is gone: the entry is missing or its hash cleared.\<close>

definition spentCap :: "prims \<Rightarrow> uuid \<Rightarrow> Handler \<Rightarrow> bool" where
  "spentCap P req h \<longleftrightarrow>
     distinct (map fst h) \<and> (case map_of h (uuid_String P req) of None \<Rightarrow> True | Some q \<Rightarrow> pq_RedeemCapHash q = [])"

lemma distinct_pageDo: "distinct (map fst h) \<Longrightarrow> distinct (map fst (snd (pageDo P opn h)))"
proof (cases opn)
  case (OpRedeem cookies req)
  assume d: "distinct (map fst h)"
  obtain r h' where p: "RedeemGrant P cookies req h = (r, h')" by fastforce
  have "distinct (map fst h')"
  proof (cases r)
    case (Inl e)
    with p d show ?thesis by (auto dest: RedeemGrant_Inl)
  next
    case (Inr jti)
    with p have "RedeemGrant P cookies req h = (Inr jti, h')" by simp
    then show ?thesis by (rule RedeemGrant_Inr) (simp add: d)
  qed
  with OpRedeem p show ?thesis by (cases r) simp_all
qed (auto simp: RegisterPending_def MarkApproved_def MarkDenied_def distinct_MarkExpired Let_def split: option.splits)

lemma spentCap_pageDo:
  assumes "uuid_text_ok P" "\<And>m. sha256 P m \<noteq> []" "spentCap P req h" "\<not> registers req opn"
  shows "spentCap P req (snd (pageDo P opn h)) \<and> (\<forall>jti. (req, jti) \<notin> set (fst (pageDo P opn h)))"
proof -
  have d: "distinct (map fst (snd (pageDo P opn h)))" using assms(3) distinct_pageDo by (auto simp: spentCap_def)
  have key: "uuid_String P x = uuid_String P req \<longleftrightarrow> x = req" for x using uuid_String_inj [OF assms(1)] by blast
  show ?thesis
  proof (cases opn)
    case (OpRegister r1 r2 t1 t2 x ttl)
    then have "uuid_String P req \<noteq> uuid_String P x" using assms(4) key [of x] by (auto simp: registers_def)
    with OpRegister assms(3) show ?thesis by (simp add: spentCap_def RegisterPending_def Let_def)
  next
    case (OpApprove x jti)
    with assms(3) d key show ?thesis by (auto simp: spentCap_def MarkApproved_def simp del: map_of_eq_Some_iff split: option.splits)
  next
    case (OpDeny x)
    with assms(3) d key show ?thesis by (auto simp: spentCap_def MarkDenied_def simp del: map_of_eq_Some_iff split: option.splits)
  next
    case (OpExpire now)
    with assms(3) d show ?thesis
      by (auto simp: spentCap_def map_of_MarkExpired expired_def split: option.splits if_splits)
  next
    case (OpRedeem cookies x)
    show ?thesis
    proof (cases "RedeemGrant P cookies x h")
      case (Pair r h')
      show ?thesis
      proof (cases r)
        case (Inl e)
        with Pair OpRedeem assms(3) show ?thesis by (auto dest: RedeemGrant_Inl)
      next
        case (Inr jti)
        then obtain c q where q: "map_of h (uuid_String P x) = Some q" "pq_RedeemCapHash q = sha256 P (str_bytes c)"
            "h' = AList.update (uuid_String P x) (q\<lparr>pq_RedeemCap := [], pq_RedeemCapHash := [], pq_Status := ''GRANTED''\<rparr>) h"
          using Pair by (auto elim: RedeemGrant_Inr)
        have "x \<noteq> req" using q(1,2) assms(2,3) by (auto simp: spentCap_def)
        with q(3) Pair Inr OpRedeem assms(3) d key show ?thesis by (auto simp: spentCap_def)
      qed
    qed
  qed
qed

lemma spentCap_pageRun:
  "\<lbrakk>uuid_text_ok P; \<And>m. sha256 P m \<noteq> []; spentCap P req h; \<forall>opn \<in> set ops. \<not> registers req opn\<rbrakk> \<Longrightarrow>
     \<forall>jti. (req, jti) \<notin> set (fst (pageRun P ops h))"
proof (induction ops arbitrary: h)
  case (Cons opn ops)
  obtain o1 h1 o2 h2 where r: "pageDo P opn h = (o1, h1)" "pageRun P ops h1 = (o2, h2)" by fastforce
  from spentCap_pageDo [OF Cons.prems(1-3), of opn] Cons.prems(4) r have "spentCap P req h1" "\<forall>jti. (req, jti) \<notin> set o1" by auto
  with Cons.IH [OF Cons.prems(1,2), of h1] Cons.prems(4) r show ?case by auto
qed simp

text \<open>
  C28: A grant is redeemed at most once: after a successful redemption no call of any kind, short of
  registering the same request anew, lets the request be redeemed again, even if it is marked as
  approved a second time.
\<close>

theorem RedeemGrant_once:
  assumes "uuid_text_ok P" and "\<And>m. sha256 P m \<noteq> []" and "distinct (map fst h)"
    and "RedeemGrant P cookies req h = (Inr jti, h')"
    and "\<forall>opn \<in> set ops. \<not> registers req opn"
  shows "(req, jti') \<notin> set (fst (pageRun P ops h'))"
proof -
  from assms(4) obtain q where
      "h' = AList.update (uuid_String P req) (q\<lparr>pq_RedeemCap := [], pq_RedeemCapHash := [], pq_Status := ''GRANTED''\<rparr>) h"
    by (rule RedeemGrant_Inr)
  then have "spentCap P req h'" using assms(3) by (simp add: spentCap_def)
  from spentCap_pageRun [OF assms(1,2) this assms(5)] show ?thesis by blast
qed


section \<open>What a poll reveals\<close>

text \<open>
  The status endpoint tells nothing without the poll capability: unless the cookie hashes to the stored
  poll hash, the answer is the same for an unknown request and for a request in any state.
\<close>

theorem ServeStatus_reveals_nothing:
  "ServeStatus P cookies req h =
    (case map_of h (uuid_String P req) of
       None \<Rightarrow> statusResponse ''PENDING''
     | Some q \<Rightarrow>
        if map_option (\<lambda>c. sha256 P (str_bytes c)) (map_of cookies ''__Host-dnivio-poll'') = Some (pq_PollCapHash q)
        then statusResponse (pq_Status q) else statusResponse ''PENDING'')"
  by (auto simp: ServeStatus_def split: option.splits)

text \<open>
  The states are not guarded: a request that was denied or has expired becomes redeemable when it is
  marked as approved afterwards, and an approved one stays redeemable for five minutes past its
  expiry, because redemption does not look at the time.
\<close>

theorem denied_request_redeemable:
  assumes "distinct (map fst h)" and "map_of h (uuid_String P req) = Some q"
    and "pq_RedeemCapHash q = sha256 P (str_bytes c)" and "now \<le> pq_ExpiresAt q + 5 * minute"
  shows "\<exists>h'. RedeemGrant P [(''__Host-dnivio-redeem'', c)] req
           (snd (MarkExpired now (MarkApproved P req jti (MarkDenied P req h)))) = (Inr jti, h')"
proof -
  let ?q = "q\<lparr>pq_Status := ''APPROVED'', pq_ApprovedGrantJTI := Some jti\<rparr>"
  have "distinct (map fst (MarkApproved P req jti (MarkDenied P req h)))"
    using assms(1) by (auto simp: MarkApproved_def MarkDenied_def split: option.splits)
  then have "map_of (snd (MarkExpired now (MarkApproved P req jti (MarkDenied P req h)))) (uuid_String P req)
      = expired now ?q"
    using assms(2) by (simp add: map_of_MarkExpired MarkApproved_def MarkDenied_def)
  also have "expired now ?q = Some ?q" using assms(4) by (simp add: expired_def)
  finally show ?thesis using assms(3) by (simp add: RedeemGrant_def)
qed

section \<open>Concrete runs\<close>

text \<open>A hash that is never empty, and a handler with one approved request.\<close>

definition page_prims :: prims where
  "page_prims = demo_prims\<lparr>sha256 := (\<lambda>m. 1 # m)\<rparr>"

lemma page_prims_ok: "uuid_text_ok page_prims" "sha256 page_prims m \<noteq> []"
  by (simp_all add: uuid_text_ok_def page_prims_def comp_def)

definition page_handler :: Handler where
  "page_handler = MarkApproved page_prims 5 77 (snd (RegisterPending page_prims [1] [2] 0 0 5 (60 * second) NewHandler))"

lemma page_handler_entry:
  "distinct (map fst page_handler)"
  "map_of page_handler (uuid_String page_prims 5) = Some
     \<lparr>pq_RequestID = 5, pq_PollCap = hex_bytes [1], pq_PollCapHash = sha256 page_prims (str_bytes (hex_bytes [1])),
      pq_RedeemCap = hex_bytes [2], pq_RedeemCapHash = sha256 page_prims (str_bytes (hex_bytes [2])),
      pq_Status = ''APPROVED'', pq_CreatedAt = 0, pq_ExpiresAt = 60 * second, pq_ApprovedGrantJTI = Some 77\<rparr>"
  by (simp_all add: page_handler_def MarkApproved_def RegisterPending_def NewHandler_def generateCapability_def Let_def)

theorem RedeemGrant_once_witness:
  "\<exists>h'. RedeemGrant page_prims [(''__Host-dnivio-redeem'', hex_bytes [2])] 5 page_handler = (Inr 77, h') \<and>
     (5, 77) \<notin> set (fst (pageRun page_prims
        [OpApprove 5 77, OpRedeem [(''__Host-dnivio-redeem'', hex_bytes [2])] 5] h'))"
proof -
  have "\<exists>h'. RedeemGrant page_prims [(''__Host-dnivio-redeem'', hex_bytes [2])] 5 page_handler = (Inr 77, h')"
    by (simp add: RedeemGrant_def page_handler_entry)
  then obtain h' where h: "RedeemGrant page_prims [(''__Host-dnivio-redeem'', hex_bytes [2])] 5 page_handler = (Inr 77, h')" ..
  show ?thesis
    using RedeemGrant_once [OF page_prims_ok page_handler_entry(1) h,
        of "[OpApprove 5 77, OpRedeem [(''__Host-dnivio-redeem'', hex_bytes [2])] 5]" 77] h
    by (auto simp: registers_def)
qed

theorem denied_request_redeemable_witness:
  "\<exists>h'. RedeemGrant page_prims [(''__Host-dnivio-redeem'', hex_bytes [2])] 5
     (snd (MarkExpired (120 * second) (MarkApproved page_prims 5 77 (MarkDenied page_prims 5 page_handler)))) = (Inr 77, h')"
  by (rule denied_request_redeemable [OF page_handler_entry]) (simp_all add: time_defs)

end
