(* ===== verification/TcpProxy.thy ===== *)
theory TcpProxy
  imports Prelude "HOL-Library.AList"
begin

text \<open>
  \<open>daemon/internal/tcpproxy/proxy.go\<close>: the accept-and-hold proxy and the registry of live sessions.
  Every connection runs \<open>handleConnection\<close> in a goroutine of its own; the model keeps where each
  connection is in that function, and a step of the proxy is the stretch of one connection up to the
  next point at which another may run. The callbacks and the backend are arguments: what they answer
  for a connection. Maps are association lists without duplicate keys.
\<close>

section \<open>Held connections\<close>

text \<open>\<open>Buffered\<close> is the whole buffer, of which \<open>BufferedLen\<close> bytes are in use.\<close>

record heldConnection =
  hc_ID :: bytes
  hc_SrcAddr :: string
  hc_DstAddr :: string
  hc_Buffered :: bytes
  hc_BufferedLen :: int
  hc_CreatedAt :: gotime

datatype read_error = BufferExceeded | ConnError

text \<open>\<open>conn\<close> is what the connection's own \<open>Read\<close> returns: an error, or the bytes it put into the slice.\<close>

definition heldConnection_Read :: "bytes option \<Rightarrow> heldConnection \<Rightarrow> (read_error + bytes) \<times> heldConnection" where
  "heldConnection_Read conn hc =
    (if int (length (hc_Buffered hc)) \<le> hc_BufferedLen hc then (Inl BufferExceeded, hc)
     else case conn of
        None \<Rightarrow> (Inl ConnError, hc)
      | Some b \<Rightarrow>
         (let space = length (hc_Buffered hc) - nat (hc_BufferedLen hc);
              copyLen = (if length b > space then space else length b);
              l = nat (hc_BufferedLen hc)
          in (Inr b,
              if space > 0 then
                hc\<lparr>hc_Buffered := take l (hc_Buffered hc) @ take copyLen b @ drop (l + copyLen) (hc_Buffered hc),
                   hc_BufferedLen := hc_BufferedLen hc + int copyLen\<rparr>
              else hc)))"

text \<open>The connection that \<open>handleConnection\<close> creates.\<close>

definition newHeld :: "bytes \<Rightarrow> string \<Rightarrow> string \<Rightarrow> gotime \<Rightarrow> heldConnection" where
  "newHeld connID srcAddr dstAddr now =
     \<lparr>hc_ID = connID, hc_SrcAddr = srcAddr, hc_DstAddr = dstAddr, hc_Buffered = [], hc_BufferedLen = 0, hc_CreatedAt = now\<rparr>"


section \<open>The proxy\<close>

record proxy_config =
  px_ListenAddr :: string
  px_BackendAddr :: string
  px_MaxPendingConns :: int
  px_MaxPreApprovalBytes :: int
  px_MaxAggregateMem :: int

definition tcpproxy_DefaultConfig :: proxy_config where
  "tcpproxy_DefaultConfig =
     \<lparr>px_ListenAddr = [], px_BackendAddr = [], px_MaxPendingConns = 100, px_MaxPreApprovalBytes = 65536,
      px_MaxAggregateMem = 268435456\<rparr>"

text \<open>Where a connection is in \<open>handleConnection\<close>; \<open>Closed\<close> covers every return.\<close>

datatype conn_phase =
    Accepted
  | Authorized
  | BoundChecked
  | Held heldConnection
  | Approved heldConnection
  | Spliced heldConnection
  | Closed

text \<open>\<open>pendingCount\<close> is an \<open>atomic.Int32\<close>: its value is that of a signed 32-bit integer.\<close>

record Proxy =
  pr_config :: proxy_config
  pr_activeConns :: "(bytes \<times> heldConnection) list"
  pr_pendingCount :: int
  pr_stopped :: bool
  pr_conns :: "nat \<Rightarrow> conn_phase option"

definition tcpproxy_New :: "proxy_config \<Rightarrow> Proxy" where
  "tcpproxy_New cfg = \<lparr>pr_config = cfg, pr_activeConns = [], pr_pendingCount = 0, pr_stopped = False, pr_conns = Map.empty\<rparr>"

text \<open>\<open>Start\<close> listens on the proxy's address and starts the accept loop; the error names the address.\<close>

definition tcpproxy_Start :: "(string \<Rightarrow> bool) \<Rightarrow> Proxy \<Rightarrow> string + Proxy" where
  "tcpproxy_Start listen p = reject (\<not> listen (px_ListenAddr (pr_config p))) (px_ListenAddr (pr_config p)) (Inr p)"

text \<open>What the world answers for a connection: addresses, ACL, the random identifier, approval, backend.\<close>

record conn_world =
  cw_SrcAddr :: string
  cw_DstAddr :: string
  cw_acl :: bool
  cw_connID :: "bytes option"
  cw_now :: gotime
  cw_approved :: bool
  cw_backend :: bool

text \<open>The deferred removal: the entry goes and the count falls.\<close>

definition releaseConn :: "nat \<Rightarrow> heldConnection \<Rightarrow> Proxy \<Rightarrow> Proxy" where
  "releaseConn c hc p =
     p\<lparr>pr_conns := (pr_conns p)(c \<mapsto> Closed), pr_activeConns := AList.delete (hc_ID hc) (pr_activeConns p),
       pr_pendingCount := wrap32 (pr_pendingCount p - 1)\<rparr>"

text \<open>
  One stretch of a connection's goroutine. \<open>cw_acl\<close> is false when the callback denies or fails, likewise
  \<open>cw_approved\<close>; a spliced connection ends when either side does.
\<close>

definition connStep :: "(nat \<Rightarrow> conn_world) \<Rightarrow> nat \<Rightarrow> Proxy \<Rightarrow> Proxy" where
  "connStep W c p =
    (case pr_conns p c of
       None \<Rightarrow> p
     | Some Accepted \<Rightarrow> p\<lparr>pr_conns := (pr_conns p)(c \<mapsto> if cw_acl (W c) then Authorized else Closed)\<rparr>
     | Some Authorized \<Rightarrow>
         p\<lparr>pr_conns := (pr_conns p)(c \<mapsto>
             if pr_pendingCount p \<ge> px_MaxPendingConns (pr_config p) then Closed else BoundChecked)\<rparr>
     | Some BoundChecked \<Rightarrow>
        (case cw_connID (W c) of
           None \<Rightarrow> p\<lparr>pr_conns := (pr_conns p)(c \<mapsto> Closed)\<rparr>
         | Some connID \<Rightarrow>
            (let hc = newHeld connID (cw_SrcAddr (W c)) (cw_DstAddr (W c)) (cw_now (W c))
             in p\<lparr>pr_conns := (pr_conns p)(c \<mapsto> Held hc), pr_activeConns := AList.update connID hc (pr_activeConns p),
                  pr_pendingCount := wrap32 (pr_pendingCount p + 1)\<rparr>))
     | Some (Held hc) \<Rightarrow>
         if cw_approved (W c) then p\<lparr>pr_conns := (pr_conns p)(c \<mapsto> Approved hc)\<rparr> else releaseConn c hc p
     | Some (Approved hc) \<Rightarrow>
         if cw_backend (W c) then p\<lparr>pr_conns := (pr_conns p)(c \<mapsto> Spliced hc)\<rparr> else releaseConn c hc p
     | Some (Spliced hc) \<Rightarrow> releaseConn c hc p
     | Some Closed \<Rightarrow> p)"

text \<open>The accept loop starts a goroutine per connection until the proxy is stopped.\<close>

definition acceptConn :: "nat \<Rightarrow> Proxy \<Rightarrow> Proxy" where
  "acceptConn c p = (if pr_stopped p \<or> pr_conns p c \<noteq> None then p else p\<lparr>pr_conns := (pr_conns p)(c \<mapsto> Accepted)\<rparr>)"

text \<open>\<open>Stop\<close> closes the held connections and drops the map; their goroutines run on to their returns.\<close>

definition tcpproxy_Stop :: "Proxy \<Rightarrow> bytes list \<times> Proxy" where
  "tcpproxy_Stop p = (map fst (pr_activeConns p), p\<lparr>pr_stopped := True, pr_activeConns := []\<rparr>)"

inductive proxy_step :: "(nat \<Rightarrow> conn_world) \<Rightarrow> Proxy \<Rightarrow> Proxy \<Rightarrow> bool" for W where
  accept: "proxy_step W p (acceptConn c p)"
| advance: "proxy_step W p (connStep W c p)"
| stop: "\<not> pr_stopped p \<Longrightarrow> proxy_step W p (snd (tcpproxy_Stop p))"


section \<open>The session registry\<close>

record ActiveSession =
  as_ConnectionID :: string
  as_GrantJTI :: uuid
  as_DeviceID :: uuid
  as_OpenedAt :: gotime

record SessionRegistry =
  sr_sessions :: "(string \<times> ActiveSession) list"
  sr_grantMap :: "(uuid \<times> string list) list"

definition NewSessionRegistry :: SessionRegistry where
  "NewSessionRegistry = \<lparr>sr_sessions = [], sr_grantMap = []\<rparr>"

definition grantConns :: "uuid \<Rightarrow> SessionRegistry \<Rightarrow> string list" where
  "grantConns jti sr = (case map_of (sr_grantMap sr) jti of None \<Rightarrow> [] | Some ids \<Rightarrow> ids)"

definition Register :: "ActiveSession \<Rightarrow> SessionRegistry \<Rightarrow> SessionRegistry" where
  "Register session sr =
     sr\<lparr>sr_sessions := AList.update (as_ConnectionID session) session (sr_sessions sr),
        sr_grantMap := AList.update (as_GrantJTI session)
          (grantConns (as_GrantJTI session) sr @ [as_ConnectionID session]) (sr_grantMap sr)\<rparr>"

definition Unregister :: "string \<Rightarrow> SessionRegistry \<Rightarrow> SessionRegistry" where
  "Unregister connectionID sr = sr\<lparr>sr_sessions := AList.delete connectionID (sr_sessions sr)\<rparr>"

text \<open>Both return the number of sessions closed; the connections closed are those of the removed entries.\<close>

definition TerminateByDevice :: "uuid \<Rightarrow> SessionRegistry \<Rightarrow> int \<times> SessionRegistry" where
  "TerminateByDevice deviceID sr =
     (int (length (filter (\<lambda>(k, s). as_DeviceID s = deviceID) (sr_sessions sr))),
      sr\<lparr>sr_sessions := filter (\<lambda>(k, s). as_DeviceID s \<noteq> deviceID) (sr_sessions sr)\<rparr>)"

fun terminateConns :: "string list \<Rightarrow> (string \<times> ActiveSession) list \<Rightarrow> int \<times> (string \<times> ActiveSession) list" where
  "terminateConns [] sessions = (0, sessions)"
| "terminateConns (connID # connIDs) sessions =
    (case map_of sessions connID of
       Some session \<Rightarrow> (case terminateConns connIDs (AList.delete connID sessions) of (n, ss) \<Rightarrow> (n + 1, ss))
     | None \<Rightarrow> terminateConns connIDs sessions)"

definition TerminateByGrant :: "uuid \<Rightarrow> SessionRegistry \<Rightarrow> int \<times> SessionRegistry" where
  "TerminateByGrant grantJTI sr =
    (case map_of (sr_grantMap sr) grantJTI of
       None \<Rightarrow> (0, sr)
     | Some connIDs \<Rightarrow>
        (case terminateConns connIDs (sr_sessions sr) of (n, ss) \<Rightarrow>
           (n, sr\<lparr>sr_sessions := ss, sr_grantMap := AList.delete grantJTI (sr_grantMap sr)\<rparr>)))"

section \<open>Only approved connections reach the backend\<close>

definition holding :: "conn_phase option \<Rightarrow> bool" where
  "holding ph = (case ph of Some (Held hc) \<Rightarrow> True | Some (Approved hc) \<Rightarrow> True | Some (Spliced hc) \<Rightarrow> True | _ \<Rightarrow> False)"

text \<open>What a phase says about the answers the connection got.\<close>

fun phaseOK :: "conn_world \<Rightarrow> conn_phase \<Rightarrow> bool" where
  "phaseOK w Accepted = True"
| "phaseOK w Authorized = cw_acl w"
| "phaseOK w BoundChecked = cw_acl w"
| "phaseOK w (Held hc) = (cw_acl w \<and> hc_Buffered hc = [] \<and> hc_BufferedLen hc = 0)"
| "phaseOK w (Approved hc) = (cw_acl w \<and> cw_approved w)"
| "phaseOK w (Spliced hc) = (cw_acl w \<and> cw_approved w \<and> cw_backend w)"
| "phaseOK w Closed = True"

definition proxyInv :: "(nat \<Rightarrow> conn_world) \<Rightarrow> Proxy \<Rightarrow> bool" where
  "proxyInv W p \<longleftrightarrow>
     (\<forall>c ph. pr_conns p c = Some ph \<longrightarrow> phaseOK (W c) ph) \<and>
     finite {c. holding (pr_conns p c)} \<and> pr_pendingCount p = wrap32 (int (card {c. holding (pr_conns p c)}))"

lemma holding_simps [simp]:
  "\<not> holding None" "\<not> holding (Some Accepted)" "\<not> holding (Some Authorized)" "\<not> holding (Some BoundChecked)"
  "holding (Some (Held hc))" "holding (Some (Approved hc))" "holding (Some (Spliced hc))" "\<not> holding (Some Closed)"
  by (simp_all add: holding_def)

lemma holding_upd:
  "{d. holding ((m(c \<mapsto> ph)) d)} = (if holding (Some ph) then insert c {d. holding (m d)} else {d. holding (m d)} - {c})"
  by (auto split: if_splits)

text \<open>The three ways in which a step may change the count.\<close>

lemma proxyInv_same:
  assumes "proxyInv W p" "holding (pr_conns p c) = holding (Some ph)" "phaseOK (W c) ph"
  shows "proxyInv W (p\<lparr>pr_conns := (pr_conns p)(c \<mapsto> ph)\<rparr>)"
proof -
  have "{d. holding (((pr_conns p)(c \<mapsto> ph)) d)} = {d. holding (pr_conns p d)}"
    unfolding holding_upd using assms(2) by auto
  with assms(1,3) show ?thesis by (auto simp: proxyInv_def simp del: fun_upd_apply) (auto split: if_splits)
qed

lemma proxyInv_release:
  assumes "proxyInv W p" "holding (pr_conns p c)"
  shows "proxyInv W (releaseConn c hc p)"
proof -
  let ?h = "{d. holding (pr_conns p d)}"
  have e: "{d. holding (((pr_conns p)(c \<mapsto> Closed)) d)} = ?h - {c}" unfolding holding_upd by simp
  have f: "finite ?h" "pr_pendingCount p = wrap32 (int (card ?h))" using assms(1) by (simp_all add: proxyInv_def)
  have "0 < card ?h" using f(1) assms(2) by (auto simp: card_gt_0_iff)
  then have "int (card (?h - {c})) = int (card ?h) - 1"
    using f(1) assms(2) by (simp add: card_Diff_singleton of_nat_diff Suc_leI)
  moreover have "\<forall>d ph. ((pr_conns p)(c \<mapsto> Closed)) d = Some ph \<longrightarrow> phaseOK (W d) ph"
    using assms(1) by (auto simp: proxyInv_def)
  ultimately show ?thesis using f unfolding proxyInv_def releaseConn_def by (simp add: e del: fun_upd_apply)
qed

lemma proxyInv_hold:
  assumes "proxyInv W p" "pr_conns p c = Some BoundChecked" "hc_Buffered hc = []" "hc_BufferedLen hc = 0"
  shows "proxyInv W (p\<lparr>pr_conns := (pr_conns p)(c \<mapsto> Held hc), pr_activeConns := xs, pr_pendingCount := wrap32 (pr_pendingCount p + 1)\<rparr>)"
proof -
  let ?h = "{d. holding (pr_conns p d)}"
  have e: "{d. holding (((pr_conns p)(c \<mapsto> Held hc)) d)} = insert c ?h" unfolding holding_upd by simp
  have "c \<notin> ?h" using assms(2) by simp
  moreover have "phaseOK (W c) BoundChecked" using assms(1,2) unfolding proxyInv_def by blast
  then have "\<forall>d ph. ((pr_conns p)(c \<mapsto> Held hc)) d = Some ph \<longrightarrow> phaseOK (W d) ph"
    using assms by (auto simp: proxyInv_def)
  ultimately show ?thesis using assms(1) unfolding proxyInv_def
    by (simp add: e del: fun_upd_apply) (simp add: add.commute)
qed

lemma proxyInv_connStep:
  assumes "proxyInv W p"
  shows "proxyInv W (connStep W c p)"
proof (cases "pr_conns p c")
  case (Some ph)
  have ok: "phaseOK (W c) ph" using assms Some unfolding proxyInv_def by blast
  show ?thesis
  proof (cases ph)
    case Accepted
    with Some assms show ?thesis by (auto simp: connStep_def intro!: proxyInv_same)
  next
    case Authorized
    with Some assms ok show ?thesis by (auto simp: connStep_def intro!: proxyInv_same)
  next
    case BoundChecked
    with Some assms show ?thesis
      by (auto simp: connStep_def newHeld_def Let_def intro!: proxyInv_same proxyInv_hold split: option.splits)
  next
    case (Held hc)
    with Some assms ok show ?thesis by (auto simp: connStep_def intro!: proxyInv_same proxyInv_release)
  next
    case (Approved hc)
    with Some assms ok show ?thesis by (auto simp: connStep_def intro!: proxyInv_same proxyInv_release)
  next
    case (Spliced hc)
    with Some assms show ?thesis by (auto simp: connStep_def intro!: proxyInv_release)
  next
    case Closed
    with Some assms show ?thesis by (simp add: connStep_def)
  qed
qed (use assms in \<open>simp add: connStep_def\<close>)

lemma proxyInv_step: "proxy_step W p p' \<Longrightarrow> proxyInv W p \<Longrightarrow> proxyInv W p'"
proof (induction rule: proxy_step.induct)
  case (accept p c)
  then show ?case by (cases "pr_conns p c") (auto simp: acceptConn_def intro!: proxyInv_same)
next
  case (advance p c)
  then show ?case by (rule proxyInv_connStep)
next
  case (stop p)
  then show ?case by (simp add: proxyInv_def tcpproxy_Stop_def)
qed

lemma proxyInv_new: "proxyInv W (tcpproxy_New cfg)"
  by (simp add: proxyInv_def tcpproxy_New_def)

lemma proxyInv_reached: "(proxy_step W)\<^sup>*\<^sup>* (tcpproxy_New cfg) p \<Longrightarrow> proxyInv W p"
  by (induction rule: rtranclp_induct) (auto intro: proxyInv_new proxyInv_step)

text \<open>
  C26: In every interleaving of any number of connections, with the proxy stopped at any moment: a
  connection is spliced to the backend only if the ACL callback allowed it and the approval callback
  approved it, and the pending counter is the number of connections that are held, approved or spliced,
  as a 32-bit integer: it counts connections that no longer wait for an approval, too.
\<close>

theorem spliced_only_if_approved:
  assumes "(proxy_step W)\<^sup>*\<^sup>* (tcpproxy_New cfg) p"
  shows "(if \<exists>hc. pr_conns p c = Some (Spliced hc) then cw_acl (W c) \<and> cw_approved (W c) else True) \<and>
     pr_pendingCount p = wrap32 (int (card {c. holding (pr_conns p c)}))"
  using proxyInv_reached [OF assms] unfolding proxyInv_def by fastforce


section \<open>The bound on pending connections\<close>

definition accepted :: "nat \<Rightarrow> Proxy \<Rightarrow> Proxy" where
  "accepted n p = p\<lparr>pr_conns := (\<lambda>c. if c < n then Some BoundChecked else pr_conns p c)\<rparr>"

lemma reach_bound_checked:
  assumes "\<And>c. cw_acl (W c)" "0 < px_MaxPendingConns cfg"
  shows "(proxy_step W)\<^sup>*\<^sup>* (tcpproxy_New cfg) (accepted n (tcpproxy_New cfg))"
proof (induction n)
  case 0
  then show ?case by (simp add: accepted_def tcpproxy_New_def)
next
  case (Suc n)
  let ?p = "accepted n (tcpproxy_New cfg)"
  let ?p3 = "connStep W n (connStep W n (acceptConn n ?p))"
  have "(proxy_step W)\<^sup>*\<^sup>* ?p ?p3"
    by (meson proxy_step.accept proxy_step.advance r_into_rtranclp rtranclp_trans)
  moreover have "?p3 = accepted (Suc n) (tcpproxy_New cfg)"
    using assms by (auto simp: acceptConn_def connStep_def accepted_def tcpproxy_New_def fun_eq_iff)
  ultimately show ?case using Suc by (metis rtranclp_trans)
qed

text \<open>
  The bound on pending connections does not bound them: the count is read before a connection is
  entered, so any number of connections that pass the check together are all held.
\<close>

theorem pending_bound_exceeded:
  assumes "\<And>c. cw_acl (W c)" and "\<And>c. cw_connID (W c) \<noteq> None" and "0 < px_MaxPendingConns cfg"
    and "int n < 2 ^ 31"
  shows "\<exists>p. (proxy_step W)\<^sup>*\<^sup>* (tcpproxy_New cfg) p \<and> pr_pendingCount p = int n"
proof -
  have "\<exists>p. (proxy_step W)\<^sup>*\<^sup>* (tcpproxy_New cfg) p \<and> pr_pendingCount p = int k \<and>
      (\<forall>c. k \<le> c \<and> c < n \<longrightarrow> pr_conns p c = Some BoundChecked)" if "k \<le> n" for k
    using that
  proof (induction k)
    case 0
    show ?case
      using reach_bound_checked [where W = W and n = n, OF assms(1,3)]
      by (intro exI [of _ "accepted n (tcpproxy_New cfg)"]) (simp add: accepted_def tcpproxy_New_def)
  next
    case (Suc k)
    then obtain p where p: "(proxy_step W)\<^sup>*\<^sup>* (tcpproxy_New cfg) p" "pr_pendingCount p = int k"
        "\<forall>c. k \<le> c \<and> c < n \<longrightarrow> pr_conns p c = Some BoundChecked" by auto
    obtain i where i: "cw_connID (W k) = Some i" using assms(2) by blast
    have "(proxy_step W)\<^sup>*\<^sup>* (tcpproxy_New cfg) (connStep W k p)"
      using p(1) proxy_step.advance by (rule rtranclp.rtrancl_into_rtrancl)
    moreover have "pr_conns p k = Some BoundChecked" using p(3) Suc.prems by simp
    ultimately show ?case
      using p(2,3) i Suc.prems assms(4) by (intro exI [of _ "connStep W k p"]) (auto simp: connStep_def Let_def)
  qed
  then show ?thesis by blast
qed

text \<open>
  Connections that have been approved and spliced go on counting as pending: as many of them as the bound
  allows pending ones keep every new connection out, although none waits for an approval.
\<close>

theorem spliced_exhaust_bound:
  assumes "(proxy_step W)\<^sup>*\<^sup>* (tcpproxy_New cfg) p" and "pr_conns p c = Some Authorized"
    and "px_MaxPendingConns (pr_config p) \<le> int (card {d. \<exists>hc. pr_conns p d = Some (Spliced hc)})"
    and "int (card {d. holding (pr_conns p d)}) < 2 ^ 31"
  shows "pr_conns (connStep W c p) c = Some Closed"
proof -
  have inv: "proxyInv W p" by (rule proxyInv_reached [OF assms(1)])
  have "card {d. \<exists>hc. pr_conns p d = Some (Spliced hc)} \<le> card {d. holding (pr_conns p d)}"
    using inv by (intro card_mono) (auto simp: proxyInv_def)
  then have "px_MaxPendingConns (pr_config p) \<le> pr_pendingCount p"
    using inv assms(3,4) by (simp add: proxyInv_def)
  then show ?thesis using assms(2) by (simp add: connStep_def)
qed


section \<open>The pre-approval buffer\<close>

text \<open>
  With a buffer, a read keeps the bytes in order behind those already there and never beyond the
  buffer's end; at a full buffer it fails without touching the connection.
\<close>

theorem Read_buffers_prefix:
  assumes "0 \<le> hc_BufferedLen hc" and "hc_BufferedLen hc \<le> int (length (hc_Buffered hc))"
    and "heldConnection_Read conn hc = (r, hc')"
  shows "hc_BufferedLen hc' \<le> int (length (hc_Buffered hc')) \<and> length (hc_Buffered hc') = length (hc_Buffered hc) \<and>
    take (nat (hc_BufferedLen hc')) (hc_Buffered hc') =
      take (length (hc_Buffered hc)) (take (nat (hc_BufferedLen hc)) (hc_Buffered hc) @ (case r of Inl e \<Rightarrow> [] | Inr b \<Rightarrow> b))"
proof -
  obtain l where l: "hc_BufferedLen hc = int l" "l \<le> length (hc_Buffered hc)"
    using assms(1,2) by (metis nonneg_int_cases of_nat_le_iff)
  show ?thesis
    using assms(3) l
    by (auto simp: heldConnection_Read_def Let_def nat_add_distrib min_def split: if_splits option.splits)
qed

text \<open>
  No buffer is ever allocated: a read on a connection that the proxy holds fails at once, whatever the
  connection has to offer and whatever limit is configured.
\<close>

theorem held_read_always_fails:
  assumes "(proxy_step W)\<^sup>*\<^sup>* (tcpproxy_New cfg) p" and "pr_conns p c = Some (Held hc)"
  shows "heldConnection_Read conn hc = (Inl BufferExceeded, hc)"
proof -
  have "phaseOK (W c) (Held hc)" using proxyInv_reached [OF assms(1)] assms(2) unfolding proxyInv_def by blast
  then show ?thesis by (simp add: heldConnection_Read_def)
qed


section \<open>Termination of sessions\<close>

text \<open>Every live session is listed under its grant.\<close>

definition registryInv :: "SessionRegistry \<Rightarrow> bool" where
  "registryInv sr \<longleftrightarrow>
     distinct (map fst (sr_sessions sr)) \<and> distinct (map fst (sr_grantMap sr)) \<and>
     (\<forall>k s. map_of (sr_sessions sr) k = Some s \<longrightarrow> k \<in> set (grantConns (as_GrantJTI s) sr))"

declare map_of_eq_Some_iff [simp del]

lemma grantConns_simps [simp]:
  "grantConns g (Register s sr) = grantConns g sr @ (if g = as_GrantJTI s then [as_ConnectionID s] else [])"
  "grantConns g (Unregister k sr) = grantConns g sr"
  "grantConns g (snd (TerminateByDevice d sr)) = grantConns g sr"
  by (simp_all add: grantConns_def Register_def Unregister_def TerminateByDevice_def update_conv')

datatype session_op =
    OpRegister ActiveSession
  | OpUnregister string
  | OpTerminateDevice uuid
  | OpTerminateGrant uuid

fun sessionDo :: "SessionRegistry \<Rightarrow> session_op \<Rightarrow> SessionRegistry" where
  "sessionDo sr (OpRegister s) = Register s sr"
| "sessionDo sr (OpUnregister k) = Unregister k sr"
| "sessionDo sr (OpTerminateDevice d) = snd (TerminateByDevice d sr)"
| "sessionDo sr (OpTerminateGrant g) = snd (TerminateByGrant g sr)"

lemma sessions_simps:
  "sr_sessions (Register s sr) = AList.update (as_ConnectionID s) s (sr_sessions sr)"
  "sr_sessions (Unregister k sr) = AList.delete k (sr_sessions sr)"
  "sr_sessions (snd (TerminateByDevice d sr)) = filter (\<lambda>(k, s). as_DeviceID s \<noteq> d) (sr_sessions sr)"
  "distinct (map fst (sr_grantMap sr)) \<Longrightarrow> distinct (map fst (sr_grantMap (Register s sr)))"
  "sr_grantMap (Unregister k sr) = sr_grantMap sr" "sr_grantMap (snd (TerminateByDevice d sr)) = sr_grantMap sr"
  by (simp_all add: Register_def Unregister_def TerminateByDevice_def distinct_update)

lemma terminateConns_map:
  "map_of (snd (terminateConns ids ss)) k = (if k \<in> set ids then None else map_of ss k)"
proof (induction ids ss rule: terminateConns.induct)
  case (2 i ids ss)
  then show ?case by (cases "map_of ss i") (auto simp: delete_conv' split: prod.splits)
qed simp

lemma terminateConns_distinct: "distinct (map fst ss) \<Longrightarrow> distinct (map fst (snd (terminateConns ids ss)))"
proof (induction ids ss rule: terminateConns.induct)
  case (2 i ids ss)
  then show ?case by (cases "map_of ss i") (auto simp: distinct_delete split: prod.splits)
qed simp

lemma filter_absent: "i \<notin> fst ` set ss \<Longrightarrow> filter (\<lambda>(k, v). i \<noteq> k) ss = ss"
  by (induction ss) auto

lemma length_delete_present:
  "\<lbrakk>distinct (map fst ss); map_of ss i = Some s\<rbrakk> \<Longrightarrow> Suc (length (AList.delete i ss)) = length ss"
  by (induction ss) (auto simp: AList.delete_eq filter_absent split: if_splits)

lemma terminateConns_count:
  "distinct (map fst ss) \<Longrightarrow> fst (terminateConns ids ss) = int (length ss) - int (length (snd (terminateConns ids ss)))"
proof (induction ids ss rule: terminateConns.induct)
  case (2 i ids ss)
  show ?case
  proof (cases "map_of ss i")
    case (Some s)
    show ?thesis
      using 2(2) [OF Some] 2(3) Some length_delete_present [OF 2(3) Some] by (auto simp: distinct_delete split: prod.splits)
  qed (use 2 in simp)
qed simp

lemma registryInv_do: "registryInv sr \<Longrightarrow> registryInv (sessionDo sr opn)"
proof (cases opn)
  case (OpRegister s)
  assume "registryInv sr"
  with OpRegister show ?thesis
    by (auto simp: registryInv_def update_conv' distinct_update sessions_simps split: if_splits)
next
  case (OpUnregister k)
  assume "registryInv sr"
  with OpUnregister show ?thesis
    by (auto simp: registryInv_def delete_conv' distinct_delete sessions_simps split: if_splits)
next
  case (OpTerminateDevice d)
  assume "registryInv sr"
  with OpTerminateDevice show ?thesis
    by (auto simp: registryInv_def map_of_filter_values distinct_fst_filter sessions_simps split: option.splits if_splits)
next
  case (OpTerminateGrant g)
  assume i: "registryInv sr"
  show ?thesis
  proof (cases "map_of (sr_grantMap sr) g")
    case (Some ids)
    let ?t = "terminateConns ids (sr_sessions sr)"
    have m: "map_of (snd ?t) k = (if k \<in> set ids then None else map_of (sr_sessions sr) k)" for k
      by (rule terminateConns_map)
    have "k \<in> set (grantConns (as_GrantJTI s) (snd (TerminateByGrant g sr)))" if s: "map_of (snd ?t) k = Some s" for k s
    proof -
      have k: "k \<notin> set ids" "map_of (sr_sessions sr) k = Some s" using s m [of k] by (auto split: if_splits)
      then have "k \<in> set (grantConns (as_GrantJTI s) sr)" using i unfolding registryInv_def by blast
      moreover from this have "as_GrantJTI s \<noteq> g" using k(1) Some by (auto simp: grantConns_def)
      ultimately show ?thesis
        using Some by (simp add: grantConns_def TerminateByGrant_def delete_conv' split: prod.splits)
    qed
    moreover have "sr_sessions (snd (TerminateByGrant g sr)) = snd ?t"
      using Some by (simp add: TerminateByGrant_def split: prod.splits)
    moreover have "distinct (map fst (sr_grantMap (snd (TerminateByGrant g sr))))"
      using i Some by (simp add: TerminateByGrant_def registryInv_def distinct_delete split: prod.splits)
    ultimately show ?thesis
      using i OpTerminateGrant terminateConns_distinct unfolding registryInv_def by auto
  qed (use i OpTerminateGrant in \<open>simp add: TerminateByGrant_def\<close>)
qed

lemma registryInv_run: "registryInv (foldl sessionDo NewSessionRegistry ops)"
proof -
  have "registryInv sr \<Longrightarrow> registryInv (foldl sessionDo sr ops)" for sr
    by (induction ops arbitrary: sr) (auto intro: registryInv_do)
  then show ?thesis by (simp add: registryInv_def NewSessionRegistry_def)
qed

text \<open>
  Revocation reaches every live session: after any calls on a registry, terminating by grant leaves no
  session of that grant, terminating by device leaves none of that device and no other session ends,
  and the count returned is the number of sessions closed.
\<close>

theorem termination_complete:
  "let sr = foldl sessionDo NewSessionRegistry ops in
    \<not> (\<exists>k s. map_of (sr_sessions (snd (TerminateByGrant g sr))) k = Some s \<and> as_GrantJTI s = g) \<and>
    fst (TerminateByGrant g sr) = int (length (sr_sessions sr)) - int (length (sr_sessions (snd (TerminateByGrant g sr)))) \<and>
    map_of (sr_sessions (snd (TerminateByDevice d sr))) k =
      (case map_of (sr_sessions sr) k of None \<Rightarrow> None | Some s \<Rightarrow> if as_DeviceID s = d then None else Some s) \<and>
    fst (TerminateByDevice d sr) = int (length (sr_sessions sr)) - int (length (sr_sessions (snd (TerminateByDevice d sr))))"
proof -
  define sr where "sr = foldl sessionDo NewSessionRegistry ops"
  have i: "registryInv sr" unfolding sr_def by (rule registryInv_run)
  then have dist: "distinct (map fst (sr_sessions sr))" by (simp add: registryInv_def)
  have "as_GrantJTI s \<noteq> g" if "map_of (sr_sessions (snd (TerminateByGrant g sr))) k = Some s" for k s
  proof (cases "map_of (sr_grantMap sr) g")
    case None
    then have "grantConns g sr = []" "map_of (sr_sessions sr) k = Some s"
      using that by (simp_all add: grantConns_def TerminateByGrant_def)
    then show ?thesis using i unfolding registryInv_def by force
  next
    case (Some ids)
    with that have "k \<notin> set ids" "map_of (sr_sessions sr) k = Some s"
      using terminateConns_map [of ids "sr_sessions sr" k] by (auto simp: TerminateByGrant_def split: prod.splits if_splits)
    moreover have "grantConns g sr = ids" using Some by (simp add: grantConns_def)
    ultimately show ?thesis using i by (auto simp: registryInv_def)
  qed
  moreover have "fst (TerminateByGrant g sr) = int (length (sr_sessions sr)) - int (length (sr_sessions (snd (TerminateByGrant g sr))))"
  proof (cases "map_of (sr_grantMap sr) g")
    case (Some ids)
    then show ?thesis
      using terminateConns_count [OF dist, of ids]
      by (cases "terminateConns ids (sr_sessions sr)") (simp add: TerminateByGrant_def)
  qed (simp add: TerminateByGrant_def)
  moreover have "map_of (sr_sessions (snd (TerminateByDevice d sr))) k =
      (case map_of (sr_sessions sr) k of None \<Rightarrow> None | Some s \<Rightarrow> if as_DeviceID s = d then None else Some s)"
    using map_of_filter_values [OF dist, of "\<lambda>s. as_DeviceID s \<noteq> d" k] by (auto simp: TerminateByDevice_def split: option.splits)
  moreover have "fst (TerminateByDevice d sr) = int (length (sr_sessions sr)) - int (length (sr_sessions (snd (TerminateByDevice d sr))))"
    using sum_length_filter_compl [of "\<lambda>(k, s). as_DeviceID s = d" "sr_sessions sr"]
    by (simp add: TerminateByDevice_def case_prod_unfold)
  ultimately show ?thesis unfolding sr_def Let_def by blast
qed

section \<open>Concrete runs\<close>

definition demo_conns :: "nat \<Rightarrow> conn_world" where
  "demo_conns c = \<lparr>cw_SrcAddr = ''100.64.0.1:5'', cw_DstAddr = ''100.64.0.2:22'', cw_acl = True, cw_connID = Some [of_nat c],
     cw_now = 0, cw_approved = True, cw_backend = True\<rparr>"

lemma demo_world: "cw_acl (demo_conns c)" "cw_connID (demo_conns c) \<noteq> None" "0 < px_MaxPendingConns tcpproxy_DefaultConfig"
  by (simp_all add: demo_conns_def tcpproxy_DefaultConfig_def)

text \<open>One connection taken through to the backend, and the same stopped while it is held.\<close>

definition demo_proxy :: "nat \<Rightarrow> Proxy" where
  "demo_proxy n = (connStep demo_conns 0 ^^ n) (acceptConn 0 (tcpproxy_New tcpproxy_DefaultConfig))"

lemma demo_proxy_reached: "(proxy_step demo_conns)\<^sup>*\<^sup>* (tcpproxy_New tcpproxy_DefaultConfig) (demo_proxy n)"
proof (induction n)
  case 0
  then show ?case using proxy_step.accept by (auto simp: demo_proxy_def)
next
  case (Suc n)
  then show ?case using proxy_step.advance [of demo_conns "demo_proxy n" 0] by (auto simp: demo_proxy_def)
qed

lemma demo_proxy_phase:
  "pr_conns (demo_proxy 3) 0 = Some (Held (newHeld [0] ''100.64.0.1:5'' ''100.64.0.2:22'' 0))"
  "pr_conns (demo_proxy 5) 0 = Some (Spliced (newHeld [0] ''100.64.0.1:5'' ''100.64.0.2:22'' 0))"
  by (simp_all add: demo_proxy_def eval_nat_numeral connStep_def acceptConn_def tcpproxy_New_def tcpproxy_DefaultConfig_def
      demo_conns_def Let_def)

theorem spliced_only_if_approved_witness:
  "(\<exists>hc. pr_conns (demo_proxy 5) 0 = Some (Spliced hc)) \<and> cw_approved (demo_conns 0) \<and>
     pr_pendingCount (demo_proxy 5) = wrap32 (int (card {c. holding (pr_conns (demo_proxy 5) c)}))"
  using spliced_only_if_approved [OF demo_proxy_reached [of 5], of 0] demo_proxy_phase(2) by auto

theorem held_read_always_fails_witness:
  "heldConnection_Read (Some [1, 2]) (newHeld [0] ''100.64.0.1:5'' ''100.64.0.2:22'' 0) =
     (Inl BufferExceeded, newHeld [0] ''100.64.0.1:5'' ''100.64.0.2:22'' 0)"
  by (rule held_read_always_fails [OF demo_proxy_reached demo_proxy_phase(1)])

theorem pending_bound_exceeded_witness:
  "\<exists>p. (proxy_step demo_conns)\<^sup>*\<^sup>* (tcpproxy_New tcpproxy_DefaultConfig) p \<and> pr_pendingCount p = int 101"
  by (rule pending_bound_exceeded [OF demo_world]) simp

text \<open>A proxy for one connection, with one spliced and a second that has passed the ACL.\<close>

definition demo_full :: Proxy where
  "demo_full = connStep demo_conns 1 (acceptConn 1 ((connStep demo_conns 0 ^^ 5) (acceptConn 0
     (tcpproxy_New (tcpproxy_DefaultConfig\<lparr>px_MaxPendingConns := 1\<rparr>)))))"

theorem spliced_exhaust_bound_witness: "pr_conns (connStep demo_conns 1 demo_full) 1 = Some Closed"
proof -
  let ?new = "tcpproxy_New (tcpproxy_DefaultConfig\<lparr>px_MaxPendingConns := 1\<rparr>)"
  let ?hc = "newHeld [0] ''100.64.0.1:5'' ''100.64.0.2:22'' 0"
  have steps: "(proxy_step demo_conns)\<^sup>*\<^sup>* p ((connStep demo_conns 0 ^^ n) p)" for p n
    by (induction n) (auto intro: rtranclp.rtrancl_into_rtrancl proxy_step.advance)
  have "(proxy_step demo_conns)\<^sup>*\<^sup>* ?new ((connStep demo_conns 0 ^^ 5) (acceptConn 0 ?new))"
    by (rule converse_rtranclp_into_rtranclp [OF proxy_step.accept steps])
  then have r: "(proxy_step demo_conns)\<^sup>*\<^sup>* ?new demo_full"
    unfolding demo_full_def by (meson proxy_step.accept proxy_step.advance rtranclp.rtrancl_into_rtrancl)
  have "pr_conns demo_full = [0 \<mapsto> Spliced ?hc, 1 \<mapsto> Authorized]" "px_MaxPendingConns (pr_config demo_full) = 1"
    by (simp_all add: demo_full_def eval_nat_numeral connStep_def acceptConn_def tcpproxy_New_def tcpproxy_DefaultConfig_def
        demo_conns_def Let_def)
  moreover from this have "{d. \<exists>hc. pr_conns demo_full d = Some (Spliced hc)} = {0}" "{d. holding (pr_conns demo_full d)} = {0}"
    by (auto split: if_splits)
  ultimately show ?thesis using spliced_exhaust_bound [OF r, of 1] by simp
qed

theorem Read_buffers_prefix_witness:
  "\<exists>hc'. heldConnection_Read (Some [7, 8, 9])
       \<lparr>hc_ID = [], hc_SrcAddr = [], hc_DstAddr = [], hc_Buffered = [5, 0, 0], hc_BufferedLen = 1, hc_CreatedAt = 0\<rparr> = (Inr [7, 8, 9], hc') \<and>
     take (nat (hc_BufferedLen hc')) (hc_Buffered hc') = [5, 7, 8]"
proof -
  let ?hc = "\<lparr>hc_ID = [], hc_SrcAddr = [], hc_DstAddr = [], hc_Buffered = [5, 0, 0], hc_BufferedLen = 1, hc_CreatedAt = 0\<rparr>"
  have "\<exists>hc'. heldConnection_Read (Some [7, 8, 9]) ?hc = (Inr [7, 8, 9], hc')" by (simp add: heldConnection_Read_def Let_def)
  then obtain hc' where r: "heldConnection_Read (Some [7, 8, 9]) ?hc = (Inr [7, 8, 9], hc')" ..
  from Read_buffers_prefix [OF _ _ r] r show ?thesis by simp
qed

end
