(* ===== verification/Ssh.thy ===== *)
theory Ssh
  imports Prelude "HOL-Library.AList"
begin

text \<open>
  \<open>daemon/internal/ssh/enforcer.go\<close>: the Tailscale SSH hook, the PAM account check and the
  \<open>AuthorizedKeysCommand\<close> helper with their side of the socket, and the daemon-side authorizer that
  answers them and keeps the active sessions. What a socket delivers is an argument: \<open>None\<close> where the
  call on it fails. Requests are texts of ASCII characters, for which the white space of \<open>fmt.Sscanf\<close>
  is the six characters below.
\<close>

section \<open>Requests and results\<close>

record OIDCUser =
  ou_Issuer :: string
  ou_Subject :: string
  ou_UserID :: string

record PrincipalInfo =
  pi_TenantID :: uuid
  pi_TailnetID :: string
  pi_SrcNodeID :: string
  pi_SrcNodeKeyEpoch :: int
  pi_User :: "OIDCUser option"
  pi_NodeState :: string

record ApprovalRequest =
  areq_RequestID :: uuid
  areq_Principal :: "PrincipalInfo option"
  areq_Hostname :: string
  areq_SSHAccount :: string
  areq_Protocol :: string
  areq_SessionID :: bytes

record ApprovalResult =
  rs_Approved :: bool
  rs_GrantJTI :: uuid
  rs_SessionID :: bytes
  rs_ExpiresAt :: gotime

text \<open>The callback \<open>RequestApproval\<close>; on an error its result is not looked at.\<close>

type_synonym 'e approver = "ApprovalRequest \<Rightarrow> 'e + ApprovalResult"

definition approves :: "'e approver \<Rightarrow> ApprovalRequest \<Rightarrow> bool" where
  "approves approve req = (case approve req of Inl e \<Rightarrow> False | Inr result \<Rightarrow> rs_Approved result)"

datatype 'e ssh_error =
    ResolveFailed 'e
  | SessionIDFailed
  | ApprovalFailed 'e
  | NotApproved


section \<open>Tailscale SSH\<close>

definition AuthorizeSession ::
  "'e + PrincipalInfo \<Rightarrow> bytes option \<Rightarrow> uuid \<Rightarrow> 'e approver \<Rightarrow> string \<Rightarrow> string \<Rightarrow> 'e ssh_error + bytes" where
  "AuthorizeSession resolved rnd newID approve hostname sshAccount =
     attempt resolved ResolveFailed (\<lambda>pcpl.
     need rnd SessionIDFailed (\<lambda>sessionID.
     attempt (approve \<lparr>areq_RequestID = newID, areq_Principal = Some pcpl, areq_Hostname = hostname, areq_SSHAccount = sshAccount,
                       areq_Protocol = ''SSH'', areq_SessionID = sessionID\<rparr>) ApprovalFailed (\<lambda>result.
     reject (\<not> rs_Approved result) NotApproved (
     Inr sessionID))))"


section \<open>The clients of the socket\<close>

datatype pam_error = PamConnect | PamSend | PamRead | PamDenied

definition pamRequest :: "string \<Rightarrow> string \<Rightarrow> string \<Rightarrow> string" where
  "pamRequest username rhost pamTxnID = ''ACCT,'' @ username @ '','' @ rhost @ '','' @ pamTxnID"

text \<open>\<open>dialed\<close>: whether the socket accepted the connection; \<open>exchange\<close>: what comes back for what is written.\<close>

definition PAMAccountCheck ::
  "bool \<Rightarrow> (string \<Rightarrow> bool) \<Rightarrow> (string \<Rightarrow> string option) \<Rightarrow> string \<Rightarrow> string \<Rightarrow> string \<Rightarrow> pam_error + unit" where
  "PAMAccountCheck dialed sent exchange username rhost pamTxnID =
    (let request = pamRequest username rhost pamTxnID in
     reject (\<not> dialed) PamConnect (
     reject (\<not> sent request) PamSend (
     need (exchange request) PamRead (\<lambda>response.
     reject (take 256 response \<noteq> ''ALLOW'') PamDenied (Inr ())))))"

datatype authkeys_error = KeysConnect | KeysSend | KeysRead | KeysDenied

definition authkeysRequest :: "prims \<Rightarrow> string \<Rightarrow> bytes \<Rightarrow> string" where
  "authkeysRequest P username publicKey = ''AUTHKEYS,'' @ username @ '','' @ hex_bytes (sha256 P publicKey)"

definition AuthorizedKeysHelper_Execute ::
  "prims \<Rightarrow> bool \<Rightarrow> (string \<Rightarrow> bool) \<Rightarrow> (string \<Rightarrow> string option) \<Rightarrow> string \<Rightarrow> bytes \<Rightarrow> authkeys_error + bytes" where
  "AuthorizedKeysHelper_Execute P dialed sent exchange username publicKey =
    (let requestData = authkeysRequest P username publicKey in
     reject (\<not> dialed) KeysConnect (
     reject (\<not> sent requestData) KeysSend (
     need (exchange requestData) KeysRead (\<lambda>response.
     reject (take 1024 response = ''DENY'') KeysDenied (
     Inr publicKey)))))"


section \<open>Scanning a request\<close>

text \<open>
  \<open>fmt.Sscanf(request, "ACCT,%s,%s", &username, &rhost)\<close>: literals of the format must match; before a
  \<open>%s\<close> white space is skipped, except that a new line ends the scan with an error; \<open>%s\<close> takes the
  characters up to the next white space, and at least one must be left. An error leaves the remaining
  variables as they were, empty.
\<close>

definition isSpaceChar :: "char \<Rightarrow> bool" where
  "isSpaceChar c \<longleftrightarrow> c \<in> {CHR 0x09, CHR 0x0A, CHR 0x0B, CHR 0x0C, CHR 0x0D, CHR '' ''}"

fun skipSpace :: "string \<Rightarrow> string option" where
  "skipSpace [] = Some []"
| "skipSpace (c # cs) = (if c = CHR 0x0A then None else if isSpaceChar c then skipSpace cs else Some (c # cs))"

text \<open>The token and what follows it.\<close>

definition scanString :: "string \<Rightarrow> (string \<times> string) option" where
  "scanString s =
    (case skipSpace s of
       None \<Rightarrow> None
     | Some r \<Rightarrow> if r = [] then None else Some (takeWhile (\<lambda>c. \<not> isSpaceChar c) r, dropWhile (\<lambda>c. \<not> isSpaceChar c) r))"

fun matchLiteral :: "string \<Rightarrow> string \<Rightarrow> string option" where
  "matchLiteral [] s = Some s"
| "matchLiteral (c # cs) [] = None"
| "matchLiteral (c # cs) (d # ds) = (if c = d then matchLiteral cs ds else None)"

definition scanAcct :: "string \<Rightarrow> string \<times> string" where
  "scanAcct request =
    (case matchLiteral ''ACCT,'' request of
       None \<Rightarrow> ([], [])
     | Some r1 \<Rightarrow>
        (case scanString r1 of
           None \<Rightarrow> ([], [])
         | Some (username, r2) \<Rightarrow>
            (case matchLiteral '','' r2 of
               None \<Rightarrow> (username, [])
             | Some r3 \<Rightarrow> (case scanString r3 of None \<Rightarrow> (username, []) | Some (rhost, r4) \<Rightarrow> (username, rhost)))))"


section \<open>The daemon's side\<close>

record SSHSession =
  ss_SessionID :: bytes
  ss_Username :: string
  ss_RemoteHost :: string
  ss_GrantJTI :: uuid
  ss_DeviceID :: uuid
  ss_OpenedAt :: gotime
  ss_PAMTxnID :: string

type_synonym sessions = "(bytes \<times> SSHSession) list"

definition ssh_NewAuthorizer :: sessions where
  "ssh_NewAuthorizer = []"

text \<open>\<open>Start\<close> listens on the socket; every connection then runs \<open>handleRequest\<close> on the table.\<close>

definition ssh_Start :: "(string \<Rightarrow> bool) \<Rightarrow> string \<Rightarrow> sessions \<Rightarrow> string + sessions" where
  "ssh_Start listen socketPath a = reject (\<not> listen socketPath) socketPath (Inr a)"

text \<open>What a request meets: what is read, the random session identifier, the request identifier, the clock.\<close>

record ssh_world =
  sw_read :: "string option"
  sw_rand :: bytes
  sw_newID :: uuid
  sw_now :: gotime

definition sshRequest :: "ssh_world \<Rightarrow> string \<Rightarrow> ApprovalRequest" where
  "sshRequest w request =
    (case scanAcct request of (username, rhost) \<Rightarrow>
       \<lparr>areq_RequestID = sw_newID w, areq_Principal = None, areq_Hostname = rhost, areq_SSHAccount = username,
        areq_Protocol = ''SSH'', areq_SessionID = sw_rand w\<rparr>)"

text \<open>The answer written, if any, and the sessions. The buffer has 1024 bytes.\<close>

definition handleRequest :: "'e approver \<Rightarrow> ssh_world \<Rightarrow> sessions \<Rightarrow> string option \<times> sessions" where
  "handleRequest approve w active =
    (case sw_read w of
       None \<Rightarrow> (None, active)
     | Some received \<Rightarrow>
        (let req = sshRequest w (take 1024 received) in
         case approve req of
           Inl e \<Rightarrow> (Some ''DENY'', active)
         | Inr result \<Rightarrow>
            if \<not> rs_Approved result then (Some ''DENY'', active)
            else (Some ''ALLOW'',
                  AList.update (sw_rand w)
                    \<lparr>ss_SessionID = sw_rand w, ss_Username = areq_SSHAccount req, ss_RemoteHost = areq_Hostname req,
                     ss_GrantJTI = rs_GrantJTI result, ss_DeviceID = 0, ss_OpenedAt = sw_now w, ss_PAMTxnID = []\<rparr> active)))"

definition TerminateSession :: "bytes \<Rightarrow> sessions \<Rightarrow> bool \<times> sessions" where
  "TerminateSession sessionID active =
    (case map_of active sessionID of None \<Rightarrow> (False, active) | Some session \<Rightarrow> (True, AList.delete sessionID active))"

definition ssh_TerminateByDevice :: "uuid \<Rightarrow> sessions \<Rightarrow> int \<times> sessions" where
  "ssh_TerminateByDevice deviceID active =
     (int (length (filter (\<lambda>(k, s). ss_DeviceID s = deviceID) active)),
      filter (\<lambda>(k, s). ss_DeviceID s \<noteq> deviceID) active)"

inductive ssh_step :: "'e approver \<Rightarrow> sessions \<Rightarrow> sessions \<Rightarrow> bool" for approve where
  request: "ssh_step approve a (snd (handleRequest approve w a))"
| terminate: "ssh_step approve a (snd (TerminateSession sid a))"
| revoke: "ssh_step approve a (snd (ssh_TerminateByDevice dev a))"


section \<open>What a request says\<close>

lemma isSpaceChar_comma [simp]: "\<not> isSpaceChar (CHR '','')"
  by (simp add: isSpaceChar_def)

text \<open>After a token comes white space or the end, so the comma of the format never matches.\<close>

lemma comma_after_token:
  assumes "scanString r = Some (tok, rest)"
  shows "matchLiteral '','' rest = None"
proof -
  from assms obtain r' where "rest = dropWhile (\<lambda>c. \<not> isSpaceChar c) r'"
    by (auto simp: scanString_def split: option.splits if_splits)
  then show ?thesis
    by (induction r' arbitrary: rest) auto
qed

lemma scanAcct_no_host [simp]: "snd (scanAcct request) = []"
  by (auto simp: scanAcct_def comma_after_token split: option.splits)

lemma sshRequest_sel [simp]:
  "areq_Hostname (sshRequest w request) = []"
  "areq_SSHAccount (sshRequest w request) = fst (scanAcct request)"
  "areq_Principal (sshRequest w request) = None"
  by (cases "scanAcct request"; use scanAcct_no_host [of request] in \<open>simp add: sshRequest_def\<close>)+

lemma scanString_nospace:
  assumes "s \<noteq> []" and "list_all (\<lambda>c. \<not> isSpaceChar c) s"
  shows "scanString s = Some (s, [])"
proof -
  have "skipSpace s = Some s" using assms by (cases s) (auto simp: isSpaceChar_def)
  moreover have "takeWhile (\<lambda>c. \<not> isSpaceChar c) s = s" "dropWhile (\<lambda>c. \<not> isSpaceChar c) s = []"
    using assms(2) by (simp_all add: takeWhile_eq_all_conv dropWhile_eq_Nil_conv list_all_iff)
  ultimately show ?thesis using assms(1) by (simp add: scanString_def)
qed

lemma scanAcct_pam:
  assumes "list_all (\<lambda>c. \<not> isSpaceChar c) (u @ h @ t)"
  shows "scanAcct (pamRequest u h t) = (u @ '','' @ h @ '','' @ t, [])"
proof -
  have "scanString (u @ '','' @ h @ '','' @ t) = Some (u @ '','' @ h @ '','' @ t, [])"
    using assms by (intro scanString_nospace) (auto simp: list_all_iff)
  then show ?thesis by (simp add: scanAcct_def pamRequest_def)
qed

lemma scanAcct_authkeys: "scanAcct (authkeysRequest P u k) = ([], [])"
  by (simp add: scanAcct_def authkeysRequest_def)

lemma take_authkeys: "scanAcct (take 1024 (authkeysRequest P u k)) = ([], [])"
  by (simp add: scanAcct_def authkeysRequest_def)

lemma handleRequest_cases:
  "handleRequest approve w a =
    (case sw_read w of None \<Rightarrow> (None, a)
     | Some received \<Rightarrow>
        if approves approve (sshRequest w (take 1024 received))
        then (Some ''ALLOW'', snd (handleRequest approve w a)) else (Some ''DENY'', a))"
  by (auto simp: handleRequest_def approves_def Let_def split: option.splits sum.splits)


section \<open>Logins through the socket\<close>

text \<open>
  An account check against the daemon: what the module writes is what the daemon reads, and the answer
  is what the module reads back.
\<close>

definition served :: "'e approver \<Rightarrow> ssh_world \<Rightarrow> sessions \<Rightarrow> string \<Rightarrow> string option" where
  "served approve w active request = fst (handleRequest approve (w\<lparr>sw_read := Some request\<rparr>) active)"

lemma served_eq:
  "served approve w a request =
     Some (if approves approve (sshRequest w (take 1024 request)) then ''ALLOW'' else ''DENY'')"
  by (subst handleRequest_cases [of approve "w\<lparr>sw_read := Some request\<rparr>" a, THEN arg_cong, of fst, folded served_def])
    (simp add: sshRequest_def)

text \<open>
  An OpenSSH login of a user whose request has no white space and fits the buffer is let through by the
  account check exactly if the daemon's approval callback approves a request for SSH whose account is
  the user name, host and transaction identifier together with the commas between them, and whose host
  name is empty: the format string separates nothing, since \<open>%s\<close> reads over commas.
\<close>

theorem PAMAccountCheck_iff_approved:
  assumes "list_all (\<lambda>c. \<not> isSpaceChar c) (username @ rhost @ txn)"
    and "length username + length rhost + length txn \<le> 1017"
  shows "PAMAccountCheck True (\<lambda>_. True) (served approve w active) username rhost txn =
    (if approves approve
        \<lparr>areq_RequestID = sw_newID w, areq_Principal = None, areq_Hostname = [],
         areq_SSHAccount = username @ '','' @ rhost @ '','' @ txn, areq_Protocol = ''SSH'', areq_SessionID = sw_rand w\<rparr>
     then Inr () else Inl PamDenied)"
proof -
  let ?req = "pamRequest username rhost txn"
  have t: "take 1024 ?req = ?req" using assms(2) by (simp add: pamRequest_def)
  have "sshRequest w ?req =
      \<lparr>areq_RequestID = sw_newID w, areq_Principal = None, areq_Hostname = [],
       areq_SSHAccount = username @ '','' @ rhost @ '','' @ txn, areq_Protocol = ''SSH'', areq_SessionID = sw_rand w\<rparr>"
    using scanAcct_pam [OF assms(1)] by (simp add: sshRequest_def)
  with t show ?thesis by (simp add: PAMAccountCheck_def served_eq)
qed

text \<open>
  A login through the \<open>AuthorizedKeysCommand\<close> helper: the key is released exactly if the daemon
  approves a request without account and host name, whoever logs in and with whichever key, because
  the daemon scans no request of this kind. Whatever else answers on the pipe releases the key unless
  the answer is exactly \<open>DENY\<close>.
\<close>

theorem Execute_prompt_is_blank:
  "AuthorizedKeysHelper_Execute P True (\<lambda>_. True) (served approve w active) username publicKey =
    (if approves approve
        \<lparr>areq_RequestID = sw_newID w, areq_Principal = None, areq_Hostname = [], areq_SSHAccount = [],
         areq_Protocol = ''SSH'', areq_SessionID = sw_rand w\<rparr>
     then Inr publicKey else Inl KeysDenied) \<and>
   AuthorizedKeysHelper_Execute P True (\<lambda>_. True) (\<lambda>_. Some answer) username publicKey =
    (if take 1024 answer = ''DENY'' then Inl KeysDenied else Inr publicKey)"
  by (simp add: AuthorizedKeysHelper_Execute_def served_eq sshRequest_def take_authkeys)


section \<open>Sessions\<close>

text \<open>What every entry of the session table satisfies.\<close>

definition sessionOK :: "'e approver \<Rightarrow> bytes \<times> SSHSession \<Rightarrow> bool" where
  "sessionOK approve e \<longleftrightarrow>
     fst e = ss_SessionID (snd e) \<and> ss_DeviceID (snd e) = 0 \<and> ss_RemoteHost (snd e) = [] \<and>
     (\<exists>req result. approve req = Inr result \<and> rs_Approved result \<and> areq_SessionID req = ss_SessionID (snd e) \<and>
        areq_SSHAccount req = ss_Username (snd e) \<and> rs_GrantJTI result = ss_GrantJTI (snd e))"

lemma set_update: "set (AList.update k v xs) \<subseteq> insert (k, v) (set xs)"
  by (induction xs) auto

lemma handleRequest_sessions:
  assumes "e \<in> set (snd (handleRequest approve w a))"
  shows "e \<in> set a \<or> sessionOK approve e"
proof (cases "sw_read w")
  case None
  with assms show ?thesis by (simp add: handleRequest_def)
next
  case (Some received)
  let ?req = "sshRequest w (take 1024 received)"
  have sid: "areq_SessionID ?req = sw_rand w" by (simp add: sshRequest_def split: prod.splits)
  show ?thesis
  proof (cases "approve ?req")
    case (Inl err)
    with Some assms show ?thesis by (simp add: handleRequest_def)
  next
    case (Inr result)
    show ?thesis
    proof (cases "rs_Approved result")
      case True
      let ?s = "\<lparr>ss_SessionID = sw_rand w, ss_Username = areq_SSHAccount ?req, ss_RemoteHost = areq_Hostname ?req,
                 ss_GrantJTI = rs_GrantJTI result, ss_DeviceID = 0, ss_OpenedAt = sw_now w, ss_PAMTxnID = []\<rparr>"
      have "e \<in> set (AList.update (sw_rand w) ?s a)"
        using assms Some Inr True by (simp add: handleRequest_def)
      then have "e = (sw_rand w, ?s) \<or> e \<in> set a" using set_update [of "sw_rand w" ?s a] by blast
      moreover have "sessionOK approve (sw_rand w, ?s)"
        unfolding sessionOK_def using Inr True sid by (auto intro!: exI [of _ ?req])
      ultimately show ?thesis by blast
    next
      case False
      with Some Inr assms show ?thesis by (simp add: handleRequest_def)
    qed
  qed
qed

lemma sessionOK_step: "ssh_step approve a a' \<Longrightarrow> \<forall>e \<in> set a. sessionOK approve e \<Longrightarrow> \<forall>e \<in> set a'. sessionOK approve e"
proof (induction rule: ssh_step.induct)
  case (request a w)
  then show ?case using handleRequest_sessions by blast
next
  case (terminate a sid)
  then show ?case by (auto simp: TerminateSession_def AList.delete_eq split: option.splits)
next
  case (revoke a dev)
  then show ?case by (auto simp: ssh_TerminateByDevice_def)
qed

lemma sessionOK_reached: "(ssh_step approve)\<^sup>*\<^sup>* ssh_NewAuthorizer a \<Longrightarrow> \<forall>e \<in> set a. sessionOK approve e"
  by (induction rule: rtranclp_induct) (auto simp: ssh_NewAuthorizer_def dest: sessionOK_step)

text \<open>
  C39: Over any sequence of requests and terminations every session in the table was approved for the
  account it records and carries the grant of that approval. None of them records a device, so
  terminating the sessions of a revoked device removes nothing, and terminating those of the zero
  device removes all of them.
\<close>

theorem ssh_sessions_approved:
  assumes "(ssh_step approve)\<^sup>*\<^sup>* ssh_NewAuthorizer a"
  shows "list_all (\<lambda>(k, s). \<exists>req result. approve req = Inr result \<and> rs_Approved result \<and>
            areq_SessionID req = k \<and> areq_SSHAccount req = ss_Username s \<and> rs_GrantJTI result = ss_GrantJTI s) a \<and>
    ssh_TerminateByDevice dev a = (if dev = 0 then (int (length a), []) else (0, a))"
proof
  have ok: "\<forall>e \<in> set a. sessionOK approve e" by (rule sessionOK_reached [OF assms])
  then show "list_all (\<lambda>(k, s). \<exists>req result. approve req = Inr result \<and> rs_Approved result \<and>
      areq_SessionID req = k \<and> areq_SSHAccount req = ss_Username s \<and> rs_GrantJTI result = ss_GrantJTI s) a"
    by (fastforce simp: list_all_iff sessionOK_def)
  have dev: "\<forall>e \<in> set a. ss_DeviceID (snd e) = 0" using ok by (simp add: sessionOK_def)
  have 1: "filter (\<lambda>(k, s). ss_DeviceID s = dev) a = (if dev = 0 then a else [])"
    using dev by (auto simp: filter_empty_conv filter_id_conv)
  have 2: "filter (\<lambda>(k, s). ss_DeviceID s \<noteq> dev) a = (if dev = 0 then [] else a)"
    using dev by (auto simp: filter_empty_conv filter_id_conv)
  show "ssh_TerminateByDevice dev a = (if dev = 0 then (int (length a), []) else (0, a))"
    unfolding ssh_TerminateByDevice_def 1 2 by simp
qed


section \<open>Witnesses\<close>

definition demo_approver :: "string approver" where
  "demo_approver req =
     (if areq_SSHAccount req = ''al,h1,t1''
      then Inr \<lparr>rs_Approved = True, rs_GrantJTI = 7, rs_SessionID = areq_SessionID req, rs_ExpiresAt = 100\<rparr>
      else Inl ''no'')"

definition demo_ssh_world :: ssh_world where
  "demo_ssh_world = \<lparr>sw_read = Some ''ACCT,al,h1,t1'', sw_rand = [1, 2], sw_newID = 5, sw_now = 3\<rparr>"

theorem PAMAccountCheck_iff_approved_witness:
  "PAMAccountCheck True (\<lambda>_. True) (served demo_approver demo_ssh_world []) ''al'' ''h1'' ''t1'' = Inr () \<and>
   PAMAccountCheck True (\<lambda>_. True) (served demo_approver demo_ssh_world []) ''bo'' ''h1'' ''t1'' = Inl PamDenied"
  by (subst PAMAccountCheck_iff_approved PAMAccountCheck_iff_approved [of "''bo''"];
      simp add: isSpaceChar_def approves_def demo_approver_def demo_ssh_world_def)+

definition demo_ssh_sessions :: sessions where
  "demo_ssh_sessions = snd (handleRequest demo_approver demo_ssh_world ssh_NewAuthorizer)"

theorem ssh_sessions_approved_witness:
  "length demo_ssh_sessions = 1 \<and> ssh_TerminateByDevice 9 demo_ssh_sessions = (0, demo_ssh_sessions)"
proof -
  have "(ssh_step demo_approver)\<^sup>*\<^sup>* ssh_NewAuthorizer demo_ssh_sessions"
    unfolding demo_ssh_sessions_def by (intro r_into_rtranclp ssh_step.request)
  from ssh_sessions_approved [OF this, of 9]
  have "ssh_TerminateByDevice 9 demo_ssh_sessions = (0, demo_ssh_sessions)" by simp
  moreover have "length demo_ssh_sessions = 1"
    by (simp add: demo_ssh_sessions_def handleRequest_def demo_ssh_world_def sshRequest_def scanAcct_def scanString_def
        isSpaceChar_def demo_approver_def ssh_NewAuthorizer_def)
  ultimately show ?thesis by simp
qed

end
