(* ===== verification/Firewall.thy ===== *)
theory Firewall
  imports Prelude
begin

text \<open>
  \<open>daemon/internal/firewall/manager.go\<close>: the rules that isolate the backend, their installation by
  platform, the periodic verification and the removal. The programs \<open>nft\<close>, \<open>netsh\<close> and \<open>pfctl\<close> are not
  code of the repository: \<open>run\<close> says for a command whether it succeeds, and every operation returns the
  commands it ran, in order, so that what reaches the operating system is part of its result.
\<close>

section \<open>Rules and commands\<close>

abbreviation OSLinux :: string where "OSLinux \<equiv> ''linux''"
abbreviation OSWindows :: string where "OSWindows \<equiv> ''windows''"
abbreviation OSMacOS :: string where "OSMacOS \<equiv> ''macos''"

definition CurrentOS :: "string \<Rightarrow> string" where
  "CurrentOS goos = (if goos = ''darwin'' then OSMacOS else goos)"

record FirewallRule =
  fr_Name :: string
  fr_Table :: string
  fr_Chain :: string
  fr_Direction :: string
  fr_Protocol :: string
  fr_SrcAddr :: string
  fr_DstAddr :: string
  fr_DstPort :: int
  fr_Target :: string
  fr_Priority :: int

record fw_manager =
  fm_os :: string
  fm_rules :: "FirewallRule list"
  fm_stopped :: bool

definition NewManager :: "string \<Rightarrow> fw_manager" where
  "NewManager goos = \<lparr>fm_os = CurrentOS goos, fm_rules = [], fm_stopped = False\<rparr>"

text \<open>A program with its arguments and its standard input.\<close>

record command =
  c_argv :: "string list"
  c_stdin :: string

definition cmdOf :: "string list \<Rightarrow> command" where
  "cmdOf argv = \<lparr>c_argv = argv, c_stdin = []\<rparr>"

datatype fw_error =
    UnsupportedOS string
  | NftFailed
  | NetshFailed string
  | TickerPanic
  | ClosedTwice


section \<open>The rules of each platform\<close>

definition zeroRule :: FirewallRule where
  "zeroRule = \<lparr>fr_Name = [], fr_Table = [], fr_Chain = [], fr_Direction = [], fr_Protocol = [], fr_SrcAddr = [],
     fr_DstAddr = [], fr_DstPort = 0, fr_Target = [], fr_Priority = 0\<rparr>"

definition linuxRule :: FirewallRule where
  "linuxRule = zeroRule\<lparr>fr_Table := ''dnivio-isolation'', fr_Chain := ''INPUT'', fr_Direction := ''INPUT''\<rparr>"

definition linuxNftablesRules :: "string \<Rightarrow> int \<Rightarrow> int \<Rightarrow> FirewallRule list" where
  "linuxNftablesRules backendAddr backendPort proxyPort =
     [linuxRule\<lparr>fr_Name := ''dnivio-deny-direct-backend-v4'', fr_Protocol := ''tcp'', fr_DstAddr := backendAddr,
        fr_DstPort := backendPort, fr_Target := ''DROP''\<rparr>,
      linuxRule\<lparr>fr_Name := ''dnivio-deny-direct-backend-v6'', fr_Protocol := ''tcp'', fr_DstAddr := backendAddr,
        fr_DstPort := backendPort, fr_Target := ''DROP''\<rparr>,
      linuxRule\<lparr>fr_Name := ''dnivio-deny-backend-udp'', fr_Protocol := ''udp'', fr_DstAddr := backendAddr,
        fr_Target := ''DROP''\<rparr>,
      linuxRule\<lparr>fr_Name := ''dnivio-allow-proxy-port'', fr_Protocol := ''tcp'', fr_DstPort := proxyPort,
        fr_Target := ''ACCEPT''\<rparr>]"

definition windowsWFPRules :: "string \<Rightarrow> int \<Rightarrow> int \<Rightarrow> FirewallRule list" where
  "windowsWFPRules backendAddr backendPort proxyPort =
     [zeroRule\<lparr>fr_Name := ''Dnivio Deny Direct Backend'', fr_Protocol := ''tcp'', fr_DstAddr := backendAddr,
        fr_DstPort := backendPort, fr_Target := ''BLOCK''\<rparr>,
      zeroRule\<lparr>fr_Name := ''Dnivio Deny Backend UDP'', fr_Protocol := ''udp'', fr_DstAddr := backendAddr,
        fr_Target := ''BLOCK''\<rparr>]"

definition macOSPFCRules :: "string \<Rightarrow> int \<Rightarrow> int \<Rightarrow> FirewallRule list" where
  "macOSPFCRules backendAddr backendPort proxyPort =
     [zeroRule\<lparr>fr_Name := ''dnivio-deny-backend'', fr_Protocol := ''tcp'', fr_DstAddr := backendAddr,
        fr_DstPort := backendPort, fr_Target := ''DROP''\<rparr>,
      zeroRule\<lparr>fr_Name := ''dnivio-deny-backend-udp'', fr_Protocol := ''udp'', fr_DstAddr := backendAddr,
        fr_Target := ''DROP''\<rparr>]"


section \<open>Installation\<close>

abbreviation nl :: string where "nl \<equiv> [CHR 0x0A]"

definition nftHead :: string where
  "nftHead = ''#!/usr/sbin/nft -f'' @ nl @ nl
     @ ''flush table inet dnivio-isolation 2>/dev/null'' @ nl
     @ ''delete table inet dnivio-isolation 2>/dev/null'' @ nl @ nl
     @ ''table inet dnivio-isolation {'' @ nl
     @ ''    chain input {'' @ nl
     @ ''        type filter hook input priority filter; policy accept;'' @ nl"

definition nftTail :: string where
  "nftTail = ''    }'' @ nl @ ''}'' @ nl"

definition nftLine :: "FirewallRule \<Rightarrow> string" where
  "nftLine r =
     (if fr_Protocol r = ''udp''
      then ''        udp daddr '' @ fr_DstAddr r @ '' dport '' @ show_int (fr_DstPort r) @ '' drop'' @ nl
      else ''        tcp daddr '' @ fr_DstAddr r @ '' dport '' @ show_int (fr_DstPort r) @ '' drop'' @ nl)"

definition installNftables :: "(command \<Rightarrow> bool) \<Rightarrow> FirewallRule list \<Rightarrow> (fw_error + unit) \<times> command list" where
  "installNftables run rules =
    (let nftScript = nftHead @ concat (map nftLine rules) @ nftTail;
         cmd = \<lparr>c_argv = [''nft'', ''-f'', ''-''], c_stdin = nftScript\<rparr>
     in (if run cmd then Inr () else Inl NftFailed, [cmd]))"

definition netshAdd :: "FirewallRule \<Rightarrow> command" where
  "netshAdd r = cmdOf [''netsh'', ''advfirewall'', ''firewall'', ''add'', ''rule'',
     ''name='' @ fr_Name r, ''dir=in'', ''protocol='' @ fr_Protocol r, ''remoteip='' @ fr_DstAddr r, ''action=block'']"

fun installWFP :: "(command \<Rightarrow> bool) \<Rightarrow> FirewallRule list \<Rightarrow> (fw_error + unit) \<times> command list" where
  "installWFP run [] = (Inr (), [])"
| "installWFP run (r # rules) =
    (if run (netshAdd r) then (case installWFP run rules of (res, cmds) \<Rightarrow> (res, netshAdd r # cmds))
     else (Inl (NetshFailed (fr_Name r)), [netshAdd r]))"

definition installPF :: "FirewallRule list \<Rightarrow> (fw_error + unit) \<times> command list" where
  "installPF rules = (Inr (), [cmdOf [''pfctl'', ''-e'']])"

definition installRules :: "(command \<Rightarrow> bool) \<Rightarrow> string \<Rightarrow> FirewallRule list \<Rightarrow> (fw_error + unit) \<times> command list" where
  "installRules run os rules =
    (if os = OSLinux then installNftables run rules
     else if os = OSWindows then installWFP run rules
     else if os = OSMacOS then installPF rules
     else (Inl (UnsupportedOS os), []))"

text \<open>The rules are recorded before they are installed, and stay recorded when that fails.\<close>

definition ApplyBackendIsolation ::
  "(command \<Rightarrow> bool) \<Rightarrow> string \<Rightarrow> int \<Rightarrow> int \<Rightarrow> fw_manager \<Rightarrow> (fw_error + unit) \<times> command list \<times> fw_manager" where
  "ApplyBackendIsolation run backendAddr backendPort proxyPort m =
    (let apply = (\<lambda>rules. case installRules run (fm_os m) rules of (res, cmds) \<Rightarrow> (res, cmds, m\<lparr>fm_rules := rules\<rparr>))
     in if fm_os m = OSLinux then apply (linuxNftablesRules backendAddr backendPort proxyPort)
        else if fm_os m = OSWindows then apply (windowsWFPRules backendAddr backendPort proxyPort)
        else if fm_os m = OSMacOS then apply (macOSPFCRules backendAddr backendPort proxyPort)
        else (Inl (UnsupportedOS (fm_os m)), [], m))"


section \<open>Verification and removal\<close>

text \<open>The interval of the ticker; \<open>time.NewTicker\<close> panics on one that is not positive.\<close>

definition StartVerification :: "duration \<Rightarrow> fw_error + duration" where
  "StartVerification interval =
    (let interval' = (if interval > second then second else interval)
     in reject (interval' \<le> 0) TickerPanic (Inr interval'))"

text \<open>The outcome of the command is dropped on every platform.\<close>

definition verify :: "(command \<Rightarrow> bool) \<Rightarrow> fw_manager \<Rightarrow> command list \<times> fw_manager" where
  "verify run m =
    (if fm_rules m = [] then ([], m)
     else if fm_os m = OSLinux then
       (let cmd = cmdOf [''nft'', ''list'', ''table'', ''inet'', ''dnivio-isolation''] in if \<not> run cmd then ([cmd], m) else ([cmd], m))
     else if fm_os m = OSWindows then
       (let cmd = cmdOf [''netsh'', ''advfirewall'', ''firewall'', ''show'', ''rule'', ''name=dnivio'']
        in if \<not> run cmd then ([cmd], m) else ([cmd], m))
     else if fm_os m = OSMacOS then
       (let cmd = cmdOf [''pfctl'', ''-s'', ''info''] in if \<not> run cmd then ([cmd], m) else ([cmd], m))
     else ([], m))"

definition netshDelete :: "FirewallRule \<Rightarrow> command" where
  "netshDelete r = cmdOf [''netsh'', ''advfirewall'', ''firewall'', ''delete'', ''rule'', ''name='' @ fr_Name r]"

definition RemoveAll :: "fw_manager \<Rightarrow> command list \<times> fw_manager" where
  "RemoveAll m =
    (let cmds = (if fm_os m = OSLinux then [cmdOf [''nft'', ''delete'', ''table'', ''inet'', ''dnivio-isolation'']]
                 else if fm_os m = OSWindows then map netshDelete (fm_rules m)
                 else [])
     in (cmds, m\<lparr>fm_rules := []\<rparr>))"

text \<open>\<open>Stop\<close> closes the channel the verification loop waits on; closing it again panics.\<close>

definition fw_Stop :: "fw_manager \<Rightarrow> (fw_error + unit) \<times> command list \<times> fw_manager" where
  "fw_Stop m =
    (if fm_stopped m then (Inl ClosedTwice, [], m)
     else case RemoveAll (m\<lparr>fm_stopped := True\<rparr>) of (cmds, m') \<Rightarrow> (Inr (), cmds, m'))"

text \<open>\<open>dial\<close>: whether the connection to the address succeeds within the timeout.\<close>

definition ProbeBackendReachability :: "(string \<Rightarrow> bool) \<Rightarrow> string \<Rightarrow> int \<Rightarrow> bool" where
  "ProbeBackendReachability dial backendAddr backendPort = dial (backendAddr @ '':'' @ show_int backendPort)"


section \<open>Runs of the manager\<close>

datatype fw_op =
    OpApply "command \<Rightarrow> bool" string int int
  | OpVerify "command \<Rightarrow> bool"
  | OpRemoveAll
  | OpStop

fun fwDo :: "fw_op \<Rightarrow> fw_manager \<Rightarrow> command list \<times> fw_manager" where
  "fwDo (OpApply run addr port proxy) m = snd (ApplyBackendIsolation run addr port proxy m)"
| "fwDo (OpVerify run) m = verify run m"
| "fwDo OpRemoveAll m = RemoveAll m"
| "fwDo OpStop m = snd (fw_Stop m)"

fun fwRun :: "fw_op list \<Rightarrow> fw_manager \<Rightarrow> command list \<times> fw_manager" where
  "fwRun [] m = ([], m)"
| "fwRun (opn # ops) m = (case fwDo opn m of (cmds, m1) \<Rightarrow> case fwRun ops m1 of (cmds', m2) \<Rightarrow> (cmds @ cmds', m2))"


section \<open>Removal leaves nothing behind\<close>

text \<open>The argument by which \<open>netsh\<close> knows a rule.\<close>

definition nameArg :: "FirewallRule \<Rightarrow> string" where
  "nameArg r = ''name='' @ fr_Name r"

text \<open>The names of what a command may leave installed, whether or not it reported success.\<close>

definition installedBy :: "string set \<Rightarrow> command \<Rightarrow> string set" where
  "installedBy S c =
    (if take 5 (c_argv c) = [''netsh'', ''advfirewall'', ''firewall'', ''add'', ''rule''] then insert (c_argv c ! 5) S
     else if take 5 (c_argv c) = [''netsh'', ''advfirewall'', ''firewall'', ''delete'', ''rule''] then S - {c_argv c ! 5}
     else if c_argv c = [''nft'', ''-f'', ''-''] then insert ''table'' S
     else if c_argv c = [''nft'', ''delete'', ''table'', ''inet'', ''dnivio-isolation''] then S - {''table''}
     else S)"

definition installedAfter :: "string set \<Rightarrow> command list \<Rightarrow> string set" where
  "installedAfter S cmds = foldl installedBy S cmds"

lemma installedAfter_simps [simp]:
  "installedAfter S [] = S"
  "installedAfter S (c # cs) = installedAfter (installedBy S c) cs"
  "installedAfter S (cs @ ds) = installedAfter (installedAfter S cs) ds"
  by (simp_all add: installedAfter_def)

lemma installedBy_netsh [simp]:
  "installedBy S (netshAdd r) = insert (nameArg r) S"
  "installedBy S (netshDelete r) = S - {nameArg r}"
  by (simp_all add: installedBy_def netshAdd_def netshDelete_def cmdOf_def nameArg_def)

text \<open>What may be installed for a manager: the rules it records by name, the one table, or nothing.\<close>

definition accountedFor :: "fw_manager \<Rightarrow> string set \<Rightarrow> bool" where
  "accountedFor m S \<longleftrightarrow>
     S \<subseteq> (if fm_os m = OSWindows then nameArg ` set (fm_rules m)
          else if fm_os m = OSLinux then {''table''} else {})"

lemma installWFP_names: "installedAfter S (snd (installWFP run rules)) \<subseteq> S \<union> nameArg ` set rules"
proof (induction rules arbitrary: S)
  case (Cons r rules)
  from Cons [of "insert (nameArg r) S"] show ?case by (auto split: prod.splits)
qed simp

lemma windows_names:
  "nameArg ` set (windowsWFPRules a p q) = {''name=Dnivio Deny Direct Backend'', ''name=Dnivio Deny Backend UDP''}"
  by (simp add: windowsWFPRules_def nameArg_def)

lemma deletes_names: "installedAfter S (map netshDelete rules) = S - nameArg ` set rules"
  by (induction rules arbitrary: S) auto

lemma RemoveAll_empties: "accountedFor m S \<Longrightarrow> installedAfter S (fst (RemoveAll m)) = {}"
  by (auto simp: RemoveAll_def Let_def accountedFor_def deletes_names installedBy_def cmdOf_def split: if_splits)

text \<open>On Windows the recorded rules are none or the two of the platform, whose names never vary.\<close>

definition managerOK :: "fw_manager \<Rightarrow> bool" where
  "managerOK m \<longleftrightarrow>
     (if fm_os m = OSWindows \<and> fm_rules m \<noteq> []
      then nameArg ` set (fm_rules m) = {''name=Dnivio Deny Direct Backend'', ''name=Dnivio Deny Backend UDP''}
      else True)"

lemma fwDo_os: "fm_os (snd (fwDo opn m)) = fm_os m"
  by (cases opn) (auto simp: ApplyBackendIsolation_def verify_def RemoveAll_def fw_Stop_def Let_def split: prod.splits)

lemma Apply_accounted:
  assumes "accountedFor m S" "managerOK m" "ApplyBackendIsolation run a p q m = (res, cmds, m')"
  shows "accountedFor m' (installedAfter S cmds) \<and> managerOK m'"
proof (cases "fm_os m = OSWindows")
  case True
  let ?names = "{''name=Dnivio Deny Direct Backend'', ''name=Dnivio Deny Backend UDP''}"
  have m': "m' = m\<lparr>fm_rules := windowsWFPRules a p q\<rparr>" and cmds: "cmds = snd (installWFP run (windowsWFPRules a p q))"
    using assms(3) True by (auto simp: ApplyBackendIsolation_def installRules_def split: prod.splits)
  have "S \<subseteq> ?names" using assms(1,2) True by (auto simp: accountedFor_def managerOK_def split: if_splits)
  then have "installedAfter S cmds \<subseteq> ?names"
    using installWFP_names [of S run "windowsWFPRules a p q"] unfolding cmds windows_names by blast
  then show ?thesis using True unfolding accountedFor_def managerOK_def m' by (simp add: windows_names)
next
  case False
  with assms show ?thesis
    by (auto simp: ApplyBackendIsolation_def accountedFor_def managerOK_def installRules_def installNftables_def installPF_def
        installedBy_def cmdOf_def Let_def split: if_splits)
qed

lemma verify_installs_nothing: "installedAfter S (fst (verify run m)) = S" "snd (verify run m) = m"
  by (auto simp: verify_def Let_def installedBy_def cmdOf_def)

lemma fwDo_accounted:
  assumes "accountedFor m S" "managerOK m"
  shows "accountedFor (snd (fwDo opn m)) (installedAfter S (fst (fwDo opn m))) \<and> managerOK (snd (fwDo opn m))"
proof -
  have removed: "accountedFor (snd (RemoveAll k)) (installedAfter S (fst (RemoveAll k))) \<and> managerOK (snd (RemoveAll k))"
    if "accountedFor k S" for k
    using RemoveAll_empties [OF that] by (simp add: accountedFor_def managerOK_def RemoveAll_def Let_def)
  show ?thesis
  proof (cases opn)
    case (OpApply run a p q)
    then show ?thesis using Apply_accounted [OF assms, of run a p q] by (metis fwDo.simps(1) prod.collapse)
  next
    case (OpVerify run)
    with assms show ?thesis by (simp add: verify_installs_nothing)
  next
    case OpRemoveAll
    with removed [OF assms(1)] show ?thesis by simp
  next
    case OpStop
    have "accountedFor (m\<lparr>fm_stopped := True\<rparr>) S" using assms(1) by (simp add: accountedFor_def cong: if_cong)
    from removed [OF this] OpStop assms show ?thesis by (simp add: fw_Stop_def split: prod.splits)
  qed
qed

lemma fwRun_accounted:
  "accountedFor m S \<Longrightarrow> managerOK m \<Longrightarrow>
     accountedFor (snd (fwRun ops m)) (installedAfter S (fst (fwRun ops m))) \<and> managerOK (snd (fwRun ops m))"
proof (induction ops arbitrary: m S)
  case (Cons opn ops)
  obtain cmds m1 where d: "fwDo opn m = (cmds, m1)" by fastforce
  from fwDo_accounted [OF Cons.prems, of opn] d have "accountedFor m1 (installedAfter S cmds)" "managerOK m1" by simp_all
  from Cons.IH [OF this] d show ?case by (simp add: split_beta)
qed simp

lemma fwRun_snoc: "fst (fwRun (ops @ [opn]) m) = fst (fwRun ops m) @ fst (fwDo opn (snd (fwRun ops m)))"
  by (induction ops arbitrary: m) (auto simp: split_beta)

text \<open>
  However the manager was used before, on whatever platform and with whichever commands failing, after
  \<open>RemoveAll\<close> no rule or table that one of its commands may have installed is left: every name added
  was deleted afterwards.
\<close>

theorem RemoveAll_complete:
  "installedAfter {} (fst (fwRun (ops @ [OpRemoveAll]) (NewManager goos))) = {}"
proof -
  have "accountedFor (NewManager goos) {}" "managerOK (NewManager goos)"
    by (simp_all add: accountedFor_def managerOK_def NewManager_def)
  from fwRun_accounted [OF this, of ops] show ?thesis by (simp add: fwRun_snoc RemoveAll_empties)
qed


section \<open>What the rules say to the system\<close>

text \<open>
  On Linux the rules reach the system as one script, whose text does not depend on the targets of the
  rules: each of them is a \<open>drop\<close>. The rule that should accept the proxy's port is the last one, and
  reads as a drop for that port with an empty address.
\<close>

theorem nftables_ignores_targets:
  "installNftables run (map (\<lambda>r. r\<lparr>fr_Target := target r\<rparr>) rules) = installNftables run rules \<and>
   map (drop 8) (map nftLine (linuxNftablesRules addr port proxyPort)) =
     [''tcp daddr '' @ addr @ '' dport '' @ show_int port @ '' drop'' @ nl,
      ''tcp daddr '' @ addr @ '' dport '' @ show_int port @ '' drop'' @ nl,
      ''udp daddr '' @ addr @ '' dport '' @ show_int 0 @ '' drop'' @ nl,
      ''tcp daddr  dport '' @ show_int proxyPort @ '' drop'' @ nl]"
proof
  have "map nftLine (map (\<lambda>r. r\<lparr>fr_Target := target r\<rparr>) rules) = map nftLine rules"
    by (simp add: nftLine_def)
  then show "installNftables run (map (\<lambda>r. r\<lparr>fr_Target := target r\<rparr>) rules) = installNftables run rules"
    unfolding installNftables_def by (simp only:)
qed (simp add: linuxNftablesRules_def nftLine_def linuxRule_def zeroRule_def)

text \<open>
  On macOS no command of the manager installs a filter: over any run it only enables the packet filter
  and asks for its status, while \<open>ApplyBackendIsolation\<close> reports success.
\<close>

theorem macOS_never_isolates:
  "set (fst (fwRun ops (NewManager ''darwin''))) \<subseteq> {cmdOf [''pfctl'', ''-e''], cmdOf [''pfctl'', ''-s'', ''info'']} \<and>
   fst (ApplyBackendIsolation run addr port proxyPort (NewManager ''darwin'')) = Inr ()"
proof
  have "fm_os m = OSMacOS \<Longrightarrow> set (fst (fwRun ops m)) \<subseteq> {cmdOf [''pfctl'', ''-e''], cmdOf [''pfctl'', ''-s'', ''info'']}" for m
  proof (induction ops arbitrary: m)
    case (Cons opn ops)
    obtain cmds m1 where d: "fwDo opn m = (cmds, m1)" by fastforce
    have "fm_os m1 = OSMacOS" using fwDo_os [of opn m] d Cons.prems by simp
    moreover have "set cmds \<subseteq> {cmdOf [''pfctl'', ''-e''], cmdOf [''pfctl'', ''-s'', ''info'']}"
      using d Cons.prems
      by (cases opn) (auto simp: ApplyBackendIsolation_def installRules_def installPF_def verify_def RemoveAll_def fw_Stop_def
          Let_def split: if_splits)
    ultimately show ?case using Cons.IH [of m1] d by (auto split: prod.splits)
  qed simp
  then show "set (fst (fwRun ops (NewManager ''darwin''))) \<subseteq> {cmdOf [''pfctl'', ''-e''], cmdOf [''pfctl'', ''-s'', ''info'']}"
    by (simp add: NewManager_def CurrentOS_def)
qed (simp add: NewManager_def CurrentOS_def ApplyBackendIsolation_def installRules_def installPF_def)

end
