(* ===== verification/DaemonMain.thy ===== *)
theory DaemonMain
  imports GrantConsumption KeyManager Interstitial TcpProxy Ssh Firewall
begin

text \<open>
  \<open>daemon/cmd/dnv-daemon/main.go\<close>: the configuration, the trust root, the start-up sequence that puts
  the grant cache, the firewall, the SSH authorizer, the TCP proxy and the HTTPS handlers together, and
  the callbacks it gives them. \<open>daemon_os\<close> is what the operating system answers during start-up.
  The HTTP multiplexer is modelled on request paths in canonical form, which it does not redirect.
\<close>

section \<open>Configuration\<close>

record DaemonConfig =
  dc_GrantCachePath :: string
  dc_BackendAddr :: string
  dc_BackendPort :: int
  dc_ProxyPort :: int
  dc_TLSEnabled :: bool
  dc_TLSCertFile :: string
  dc_TLSKeyFile :: string
  dc_SSHEnabled :: bool
  dc_SSHSocketPath :: string
  dc_MaxPendingConns :: int
  dc_MaxPreApprovalBytes :: int
  dc_MaxAggregateMem :: int
  dc_FirewallVerifyInterval :: duration
  dc_ServiceEndpoint :: string
  dc_TrustRootFile :: string

datatype daemon_error =
    ConfigUnreadable
  | TrustRootRequired
  | TrustRootUnreadable
  | TrustRootDecode
  | TrustRootSize nat
  | CacheFailed cache_error
  | FirewallFailed fw_error
  | VerificationPanic fw_error
  | ProxyListenFailed string
  | TLSCertFailed
  | ChannelNotImplemented
  | PreAuthorizeNotImplemented

definition defaultDaemonConfig :: DaemonConfig where
  "defaultDaemonConfig =
     \<lparr>dc_GrantCachePath = ''/var/lib/dnivio/grants.db'', dc_BackendAddr = ''127.0.0.1'', dc_BackendPort = 8080,
      dc_ProxyPort = 8443, dc_TLSEnabled = True, dc_TLSCertFile = [], dc_TLSKeyFile = [], dc_SSHEnabled = False,
      dc_SSHSocketPath = ''/var/run/dnivio/ssh.sock'', dc_MaxPendingConns = 100, dc_MaxPreApprovalBytes = 65536,
      dc_MaxAggregateMem = 268435456, dc_FirewallVerifyInterval = second,
      dc_ServiceEndpoint = ''approval.dnivio.dev:8443'', dc_TrustRootFile = []\<rparr>"

text \<open>The file is read, and not looked at.\<close>

definition loadDaemonConfig :: "(string \<Rightarrow> bytes option) \<Rightarrow> string \<Rightarrow> daemon_error + DaemonConfig" where
  "loadDaemonConfig readFile path = need (readFile path) ConfigUnreadable (\<lambda>data. Inr defaultDaemonConfig)"

definition loadTrustRoot :: "(string \<Rightarrow> bytes option) \<Rightarrow> string \<Rightarrow> daemon_error + bytes" where
  "loadTrustRoot readFile path =
     reject (path = []) TrustRootRequired (
     need (readFile path) TrustRootUnreadable (\<lambda>hexBytes.
     need (hexDecode (TrimSpace hexBytes)) TrustRootDecode (\<lambda>key.
     reject (length key \<noteq> PublicKeySize) (TrustRootSize (length key)) (
     Inr key))))"


section \<open>Callbacks\<close>

definition requestApproval :: "daemon_error approver" where
  "requestApproval req = Inl ChannelNotImplemented"

definition PreAuthorize :: "string \<Rightarrow> string \<Rightarrow> daemon_error + bool" where
  "PreAuthorize srcAddr dstAddr = Inl PreAuthorizeNotImplemented"

definition proxyApproval :: "uuid \<Rightarrow> bytes \<Rightarrow> string \<Rightarrow> string \<Rightarrow> daemon_error + bool" where
  "proxyApproval newID connID srcAddr dstAddr =
     attempt (requestApproval \<lparr>areq_RequestID = newID, areq_Principal = None, areq_Hostname = dstAddr, areq_SSHAccount = [],
        areq_Protocol = ''TCP'', areq_SessionID = connID\<rparr>) (\<lambda>e. e) (\<lambda>result. Inr (rs_Approved result))"

text \<open>What the proxy's connections meet when it calls these.\<close>

definition wiredConns :: "(nat \<Rightarrow> uuid) \<Rightarrow> (nat \<Rightarrow> conn_world) \<Rightarrow> nat \<Rightarrow> conn_world" where
  "wiredConns ids W c =
     (W c)\<lparr>cw_acl := (PreAuthorize (cw_SrcAddr (W c)) (cw_DstAddr (W c)) = Inr True),
           cw_approved := (case cw_connID (W c) of None \<Rightarrow> False
              | Some connID \<Rightarrow> proxyApproval (ids c) connID (cw_SrcAddr (W c)) (cw_DstAddr (W c)) = Inr True)\<rparr>"


section \<open>Start-up\<close>

text \<open>
  Files for configuration and trust root, the cache's files and environment, the platform, the success of
  commands, of listening on an address or socket, and of loading a certificate with its key.
\<close>

record daemon_os =
  do_readFile :: "string \<Rightarrow> bytes option"
  do_files :: files
  do_env :: call_env
  do_goos :: string
  do_run :: "command \<Rightarrow> bool"
  do_listen :: "string \<Rightarrow> bool"
  do_keyPair :: "string \<Rightarrow> string \<Rightarrow> bool"

record Daemon =
  da_cfg :: DaemonConfig
  da_cache :: Cache
  da_firewall :: fw_manager
  da_ssh :: "sessions option"
  da_proxy :: Proxy
  da_interstitial :: Handler
  da_https :: bool

definition proxyConfig :: "DaemonConfig \<Rightarrow> proxy_config" where
  "proxyConfig cfg =
     \<lparr>px_ListenAddr = '':'' @ show_int (dc_ProxyPort cfg),
      px_BackendAddr = dc_BackendAddr cfg @ '':'' @ show_int (dc_BackendPort cfg),
      px_MaxPendingConns = dc_MaxPendingConns cfg, px_MaxPreApprovalBytes = dc_MaxPreApprovalBytes cfg,
      px_MaxAggregateMem = dc_MaxAggregateMem cfg\<rparr>"

definition buildTLSConfig :: "daemon_os \<Rightarrow> DaemonConfig \<Rightarrow> daemon_error + unit" where
  "buildTLSConfig os cfg = reject (\<not> do_keyPair os (dc_TLSCertFile cfg) (dc_TLSKeyFile cfg)) TLSCertFailed (Inr ())"

text \<open>
  \<open>main\<close> once the configuration is there. The configuration is an argument so that what the rest of \<open>main\<close>
  does can be said; the only one that \<open>main\<close> itself ever passes on is the default, below, whose empty
  trust-root path ends the process. \<open>log.Fatalf\<close> ends the process without the deferred calls, so
  commands already run are not undone. The second component is the commands run.
\<close>

definition runDaemon ::
  "prims \<Rightarrow> aead \<Rightarrow> cache_codec \<Rightarrow> daemon_os \<Rightarrow> DaemonConfig \<Rightarrow> (daemon_error + Daemon) \<times> command list" where
  "runDaemon P A C os cfg =
    (case loadTrustRoot (do_readFile os) (dc_TrustRootFile cfg) of
       Inl e \<Rightarrow> (Inl e, [])
     | Inr trustRoot \<Rightarrow>
        (case fst (NewCache P A C (do_env os) (dc_GrantCachePath cfg) trustRoot (do_files os)) of
           Inl e \<Rightarrow> (Inl (CacheFailed e), [])
         | Inr cache \<Rightarrow>
            (case ApplyBackendIsolation (do_run os) (dc_BackendAddr cfg) (dc_BackendPort cfg) (dc_ProxyPort cfg)
                    (NewManager (do_goos os)) of
               (Inl e, cmds, fw) \<Rightarrow> (Inl (FirewallFailed e), cmds)
             | (Inr u, cmds, fw) \<Rightarrow>
                (attempt (StartVerification (dc_FirewallVerifyInterval cfg)) VerificationPanic (\<lambda>interval.
                 attempt (tcpproxy_Start (do_listen os) (tcpproxy_New (proxyConfig cfg))) ProxyListenFailed (\<lambda>proxy.
                 attempt (if dc_TLSEnabled cfg then buildTLSConfig os cfg else Inr ()) (\<lambda>e. e) (\<lambda>u.
                 Inr \<lparr>da_cfg = cfg, da_cache = cache, da_firewall = fw,
                      da_ssh = (if dc_SSHEnabled cfg
                                then (case ssh_Start (do_listen os) (dc_SSHSocketPath cfg) ssh_NewAuthorizer of
                                        Inl e \<Rightarrow> None | Inr a \<Rightarrow> Some a)
                                else None),
                      da_proxy = proxy, da_interstitial = NewHandler,
                      da_https = dc_TLSEnabled cfg\<rparr>))), cmds))))"

definition daemon_main ::
  "prims \<Rightarrow> aead \<Rightarrow> cache_codec \<Rightarrow> daemon_os \<Rightarrow> string \<Rightarrow> (daemon_error + Daemon) \<times> command list" where
  "daemon_main P A C os configPath =
    (case loadDaemonConfig (do_readFile os) configPath of Inl e \<Rightarrow> (Inl e, []) | Inr cfg \<Rightarrow> runDaemon P A C os cfg)"


section \<open>HTTP handlers\<close>

record http_request =
  rq_Host :: string
  rq_Method :: string
  rq_Path :: string
  rq_Cookies :: "(string \<times> string) list"

datatype http_reply =
    Redirect string
  | Response http_response

record http_world =
  hw_now :: gotime
  hw_created :: gotime
  hw_expires :: gotime
  hw_requestID :: uuid
  hw_rand1 :: bytes
  hw_rand2 :: bytes

definition forwardToBackend :: "http_request \<Rightarrow> DaemonConfig \<Rightarrow> http_reply" where
  "forwardToBackend r cfg =
     Redirect (''http://'' @ dc_BackendAddr cfg @ '':'' @ show_int (dc_BackendPort cfg) @ rq_Path r)"

definition httpKey :: "http_request \<Rightarrow> string" where
  "httpKey r = rq_Host r @ ''/'' @ rq_Method r @ ''/'' @ rq_Path r"

definition rootHandler :: "prims \<Rightarrow> (interstitialData \<Rightarrow> string) \<Rightarrow> http_world \<Rightarrow> http_request \<Rightarrow> Daemon \<Rightarrow> http_reply \<times> Daemon" where
  "rootHandler P page w r d =
    (case Check (hw_now w) (httpKey r) (da_cache d) of
       Some entry \<Rightarrow> (forwardToBackend r (da_cfg d), d)
     | None \<Rightarrow>
        (case RegisterPending P (hw_rand1 w) (hw_rand2 w) (hw_created w) (hw_expires w) (hw_requestID w) (60 * second) (da_interstitial d) of
           ((pollCap, redeemCap), h) \<Rightarrow>
             (let resp = ServeInterstitial P page (hw_requestID w) pollCap (dc_BackendAddr (da_cfg d))
              in (Response (resp\<lparr>hr_Cookies := SetRedeemCookie P (hw_requestID w) redeemCap # hr_Cookies resp\<rparr>),
                  d\<lparr>da_interstitial := h\<rparr>))))"

text \<open>A path that does not parse is looked up as the zero UUID.\<close>

definition statusHandler :: "prims \<Rightarrow> http_request \<Rightarrow> Daemon \<Rightarrow> http_reply" where
  "statusHandler P r d =
    (let rid = (case uuid_Parse P (drop (length ''/.dnivio/status/'') (rq_Path r)) of None \<Rightarrow> 0 | Some u \<Rightarrow> u)
     in Response (ServeStatus P (rq_Cookies r) rid (da_interstitial d)))"

definition serveHTTP :: "prims \<Rightarrow> (interstitialData \<Rightarrow> string) \<Rightarrow> http_world \<Rightarrow> http_request \<Rightarrow> Daemon \<Rightarrow> http_reply \<times> Daemon" where
  "serveHTTP P page w r d =
    (if take (length ''/.dnivio/status/'') (rq_Path r) = ''/.dnivio/status/'' then (statusHandler P r d, d)
     else rootHandler P page w r d)"


section \<open>The life of the daemon\<close>

text \<open>
  What happens after start-up, in the order it happens: ticks of the firewall's verification loop with
  the outcome of their command, the goroutine of the HTTPS server getting to its \<open>Listen\<close>, and the signal that
  ends \<open>main\<close> and runs the deferred calls. An address that the process already listens on cannot be
  listened on again. \<open>log.Fatalf\<close> in the goroutine ends the process without the deferred calls.
\<close>

datatype daemon_event = VerifyTick "command \<Rightarrow> bool" | HTTPSGoroutine | Interrupt

datatype daemon_end = Running | HTTPSFailed | ShutDown

definition httpsListens :: "daemon_os \<Rightarrow> Daemon \<Rightarrow> bool" where
  "httpsListens os d \<longleftrightarrow>
    (let addr = '':'' @ show_int (dc_ProxyPort (da_cfg d))
     in addr \<noteq> px_ListenAddr (proxyConfig (da_cfg d)) \<and> do_listen os addr)"

fun daemonLife :: "daemon_os \<Rightarrow> daemon_event list \<Rightarrow> Daemon \<Rightarrow> daemon_end \<times> command list \<times> Daemon" where
  "daemonLife os [] d = (Running, [], d)"
| "daemonLife os (VerifyTick run # evs) d =
     (let (cmds, fw) = verify run (da_firewall d);
          (fin, cmds', d') = daemonLife os evs (d\<lparr>da_firewall := fw\<rparr>)
      in (fin, cmds @ cmds', d'))"
| "daemonLife os (HTTPSGoroutine # evs) d =
     (if da_https d \<and> \<not> httpsListens os d then (HTTPSFailed, [], d) else daemonLife os evs d)"
| "daemonLife os (Interrupt # evs) d =
     (case fw_Stop (da_firewall d) of
        (r, cmds, fw) \<Rightarrow> (ShutDown, cmds, d\<lparr>da_firewall := fw, da_proxy := snd (tcpproxy_Stop (da_proxy d))\<rparr>))"


section \<open>The daemon does not start\<close>

text \<open>
  Whatever is in its configuration file and on its disk, the daemon exits during start-up: with an
  unreadable configuration if there is none, and otherwise for lack of a trust root, since the settings
  are never read from the file and the default names no trust root. No command is run.
\<close>

theorem daemon_never_starts:
  "daemon_main P A C os path =
     (Inl (case do_readFile os path of None \<Rightarrow> ConfigUnreadable | Some data \<Rightarrow> TrustRootRequired), [])"
  by (cases "do_readFile os path")
    (simp_all add: daemon_main_def loadDaemonConfig_def runDaemon_def loadTrustRoot_def defaultDaemonConfig_def)

text \<open>With a configuration that names one, a trust root written in hexadecimal is read back.\<close>

lemma loadTrustRoot_roundtrip:
  assumes "readFile path = Some (pre @ str_bytes (hex_bytes key) @ post)" and "path \<noteq> []"
    and "length key = PublicKeySize" and "list_all asciiSpace pre" and "list_all asciiSpace post"
  shows "loadTrustRoot readFile path = Inr key"
  using assms by (simp add: loadTrustRoot_def TrimSpace_padded hex_bytes_digits hexDecode_hex)


section \<open>A running daemon lets nothing through\<close>

lemma Apply_records:
  "ApplyBackendIsolation run a p q m = (Inr u, cmds, fw) \<Longrightarrow> fm_rules fw \<noteq> []"
  by (auto simp: ApplyBackendIsolation_def Let_def linuxNftablesRules_def windowsWFPRules_def macOSPFCRules_def
      split: prod.splits if_splits)

lemma runDaemon_Inr:
  assumes "runDaemon P A C os cfg = (Inr d, cmds)"
  shows "da_proxy d = tcpproxy_New (proxyConfig cfg) \<and> fm_rules (da_firewall d) \<noteq> []"
proof -
  obtain res cmds' fw where f: "ApplyBackendIsolation (do_run os) (dc_BackendAddr cfg) (dc_BackendPort cfg) (dc_ProxyPort cfg)
      (NewManager (do_goos os)) = (res, cmds', fw)" by (metis prod_cases3)
  have "\<exists>u. res = Inr u \<and> da_proxy d = tcpproxy_New (proxyConfig cfg) \<and> da_firewall d = fw"
    using assms by (cases res) (auto simp: runDaemon_def f tcpproxy_Start_def split: sum.splits)
  with Apply_records f show ?thesis by blast
qed

lemma approves_nothing [simp]: "\<not> approves requestApproval req"
  by (simp add: approves_def requestApproval_def)

lemma wired_acl [simp]: "\<not> cw_acl (wiredConns ids W c)"
  by (simp add: wiredConns_def PreAuthorize_def)

lemma wired_phase:
  assumes "(proxy_step (wiredConns ids W))\<^sup>*\<^sup>* (tcpproxy_New cfg) p"
  shows "pr_conns p c \<in> {None, Some Accepted, Some Closed}"
proof (cases "pr_conns p c")
  case (Some ph)
  then have "phaseOK (wiredConns ids W c) ph"
    using proxyInv_reached [OF assms] unfolding proxyInv_def by blast
  with Some show ?thesis by (cases ph) simp_all
qed simp

text \<open>
  Suppose the configuration were read, and the rest of \<open>main\<close> ran with any configuration it accepts. Its
  callbacks would fail closed: in every interleaving no connection of the TCP proxy gets past the
  first check, every account check over the socket is denied and every key is withheld. The firewall
  manager has its rules on record, which it has before they are installed, and on macOS without
  installing them.
\<close>

theorem running_daemon_denies:
  assumes "runDaemon P A C os cfg = (Inr d, cmds)"
    and "(proxy_step (wiredConns ids W))\<^sup>*\<^sup>* (da_proxy d) p"
  shows "pr_conns p c \<in> {None, Some Accepted, Some Closed} \<and>
    PAMAccountCheck True (\<lambda>_. True) (served requestApproval w active) username rhost txn = Inl PamDenied \<and>
    AuthorizedKeysHelper_Execute P True (\<lambda>_. True) (served requestApproval w active) username key = Inl KeysDenied \<and>
    fm_rules (da_firewall d) \<noteq> []"
  using wired_phase [of ids W "proxyConfig cfg" p c] runDaemon_Inr [OF assms(1)] assms(2)
  by (simp add: PAMAccountCheck_def AuthorizedKeysHelper_Execute_def served_eq)


section \<open>How a daemon ends\<close>

definition isTick :: "daemon_event \<Rightarrow> bool" where
  "isTick e \<longleftrightarrow> (case e of VerifyTick run \<Rightarrow> True | _ \<Rightarrow> False)"

lemma Apply_stopped: "fm_stopped (snd (snd (ApplyBackendIsolation run a p q m))) = fm_stopped m"
  by (auto simp: ApplyBackendIsolation_def Let_def split: prod.splits)

lemma daemonLife_ticks:
  assumes "list_all isTick pre"
  shows "\<exists>cmds. daemonLife os (pre @ evs) d = (fst (daemonLife os evs d), cmds @ fst (snd (daemonLife os evs d)), snd (snd (daemonLife os evs d))) \<and>
     (\<forall>S. installedAfter S cmds = S)"
  using assms
proof (induction pre)
  case (Cons e pre)
  then obtain run where e: "e = VerifyTick run" by (auto simp: isTick_def split: daemon_event.splits)
  from Cons obtain cmds where "daemonLife os (pre @ evs) d = (fst (daemonLife os evs d), cmds @ fst (snd (daemonLife os evs d)), snd (snd (daemonLife os evs d)))"
      "\<And>S. installedAfter S cmds = S" by auto
  moreover obtain c where "verify run (da_firewall d) = (c, da_firewall d)" "\<And>S. installedAfter S c = S"
    using verify_installs_nothing by (metis prod.collapse)
  ultimately show ?case by (intro exI [of _ "c @ cmds"]) (simp add: e)
qed (simp add: exI [of _ "[]"])

lemma runDaemon_firewall:
  assumes "runDaemon P A C os cfg = (Inr d, cmds)"
  shows "da_cfg d = cfg \<and> da_https d = dc_TLSEnabled cfg \<and>
    snd (ApplyBackendIsolation (do_run os) (dc_BackendAddr cfg) (dc_BackendPort cfg) (dc_ProxyPort cfg) (NewManager (do_goos os))) =
      (cmds, da_firewall d)"
  using assms by (auto simp: runDaemon_def split: sum.splits prod.splits)

text \<open>
  A daemon with TLS does not last: its HTTPS server is to listen on the port that the TCP proxy holds, so
  whenever the goroutine gets there the process ends, and since the deferred calls do not run,
  everything the firewall commands installed stays installed.
\<close>

theorem tls_daemon_ends:
  assumes "runDaemon P A C os cfg = (Inr d, cmds)" and "dc_TLSEnabled cfg" and "list_all isTick pre"
  shows "case daemonLife os (pre @ HTTPSGoroutine # evs) d of
           (fin, cmds', d') \<Rightarrow> fin = HTTPSFailed \<and> installedAfter {} (cmds @ cmds') = installedAfter {} cmds"
proof -
  have "daemonLife os (HTTPSGoroutine # evs) d = (HTTPSFailed, [], d)"
    using runDaemon_firewall [OF assms(1)] assms(2) by (simp add: httpsListens_def proxyConfig_def Let_def)
  with daemonLife_ticks [OF assms(3), of os "HTTPSGoroutine # evs" d] show ?thesis by auto
qed

text \<open>A daemon without TLS that is interrupted removes all that its firewall commands may have installed.\<close>

theorem plain_daemon_cleans_up:
  assumes "runDaemon P A C os cfg = (Inr d, cmds)" and "list_all isTick pre"
  shows "case daemonLife os (pre @ Interrupt # evs) d of
           (fin, cmds', d') \<Rightarrow> fin = ShutDown \<and> installedAfter {} (cmds @ cmds') = {}"
proof -
  let ?op = "OpApply (do_run os) (dc_BackendAddr cfg) (dc_BackendPort cfg) (dc_ProxyPort cfg)"
  let ?m = "NewManager (do_goos os)"
  have r: "fwRun [?op] ?m = (cmds, da_firewall d)" using runDaemon_firewall [OF assms(1)] by simp
  have new: "accountedFor ?m {}" "managerOK ?m" by (simp_all add: accountedFor_def managerOK_def NewManager_def)
  have acc: "accountedFor (da_firewall d) (installedAfter {} cmds)"
    using fwRun_accounted [OF new, of "[?op]"] r by simp
  have st: "\<not> fm_stopped (da_firewall d)"
    using Apply_stopped [of "do_run os" "dc_BackendAddr cfg" "dc_BackendPort cfg" "dc_ProxyPort cfg" ?m]
      runDaemon_firewall [OF assms(1)] by (simp add: NewManager_def)
  obtain m cs where stop: "fw_Stop (da_firewall d) = (Inr (), cs, m)"
    and cs: "cs = fst (RemoveAll ((da_firewall d)\<lparr>fm_stopped := True\<rparr>))"
    using st by (cases "RemoveAll ((da_firewall d)\<lparr>fm_stopped := True\<rparr>)") (simp add: fw_Stop_def)
  have "accountedFor ((da_firewall d)\<lparr>fm_stopped := True\<rparr>) (installedAfter {} cmds)"
    using acc by (simp add: accountedFor_def cong: if_cong)
  then have "installedAfter (installedAfter {} cmds) cs = {}" unfolding cs using RemoveAll_empties by blast
  moreover have "daemonLife os (Interrupt # evs) d =
      (ShutDown, cs, d\<lparr>da_firewall := m, da_proxy := snd (tcpproxy_Stop (da_proxy d))\<rparr>)" by (simp add: stop)
  ultimately show ?thesis using daemonLife_ticks [OF assms(2), of os "Interrupt # evs" d] by auto
qed


section \<open>The HTTP handler finds no grant\<close>

lemma slash_split:
  assumes "CHR ''/'' \<notin> set a" "CHR ''/'' \<notin> set b" "a @ ''/'' @ x = b @ ''/'' @ y"
  shows "a = b \<and> x = y"
proof -
  have "takeWhile (\<lambda>c. c \<noteq> CHR ''/'') (a @ ''/'' @ x) = a" "takeWhile (\<lambda>c. c \<noteq> CHR ''/'') (b @ ''/'' @ y) = b"
    using assms(1,2) by (auto simp: takeWhile_append2 takeWhile_tail)
  then have "a = b" using assms(3) by simp
  with assms(3) show ?thesis by simp
qed

text \<open>The fields of a grant that occur first in its key.\<close>

definition plainKey :: "CacheEntry \<Rightarrow> bool" where
  "plainKey e =
    (case ce_Payload e of None \<Rightarrow> False
     | Some p \<Rightarrow> CHR ''/'' \<notin> set (oid_UserID (agt_Subject p)) \<and> agt_SrcNodeID p \<noteq> [] \<and> hd (agt_SrcNodeID p) \<noteq> CHR ''/'')"

lemma Key_neq_httpKey:
  assumes "plainKey e" "\<And>u. CHR ''/'' \<notin> set (uuid_String P u)"
    and "CHR ''/'' \<notin> set (rq_Host r)" "CHR ''/'' \<notin> set (rq_Method r)" "rq_Path r = ''/'' @ rest"
  shows "Key P e \<noteq> httpKey r"
proof
  assume eq: "Key P e = httpKey r"
  obtain p where p: "ce_Payload e = Some p" using assms(1) by (auto simp: plainKey_def split: option.splits)
  have u: "CHR ''/'' \<notin> set (oid_UserID (agt_Subject p))" "agt_SrcNodeID p \<noteq> []" "hd (agt_SrcNodeID p) \<noteq> CHR ''/''"
    using assms(1) p by (simp_all add: plainKey_def)
  let ?tail = "agt_ProtectedNodeID p @ ''/'' @ res_ServiceID (agt_Resource p) @ ''/'' @ agt_Protocol p @ ''/''
      @ agt_Scope p @ ''/'' @ show_int (agt_PolicyVersion p) @ ''/'' @ bindingIDFromPayload p"
  have "uuid_String P (agt_TenantID p) @ ''/'' @ (oid_UserID (agt_Subject p) @ ''/'' @ agt_SrcNodeID p @ ''/'' @ ?tail) =
      rq_Host r @ ''/'' @ (rq_Method r @ ''/'' @ rq_Path r)"
    using eq p by (simp add: Key_def httpKey_def)
  from slash_split [OF assms(2) assms(3) this]
  have "oid_UserID (agt_Subject p) @ ''/'' @ (agt_SrcNodeID p @ ''/'' @ ?tail) = rq_Method r @ ''/'' @ rq_Path r" by simp
  from slash_split [OF u(1) assms(4) this] assms(5) have "agt_SrcNodeID p @ ''/'' @ ?tail = ''/'' @ rest" by simp
  with u(2,3) show False by (cases "agt_SrcNodeID p") auto
qed

text \<open>
  The handler looks grants up under host, method and path, while the cache files them under tenant,
  user, source node and more. For any well-formed cache of grants whose user has no slash and whose
  source node is not empty, no request is ever forwarded to the backend: the answer is the
  interstitial page or a status, and the cache is not changed.
\<close>

theorem http_never_forwards:
  assumes "cacheInv P (da_cache d)" and "list_all (\<lambda>(k, e). plainKey e) (c_entries (da_cache d))"
    and "\<And>u. CHR ''/'' \<notin> set (uuid_String P u)"
    and "CHR ''/'' \<notin> set (rq_Host r)" and "CHR ''/'' \<notin> set (rq_Method r)" and "rq_Path r = ''/'' @ rest"
  shows "(case fst (serveHTTP P page w r d) of Redirect location \<Rightarrow> False | Response resp \<Rightarrow> hr_Code resp = 200) \<and>
    da_cache (snd (serveHTTP P page w r d)) = da_cache d"
proof -
  have "map_of (c_entries (da_cache d)) (httpKey r) = None"
  proof (rule ccontr)
    assume "map_of (c_entries (da_cache d)) (httpKey r) \<noteq> None"
    then obtain e where "(httpKey r, e) \<in> set (c_entries (da_cache d))" by (metis map_of_SomeD not_None_eq)
    moreover from this have "plainKey e" "httpKey r = Key P e"
      using assms(1,2) by (auto simp: list_all_iff cacheInv_def)
    ultimately show False using Key_neq_httpKey [OF _ assms(3-6)] by metis
  qed
  then have "Check (hw_now w) (httpKey r) (da_cache d) = None" by (simp add: Check_def)
  then show ?thesis
    by (simp add: serveHTTP_def rootHandler_def statusHandler_def ServeStatus_def statusResponse_def ServeInterstitial_def
        RegisterPending_def Let_def split: option.splits)
qed


section \<open>Witnesses\<close>

definition demo_daemon_config :: DaemonConfig where
  "demo_daemon_config = defaultDaemonConfig\<lparr>dc_GrantCachePath := ''g'', dc_TrustRootFile := ''root.hex''\<rparr>"

definition demo_daemon_os :: daemon_os where
  "demo_daemon_os =
     \<lparr>do_readFile = (\<lambda>p. Some ([32] @ str_bytes (hex_bytes (replicate 32 7)) @ [10])), do_files = demo_files,
      do_env = demo_env (150 * second), do_goos = ''linux'', do_run = (\<lambda>c. True), do_listen = (\<lambda>a. True),
      do_keyPair = (\<lambda>c k. True)\<rparr>"

definition demo_daemon :: Daemon where
  "demo_daemon =
     \<lparr>da_cfg = demo_daemon_config,
      da_cache = \<lparr>c_entries = [], c_consumedJTIs = [], c_storage = demo_storage, c_trustRoot = replicate 32 7\<rparr>,
      da_firewall = \<lparr>fm_os = OSLinux, fm_rules = linuxNftablesRules ''127.0.0.1'' 8080 8443, fm_stopped = False\<rparr>,
      da_ssh = None, da_proxy = tcpproxy_New (proxyConfig demo_daemon_config), da_interstitial = NewHandler, da_https = True\<rparr>"

lemma demo_trust_root: "loadTrustRoot (do_readFile demo_daemon_os) ''root.hex'' = Inr (replicate 32 7)"
  by (rule loadTrustRoot_roundtrip [where pre = "[32]" and post = "[10]"])
    (simp_all add: demo_daemon_os_def PublicKeySize_def asciiSpace_def)

lemma demo_new_cache:
  "fst (NewCache demo_prims demo_aead demo_cc (do_env demo_daemon_os) ''g'' (replicate 32 7) (do_files demo_daemon_os)) =
     Inr \<lparr>c_entries = [], c_consumedJTIs = [], c_storage = demo_storage, c_trustRoot = replicate 32 7\<rparr>"
  by (simp add: NewCache_def newPersistentStorage_def loadOrCreateKey_def loadGrants_def loadConsumed_def
      demo_daemon_os_def demo_storage_def demo_files_def)

lemma demo_daemon_runs: "\<exists>cmds. runDaemon demo_prims demo_aead demo_cc demo_daemon_os demo_daemon_config = (Inr demo_daemon, cmds)"
proof -
  have f: "ApplyBackendIsolation (do_run demo_daemon_os) ''127.0.0.1'' 8080 8443 (NewManager (do_goos demo_daemon_os)) =
      (Inr (), snd (installNftables (\<lambda>c. True) (linuxNftablesRules ''127.0.0.1'' 8080 8443)), da_firewall demo_daemon)"
    by (simp add: ApplyBackendIsolation_def installRules_def installNftables_def demo_daemon_os_def NewManager_def CurrentOS_def
        demo_daemon_def)
  have cfg: "dc_TrustRootFile demo_daemon_config = ''root.hex''" "dc_GrantCachePath demo_daemon_config = ''g''"
    "dc_BackendAddr demo_daemon_config = ''127.0.0.1''" "dc_BackendPort demo_daemon_config = 8080"
    "dc_ProxyPort demo_daemon_config = 8443" "dc_FirewallVerifyInterval demo_daemon_config = second"
    "dc_TLSEnabled demo_daemon_config" "\<not> dc_SSHEnabled demo_daemon_config"
    by (simp_all add: demo_daemon_config_def defaultDaemonConfig_def)
  have os: "do_listen demo_daemon_os a" "do_keyPair demo_daemon_os x y" for a x y by (simp_all add: demo_daemon_os_def)
  show ?thesis
    unfolding runDaemon_def cfg demo_trust_root
    by (simp add: demo_new_cache f cfg os StartVerification_def buildTLSConfig_def tcpproxy_Start_def second_def)
      (simp add: demo_daemon_def)
qed

theorem running_daemon_denies_witness:
  "PAMAccountCheck True (\<lambda>_. True) (served requestApproval demo_ssh_world []) ''al'' ''h1'' ''t1'' = Inl PamDenied \<and>
   pr_conns (acceptConn 0 (da_proxy demo_daemon)) 0 \<in> {None, Some Accepted, Some Closed}"
proof -
  obtain cmds where r: "runDaemon demo_prims demo_aead demo_cc demo_daemon_os demo_daemon_config = (Inr demo_daemon, cmds)"
    using demo_daemon_runs by blast
  have "(proxy_step (wiredConns (\<lambda>c. 0) demo_conns))\<^sup>*\<^sup>* (da_proxy demo_daemon) (acceptConn 0 (da_proxy demo_daemon))"
    by (intro r_into_rtranclp proxy_step.accept)
  from running_daemon_denies [OF r this, of 0 demo_ssh_world "[]" "''al''" "''h1''" "''t1''"] show ?thesis by simp
qed

definition demo_http_prims :: prims where
  "demo_http_prims = demo_prims\<lparr>uuid_String := (\<lambda>u. ''00000000-0000-0000-0000-000000000000'')\<rparr>"

definition demo_http_entry :: CacheEntry where
  "demo_http_entry = demo_entry\<lparr>ce_Payload := Some (demo_agt\<lparr>agt_SrcNodeID := ''n1'', agt_Subject := (agt_Subject demo_agt)\<lparr>oid_UserID := ''al''\<rparr>\<rparr>)\<rparr>"

definition demo_http_daemon :: Daemon where
  "demo_http_daemon = demo_daemon\<lparr>da_cache := demo_cache\<lparr>c_entries := [(Key demo_http_prims demo_http_entry, demo_http_entry)]\<rparr>\<rparr>"

theorem http_never_forwards_witness:
  "case fst (serveHTTP demo_http_prims (\<lambda>d. id_PollPath d) \<lparr>hw_now = 160 * second, hw_created = 160 * second, hw_expires = 160 * second, hw_requestID = 3, hw_rand1 = [1], hw_rand2 = [2]\<rparr>
       \<lparr>rq_Host = ''h'', rq_Method = ''GET'', rq_Path = ''/x'', rq_Cookies = []\<rparr> demo_http_daemon)
   of Redirect location \<Rightarrow> False | Response resp \<Rightarrow> hr_Code resp = 200"
proof -
  have e: "c_entries (da_cache demo_http_daemon) = [(Key demo_http_prims demo_http_entry, demo_http_entry)]"
    by (simp add: demo_http_daemon_def)
  have "cacheInv demo_http_prims (da_cache demo_http_daemon)"
    unfolding cacheInv_def e by (simp add: demo_http_entry_def)
  moreover have "list_all (\<lambda>(k, e). plainKey e) (c_entries (da_cache demo_http_daemon))"
    unfolding e by (simp add: plainKey_def demo_http_entry_def)
  ultimately show ?thesis
    using http_never_forwards [of demo_http_prims demo_http_daemon "\<lparr>rq_Host = ''h'', rq_Method = ''GET'', rq_Path = ''/x'', rq_Cookies = []\<rparr>" "''x''"
        "\<lambda>d. id_PollPath d" "\<lparr>hw_now = 160 * second, hw_created = 160 * second, hw_expires = 160 * second, hw_requestID = 3, hw_rand1 = [1], hw_rand2 = [2]\<rparr>"]
    by (simp add: demo_http_prims_def)
qed

end
