(* ===== verification/SdkClient.thy ===== *)
theory SdkClient
  imports Interstitial
begin

text \<open>
  \<open>sdk/go/client.go\<close>: the HTTP client that answers an approval challenge by polling and retrying.
  The network and the clock are arguments: what the transport answers to a request, and for each round
  of the polling loop whether the context ended, the clock reading, and what came of the poll. The HTTP
  client waits for an answer as long as its timeout lets it, which \<open>WithBaseHTTPClient\<close> may leave out: a
  poll that is never answered is one of the outcomes, and the loop then does not return.
\<close>

section \<open>The client\<close>

text \<open>\<open>http.Client\<close> as far as it is set here: the timeout, and the roots of a transport, if it has one.\<close>

record http_client =
  hc_Timeout :: duration
  hc_Transport :: "string set option option"

record Client =
  cl_httpClient :: http_client
  cl_pollInterval :: duration
  cl_maxWaitTime :: duration
  cl_trustBundle :: "string set option"

type_synonym ClientOption = "Client \<Rightarrow> Client"

definition WithPollInterval :: "duration \<Rightarrow> ClientOption" where
  "WithPollInterval d c = c\<lparr>cl_pollInterval := d\<rparr>"

definition WithMaxWaitTime :: "duration \<Rightarrow> ClientOption" where
  "WithMaxWaitTime d c = c\<lparr>cl_maxWaitTime := d\<rparr>"

definition WithTrustBundle :: "string set \<Rightarrow> ClientOption" where
  "WithTrustBundle pool c = c\<lparr>cl_trustBundle := Some pool\<rparr>"

definition WithBaseHTTPClient :: "http_client \<Rightarrow> ClientOption" where
  "WithBaseHTTPClient client c = c\<lparr>cl_httpClient := client\<rparr>"

definition NewClient :: "ClientOption list \<Rightarrow> Client" where
  "NewClient opts =
    (let c = fold (\<lambda>opt c. opt c) opts
           \<lparr>cl_httpClient = \<lparr>hc_Timeout = 30 * second, hc_Transport = None\<rparr>, cl_pollInterval = 2 * second,
            cl_maxWaitTime = 60 * second, cl_trustBundle = None\<rparr>
     in case cl_trustBundle c of
          None \<Rightarrow> c
        | Some pool \<Rightarrow>
            if hc_Transport (cl_httpClient c) = None
            then c\<lparr>cl_httpClient := (cl_httpClient c)\<lparr>hc_Transport := Some (Some pool)\<rparr>\<rparr> else c)"


section \<open>Helpers\<close>

text \<open>\<open>strings.Contains\<close>.\<close>

fun strContains :: "string \<Rightarrow> string \<Rightarrow> bool" where
  "strContains [] t = (t = [])"
| "strContains (c # s) t = (take (length t) (c # s) = t \<or> strContains s t)"

lemma strContains_iff: "strContains s t \<longleftrightarrow> (\<exists>pre post. s = pre @ t @ post)"
proof (induction s)
  case (Cons c s)
  show ?case
  proof
    assume "strContains (c # s) t"
    then consider "take (length t) (c # s) = t" | "strContains s t" by auto
    then show "\<exists>pre post. c # s = pre @ t @ post"
    proof cases
      case 1
      then have "c # s = [] @ t @ drop (length t) (c # s)" by (metis append_Nil append_take_drop_id)
      then show ?thesis by blast
    next
      case 2
      with Cons obtain pre post where "s = pre @ t @ post" by blast
      then have "c # s = (c # pre) @ t @ post" by simp
      then show ?thesis by blast
    qed
  next
    assume "\<exists>pre post. c # s = pre @ t @ post"
    then obtain pre post where e: "c # s = pre @ t @ post" by blast
    show "strContains (c # s) t"
    proof (cases pre)
      case Nil
      with e have "take (length t) (c # s) = t" by simp
      then show ?thesis by simp
    next
      case (Cons x pre')
      with e have "\<exists>pre post. s = pre @ t @ post" by auto
      with \<open>strContains s t \<longleftrightarrow> (\<exists>pre post. s = pre @ t @ post)\<close> show ?thesis by simp
    qed
  qed
qed simp

abbreviation quoted :: "string \<Rightarrow> string" where
  "quoted s \<equiv> [CHR 0x22] @ s @ [CHR 0x22]"

definition parseStatusResponse :: "string \<Rightarrow> string" where
  "parseStatusResponse s =
    (if strContains s (quoted ''APPROVED'') then ''APPROVED''
     else if strContains s (quoted ''DENIED'') then ''DENIED''
     else if strContains s (quoted ''EXPIRED'') then ''EXPIRED''
     else ''PENDING'')"

text \<open>A value that is not there reads as the empty string, as \<open>Header.Get\<close> and \<open>extractCookie\<close> have it.\<close>

definition lookupText :: "(string \<times> string) list \<Rightarrow> string \<Rightarrow> string" where
  "lookupText kvs k = (case map_of kvs k of None \<Rightarrow> [] | Some v \<Rightarrow> v)"

record certificate =
  ct_DNSNames :: "string list"
  ct_URIs :: "string list"

datatype cert_error = NilCertificate | NodeIDMismatch

definition VerifyDaemonCertificate :: "certificate option \<Rightarrow> string \<Rightarrow> cert_error + unit" where
  "VerifyDaemonCertificate cert expectedNodeID =
     need cert NilCertificate (\<lambda>c.
     if list_ex (\<lambda>san. san = expectedNodeID) (ct_DNSNames c) then Inr ()
     else if list_ex (\<lambda>uri. strContains uri expectedNodeID) (ct_URIs c) then Inr ()
     else Inl NodeIDMismatch)"


section \<open>Requests and responses\<close>

text \<open>A URL as far as it is touched here: scheme and host, the path, the query.\<close>

record url =
  ur_Base :: string
  ur_Path :: string
  ur_Query :: string

record sdk_request =
  sq_Method :: string
  sq_URL :: url
  sq_Body :: "string option"
  sq_GetBody :: bool
  sq_Cookies :: "(string \<times> string) list"

record sdk_response =
  sp_Code :: int
  sp_Header :: "(string \<times> string) list"
  sp_Cookies :: "(string \<times> string) list"
  sp_Body :: string


section \<open>Polling\<close>

text \<open>
  What comes of a poll: the call never returns, it ends in an error, or a body was read. A round: whether
  the context ended, the clock, and what comes of the poll, if one is sent.
\<close>

datatype poll_answer = PollBlocks | PollNetworkError | PollBody string

record poll_event =
  pe_cancelled :: bool
  pe_now :: gotime
  pe_answer :: "sdk_request \<Rightarrow> poll_answer"

datatype poll_error =
    PollContext
  | PollTimedOut
  | PollRefused string
  | PollURL
  | TickerPanic

text \<open>
  One round per tick, until a decision, the deadline or the end of the context; \<open>None\<close> is a loop that
  does not return.
\<close>

partial_function (option) pollLoop :: "sdk_request \<Rightarrow> (nat \<Rightarrow> poll_event) \<Rightarrow> gotime \<Rightarrow> nat \<Rightarrow> (poll_error + bool) option" where
  "pollLoop pollReq W deadline k =
    (if pe_cancelled (W k) then Some (Inl PollContext)
     else if pe_now (W k) > deadline then Some (Inl PollTimedOut)
     else case pe_answer (W k) pollReq of
        PollBlocks \<Rightarrow> None
      | PollNetworkError \<Rightarrow> pollLoop pollReq W deadline (Suc k)
      | PollBody body \<Rightarrow>
          if parseStatusResponse body = ''APPROVED'' then Some (Inr True)
          else if parseStatusResponse body = ''DENIED'' then Some (Inl (PollRefused ''denied''))
          else if parseStatusResponse body = ''EXPIRED'' then Some (Inl (PollRefused ''expired''))
          else pollLoop pollReq W deadline (Suc k))"

text \<open>The poll goes to the path of the status URL on the request's host, with the poll capability. \<open>start\<close> is the clock at the call, \<open>urlOK\<close> whether the status URL is accepted; \<open>NewTicker\<close> panics on an interval that is not positive.\<close>

definition pollRequest :: "url \<Rightarrow> string \<Rightarrow> string \<Rightarrow> sdk_request" where
  "pollRequest baseURL pollPath pollCap =
     \<lparr>sq_Method = ''GET'', sq_URL = baseURL\<lparr>ur_Path := pollPath\<rparr>, sq_Body = None, sq_GetBody = False,
      sq_Cookies = [(''__Host-dnivio-poll'', pollCap)]\<rparr>"

definition pollForApproval ::
  "Client \<Rightarrow> bool \<Rightarrow> gotime \<Rightarrow> (nat \<Rightarrow> poll_event) \<Rightarrow> url \<Rightarrow> string \<Rightarrow> string \<Rightarrow> (poll_error + bool) option" where
  "pollForApproval c urlOK start W baseURL pollPath pollCap =
    (if \<not> urlOK then Some (Inl PollURL)
     else if cl_pollInterval c \<le> 0 then Some (Inl TickerPanic)
     else pollLoop (pollRequest baseURL pollPath pollCap) W (start + cl_maxWaitTime c) 0)"


section \<open>Requests\<close>

datatype do_error =
    ReadBodyFailed
  | RequestFailed
  | NoStatusURL
  | NoPollCapability
  | PollFailed poll_error
  | NotApproved
  | RetryFailed

text \<open>
  What a call meets: whether its body can be read, the transport, and the polling. A request's body and what its
  \<open>GetBody\<close> returns are the same text.
\<close>

record do_world =
  dw_bodyOK :: bool
  dw_send :: "sdk_request \<Rightarrow> sdk_response option"
  dw_resend :: "sdk_request \<Rightarrow> sdk_response option"
  dw_urlOK :: bool
  dw_start :: gotime
  dw_polls :: "nat \<Rightarrow> poll_event"

definition retryRequest :: "sdk_request \<Rightarrow> string \<Rightarrow> string \<Rightarrow> sdk_request" where
  "retryRequest req redeemPath redeemCap =
    (if redeemPath \<noteq> [] \<and> redeemCap \<noteq> []
     then req\<lparr>sq_Cookies := sq_Cookies req @ [(''__Host-dnivio-redeem'', redeemCap)]\<rparr> else req)"

text \<open>
  The requests sent are part of the result, in order: the first one, and the retry if there is one.
  \<open>None\<close> stands for a call that never returns.
\<close>

definition handleChallenge ::
  "Client \<Rightarrow> do_world \<Rightarrow> sdk_request \<Rightarrow> sdk_response \<Rightarrow> ((do_error + sdk_response) \<times> sdk_request list) option" where
  "handleChallenge c w req challengeResp =
    (let statusURL = lookupText (sp_Header challengeResp) ''X-Dnivio-Status-URL'';
         redeemPath = lookupText (sp_Header challengeResp) ''X-Dnivio-Redeem-Path'';
         pollCap = lookupText (sp_Cookies challengeResp) ''__Host-dnivio-poll'';
         redeemCap = lookupText (sp_Cookies challengeResp) ''__Host-dnivio-redeem''
     in if statusURL = [] then Some (Inl NoStatusURL, [])
        else if pollCap = [] then Some (Inl NoPollCapability, [])
        else case pollForApproval c (dw_urlOK w) (dw_start w) (dw_polls w) (sq_URL req) statusURL pollCap of
           None \<Rightarrow> None
         | Some (Inl e) \<Rightarrow> Some (Inl (PollFailed e), [])
         | Some (Inr approved) \<Rightarrow>
             if \<not> approved then Some (Inl NotApproved, [])
             else (let retryReq = retryRequest req redeemPath redeemCap
                   in Some (case dw_resend w retryReq of None \<Rightarrow> Inl RetryFailed | Some resp \<Rightarrow> Inr resp, [retryReq])))"

text \<open>A body that cannot be had again is read into a buffer from which it can.\<close>

definition buffered :: "sdk_request \<Rightarrow> sdk_request" where
  "buffered req = (if sq_Body req \<noteq> None \<and> \<not> sq_GetBody req then req\<lparr>sq_GetBody := True\<rparr> else req)"

definition Do :: "Client \<Rightarrow> do_world \<Rightarrow> sdk_request \<Rightarrow> ((do_error + sdk_response) \<times> sdk_request list) option" where
  "Do c w req =
    (if sq_Body req \<noteq> None \<and> \<not> sq_GetBody req \<and> \<not> dw_bodyOK w then Some (Inl ReadBodyFailed, [])
     else
      (let req1 = buffered req in
       case dw_send w req1 of
         None \<Rightarrow> Some (Inl RequestFailed, [req1])
       | Some resp \<Rightarrow>
           if sp_Code resp = 401 \<and> lookupText (sp_Header resp) ''X-Dnivio-Challenge'' \<noteq> []
           then map_option (\<lambda>(res, sent). (res, req1 # sent)) (handleChallenge c w req1 resp)
           else Some (Inr resp, [req1])))"

definition DoIdempotent :: "Client \<Rightarrow> do_world \<Rightarrow> sdk_request \<Rightarrow> ((do_error + sdk_response) \<times> sdk_request list) option" where
  "DoIdempotent c w req = Do c w req"


section \<open>Polling ends\<close>

text \<open>The status that a poll read, if it read one.\<close>

fun readStatus :: "poll_answer \<Rightarrow> string option" where
  "readStatus (PollBody body) = Some (parseStatusResponse body)"
| "readStatus _ = None"

lemma pollLoop_unfold:
  "pollLoop r0 W deadline k =
    (if pe_cancelled (W k) then Some (Inl PollContext)
     else if pe_now (W k) > deadline then Some (Inl PollTimedOut)
     else if pe_answer (W k) r0 = PollBlocks then None
     else case readStatus (pe_answer (W k) r0) of
        Some st \<Rightarrow>
          if st = ''APPROVED'' then Some (Inr True)
          else if st = ''DENIED'' then Some (Inl (PollRefused ''denied''))
          else if st = ''EXPIRED'' then Some (Inl (PollRefused ''expired''))
          else pollLoop r0 W deadline (Suc k)
      | None \<Rightarrow> pollLoop r0 W deadline (Suc k))"
  by (subst pollLoop.simps) (simp split: poll_answer.splits)

text \<open>Two schedules that agree on the clock and the context up to a round past the deadline, and on the polls before it.\<close>

definition agreeUntil :: "nat \<Rightarrow> (nat \<Rightarrow> poll_event) \<Rightarrow> (nat \<Rightarrow> poll_event) \<Rightarrow> bool" where
  "agreeUntil N W W' \<longleftrightarrow>
     (\<forall>k \<le> N. pe_cancelled (W' k) = pe_cancelled (W k) \<and> pe_now (W' k) = pe_now (W k)) \<and>
     (\<forall>k < N. pe_answer (W' k) = pe_answer (W k))"

lemma pollLoop_returns:
  assumes "pe_now (W N) > deadline" and "\<And>k. k < N \<Longrightarrow> pe_answer (W k) r0 \<noteq> PollBlocks" and "k \<le> N"
  shows "\<exists>r. pollLoop r0 W deadline k = Some r"
  using assms(3)
proof (induction k rule: inc_induct)
  case base
  then show ?case using assms(1) by (subst pollLoop_unfold) simp
next
  case (step k)
  then show ?case using assms(2) [of k] by (subst pollLoop_unfold) (auto split: option.splits)
qed

lemma pollLoop_agree:
  assumes "pe_now (W N) > deadline" and "agreeUntil N W W'" and "k \<le> N"
  shows "pollLoop r0 W' deadline k = pollLoop r0 W deadline k"
  using assms(3)
proof (induction k rule: inc_induct)
  case base
  have "pe_cancelled (W' N) = pe_cancelled (W N)" "pe_now (W' N) = pe_now (W N)" using assms(2) by (simp_all add: agreeUntil_def)
  then show ?case using assms(1) by (simp add: pollLoop_unfold [of r0 _ _ N])
next
  case (step k)
  have "pe_cancelled (W' k) = pe_cancelled (W k)" "pe_now (W' k) = pe_now (W k)" "pe_answer (W' k) = pe_answer (W k)"
    using assms(2) step(2) by (simp_all add: agreeUntil_def)
  with step(3) show ?case by (simp add: pollLoop_unfold [of r0 _ _ k] split: option.splits)
qed

lemma ticks_pass_deadline:
  fixes d m now start :: int
  assumes "0 < d" and "now \<ge> start + (int (nat (m div d)) + 1) * d"
  shows "now > start + m"
proof -
  have "m div d * d + m mod d = m" "m mod d < d" using assms(1) by simp_all
  then have "m < (m div d + 1) * d" unfolding distrib_right by linarith
  also have "\<dots> \<le> (int (nat (m div d)) + 1) * d" using assms(1) by (intro mult_right_mono) simp_all
  finally show ?thesis using assms(2) by simp
qed

text \<open>
  C31: Polling is bounded: with a positive interval, if the tick of round \<open>k\<close> does not come before \<open>k + 1\<close>
  intervals have passed, as a ticker guarantees, and each of the first \<open>maxWaitTime div pollInterval\<close> polls
  comes back with an answer or an error, then \<open>pollForApproval\<close> returns; and it sends no further poll: its
  result is settled by these polls and by the clock and the context up to the round after them,
  whatever a server would have answered later.
\<close>

theorem pollForApproval_terminates:
  assumes "0 < cl_pollInterval c" and "\<And>k. pe_now (W k) \<ge> start + (int k + 1) * cl_pollInterval c"
    and "\<And>k. k < nat (cl_maxWaitTime c div cl_pollInterval c) \<Longrightarrow>
       pe_answer (W k) (pollRequest baseURL pollPath pollCap) \<noteq> PollBlocks"
  shows "\<exists>r. pollForApproval c urlOK start W baseURL pollPath pollCap = Some r \<and>
     (\<forall>W'. agreeUntil (nat (cl_maxWaitTime c div cl_pollInterval c)) W W' \<longrightarrow>
        pollForApproval c urlOK start W' baseURL pollPath pollCap = Some r)"
proof -
  let ?n = "nat (cl_maxWaitTime c div cl_pollInterval c)" and ?r = "pollRequest baseURL pollPath pollCap"
  have past: "pe_now (W ?n) > start + cl_maxWaitTime c"
    by (rule ticks_pass_deadline [OF assms(1,2)])
  obtain r where "pollLoop ?r W (start + cl_maxWaitTime c) 0 = Some r"
    using pollLoop_returns [of "start + cl_maxWaitTime c" W ?n ?r 0] past assms(3) by auto
  then show ?thesis using pollLoop_agree [of "start + cl_maxWaitTime c" W ?n _ 0 ?r] past by (auto simp: pollForApproval_def)
qed


section \<open>Retries\<close>





section \<open>Polling the daemon's status endpoint\<close>

text \<open>
  What the client reads off the daemon's status page for the holder of the poll capability is the
  status of the request, with one exception: a request already redeemed is \<open>GRANTED\<close>, which the client
  does not know and takes for pending.
\<close>

theorem status_poll_roundtrip:
  assumes "map_of h (uuid_String P rid) = Some req" and "pq_PollCapHash req = sha256 P (str_bytes cap)"
    and "pq_Status req \<in> {''PENDING'', ''APPROVED'', ''DENIED'', ''EXPIRED'', ''GRANTED''}"
  shows "parseStatusResponse (hr_Body (ServeStatus P [(''__Host-dnivio-poll'', cap)] rid h)) =
    (if pq_Status req = ''GRANTED'' then ''PENDING'' else pq_Status req)"
  using assms by (auto simp: ServeStatus_def statusResponse_def parseStatusResponse_def)


section \<open>The certificate check\<close>

text \<open>
  The check accepts exactly the certificates that have the identifier as a DNS name or anywhere inside
  a URI, so a certificate for a node whose identifier extends the expected one passes.
\<close>

theorem VerifyDaemonCertificate_iff:
  "VerifyDaemonCertificate (Some cert) node = Inr () \<longleftrightarrow>
     node \<in> set (ct_DNSNames cert) \<or> (\<exists>uri pre post. uri \<in> set (ct_URIs cert) \<and> uri = pre @ node @ post)"
  by (auto simp: VerifyDaemonCertificate_def list_ex_iff strContains_iff)


section \<open>Witnesses\<close>

definition demo_client :: Client where
  "demo_client = NewClient [WithPollInterval second, WithMaxWaitTime (2 * second)]"

lemma demo_client_sel [simp]: "cl_pollInterval demo_client = second" "cl_maxWaitTime demo_client = 2 * second"
  by (simp_all add: demo_client_def NewClient_def WithPollInterval_def WithMaxWaitTime_def)

definition demo_polls :: "nat \<Rightarrow> poll_event" where
  "demo_polls k = \<lparr>pe_cancelled = False, pe_now = (int k + 1) * second,
     pe_answer = (\<lambda>r. if k = 0 then PollNetworkError else PollBody (hr_Body (statusResponse ''APPROVED'')))\<rparr>"

definition demo_url :: url where
  "demo_url = \<lparr>ur_Base = ''https://h'', ur_Path = ''/x'', ur_Query = []\<rparr>"

theorem pollForApproval_terminates_witness:
  "\<exists>r. pollForApproval demo_client True 0 demo_polls demo_url ''/s'' ''p'' = Some r"
proof -
  have "pe_answer (demo_polls k) r \<noteq> PollBlocks" for k r by (simp add: demo_polls_def)
  with pollForApproval_terminates [of demo_client 0 demo_polls demo_url "''/s''" "''p''" True] show ?thesis
    by (auto simp: demo_polls_def second_def)
qed






definition demo_pending :: PendingRequest where
  "demo_pending = \<lparr>pq_RequestID = 7, pq_PollCap = ''c'', pq_PollCapHash = str_bytes ''c'', pq_RedeemCap = [],
     pq_RedeemCapHash = [], pq_Status = ''DENIED'', pq_CreatedAt = 0, pq_ExpiresAt = 9, pq_ApprovedGrantJTI = None\<rparr>"

lemma demo_pending_sel: "pq_Status demo_pending = ''DENIED''" "pq_PollCapHash demo_pending = str_bytes ''c''"
  by (simp_all add: demo_pending_def)

theorem status_poll_roundtrip_witness:
  "parseStatusResponse (hr_Body (ServeStatus demo_prims [(''__Host-dnivio-poll'', ''c'')] 7
     [(uuid_String demo_prims 7, demo_pending)])) = ''DENIED''"
  using status_poll_roundtrip [of "[(uuid_String demo_prims 7, demo_pending)]" demo_prims 7 demo_pending "''c''"]
  by (simp add: demo_pending_sel)

end
