(* ===== verification/Spec2Isabelle.thy ===== *)
theory Spec2Isabelle
  imports EndToEnd ApprovalSpec Delivery Policy Revocation Rbac Enrollment RateLimit Observability DaemonMain SdkClient
begin

text \<open>
  A verification development for tsauth (Dnivio): step-up approval for resources on a tailnet. A
  daemon beside a protected resource holds an access attempt; the Approval Service asks the user's
  enrolled device; the device answers with a response signed by a key that needs a biometric; the
  service mints a signed access grant; the daemon verifies the grant, spends it once and lets the
  attempt through. The development models the Go code of the service, the daemon, the shared
  contracts and the Go client, and the part of the SQL schema that this code relies on.

  \<^bold>\<open>How programs are modelled.\<close> A Go struct is a record, an enumeration of strings is a group of string
  constants, a Go map is a map or, where the order or the writing to disk matters, an association list.
  A fallible function returns \<open>error + value\<close> with a datatype of errors per package, so that every early
  return is a branch. A method that changes its receiver takes and returns it. \<open>int64\<close> arithmetic that can
  overflow goes through \<open>wrap64\<close>, an \<open>atomic.Int32\<close> through \<open>wrap32\<close>; times are nanoseconds as integers, UUIDs 128-bit words, bytes 8-bit words.
  What a call meets from outside is an argument: the clock, the random source, the disk, and for SQL the
  failure of any statement by its label and of the commit, including a commit, or a statement outside a
  transaction, that took effect although the reply was lost. A database handler is a function on a transaction that \<open>runTx\<close> (theory \<open>Database\<close>)
  commits or rolls back; of a value returned beside the error of a commit only the error is kept, and times
  are exact where PostgreSQL keeps microseconds. Loops are structural recursion, except the client's polling
  loop, a \<open>partial_function\<close> that has no value when a poll blocks for ever and is proved to return when the
  polls do. No definition uses fuel.

  \<^bold>\<open>Parameters.\<close> Code that is not in the repository is an argument of the definitions: \<open>prims\<close> holds
  SHA-256, Ed25519 and the UUID package; \<open>cose_codec\<close>, \<open>env_codec\<close>, \<open>cache_codec\<close>, \<open>policy_codec\<close> the CBOR and
  JSON libraries at the types used; \<open>aead\<close> the authenticated cipher; \<open>pg\<close> what of PostgreSQL depends on its
  release (which bytes are JSON, how a time prints). Theorems that need a law of these name it as an
  hypothesis (a signature made with a key verifies under its public key; what is marshalled is read back),
  and their witnesses use concrete instances: \<open>demo_prims\<close>, and \<open>wire_codec\<close> of theory \<open>WireCodec\<close>, which
  keeps the round-trip law with an actual encoding.

  \<^bold>\<open>Theories.\<close>
  \<^item> \<open>Prelude\<close>: base types, encodings of integers and text, the combinators \<open>need\<close>, \<open>reject\<close>, \<open>attempt\<close>.
  \<^item> \<open>Identity\<close> (\<open>contracts/identity.go\<close>), \<open>Cose\<close> (\<open>contracts/cose/cose.go\<close>), \<open>Envelope\<close>
    (\<open>contracts/envelope.go\<close>): the vocabulary, COSE messages, the three signed messages. Exactly which bytes
    each verifier accepts, and round trips from builder to verifier.
  \<^item> \<open>Database\<close> (\<open>service/migrations/001_initial_schema.up.sql\<close>): the tables with their constraints, the
    functions \<open>transition_approval_request\<close>, \<open>consume_grant\<close>, \<open>advance_device_counter\<close>, \<open>insert_audit_event\<close> and the
    lifetime trigger, transactions with faults.
  \<^item> \<open>AuditChain\<close> (\<open>audit/chain.go\<close>) and \<open>Messaging\<close> (\<open>messaging/outbox.go\<close>): the audit log and the outbox;
    numbers without gaps, fencing of leases, acknowledgement once. \<open>Delivery\<close>: the mailbox of a consumer as an
    abstract object, the proof that the engine, the revocations and the streams together implement it, and
    how a successor resumes after a crash.
  \<^item> \<open>Enforcement\<close> (\<open>enforcement/engine.go\<close>): every handler of the approval engine. \<open>ApprovalFlow\<close>: the engine as
    a step relation, its invariant, what a decision needs, finality, no replay. \<open>ApprovalSuccess\<close>: what
    becomes of a valid decision. \<open>ApprovalSpec\<close>: an abstract protocol of five rules and the proof that the engine
    refines it.
  \<^item> \<open>Policy\<close> (\<open>policy/engine.go\<close>), \<open>Revocation\<close> (\<open>revocation/manager.go\<close>), \<open>KeyManager\<close>
    (\<open>crypto/keymanager.go\<close>), \<open>Rbac\<close> (\<open>auth/rbac.go\<close>), \<open>Enrollment\<close> (\<open>enrollment/oidc.go\<close>), \<open>RateLimit\<close>
    (\<open>ratelimit/limiter.go\<close>), \<open>Observability\<close> (\<open>observability/metrics.go\<close>): the other parts of the service.
  \<^item> \<open>ServiceMain\<close> (\<open>config/config.go\<close>, \<open>cmd/approval-service/main.go\<close>): configuration, start-up, the adapters
    that join key manager and engine, the routes of the servers and the life of the process; the grants of
    the wired engine verify.
  \<^item> \<open>GrantCache\<close> (\<open>daemon/internal/grants/cache.go\<close>): the daemon's cache with its encrypted files.
    \<open>GrantConsumption\<close>: single use at the service over all its handlers, and what the cache releases with each
    callback there is in the code. \<open>EndToEnd\<close>: a token's way from the service's signer through the cache. No code of the
    repository joins a daemon's consumption to the service's, and no theorem pretends it does.
  \<^item> \<open>Interstitial\<close>, \<open>TcpProxy\<close>, \<open>Ssh\<close>, \<open>Firewall\<close> (\<open>daemon/internal\<close>): the browser page, the holding proxy as
    interleaved connections, the SSH hooks with the scanner of their socket, the commands of the firewall.
    \<open>DaemonMain\<close> (\<open>daemon/cmd/dnv-daemon/main.go\<close>) wires them and follows the process to its end.
  \<^item> \<open>SdkClient\<close> (\<open>sdk/go/client.go\<close>): the HTTP client.

  \<^bold>\<open>Interfaces.\<close> What one component expects of another is a locale, interpreted where the provider is:
  \<open>remote_consumption\<close> (cache on service; interpreted on the SQL function, the service's handler and the
  callback of \<open>main\<close>), \<open>signing_backend\<close> (key manager on signer; in-memory signer), \<open>rule_sorter\<close> (evaluation on
  sorting; a stable sort), \<open>bucket_store\<close> and its extension \<open>limiting_store\<close> (limiter on store; no-op and
  in-memory store), \<open>faithful_signer\<close> (engine on signing adapter; the wired adapter), \<open>mail_property\<close> (what
  the streams need of every handler that posts messages; the progress of the mailboxes).

  \<^bold>\<open>What is shown.\<close> For the engine: a decision needs a pending request, a response under the enrolled key
  for it and a fresh counter; one grant per request, with a capped lifetime, exactly for granted requests;
  decided requests are final; responses are not replayed; valid denials are recorded and valid approvals
  granted, the latter only where PostgreSQL takes an empty string as \<open>jsonb\<close>; all runs refine the
  protocol. Between service and daemon: grants of the wired service verify at the daemon, no grant is consumed
  twice at the service or released twice by a cache, a release is the remote callback's answer, and the first
  consumption survives a restart that follows it directly. Messages are neither lost nor
  acknowledged twice, and delivery resumes where it stopped. For the rest: policy decides by priority and fails closed,
  revocations take effect and reach a daemon that polls, roles cannot be escalated, tickets and tokens work
  once, rates are bounded, connections are spliced only when approved, the client retries only when approved
  and stops polling. Theorems that are about defects say what the code does instead of what it should, or
  where it departs from the requirements (DR-...) of \<open>ENGINEERING.md\<close>, e.g. \<open>revoked_device_approves\<close> below: an approval by a device whose revocation
  succeeded is still granted.

  \<^bold>\<open>Not modelled.\<close> Network and process I/O: accepting, the copying of bytes between spliced connections,
  the transport below the HTTP and gRPC handlers. Locks:
  a method is one step, except in \<open>TcpProxy\<close>, where the source leaves the lock-free steps of a connection to
  interleave, and in the signing adapters, which take the key and the signature at two moments. Of the
  schema: row-level security (no Go code sets the tenant variable it reads), indexes, database roles.
  The generic text of error messages. Types the code declares and never uses: \<open>AuditRecord\<close>, \<open>messaging.Envelope\<close>,
  \<open>LogEvent\<close>, \<open>Alert\<close>; and \<open>SLOMetrics\<close>, which \<open>RecordSLO\<close> takes and drops. The Android application, protobuf definitions, documents and tests
  are not Go implementation code.
\<close>

section \<open>Revoked devices\<close>

lemma RevokeDevice_frame:
  assumes "RevokeDevice P G env T D why s = (Inr (), s')"
  shows "\<exists>vs. s' = s\<lparr>devices := updateWhere (\<lambda>d. dv_tenant d = T \<and> dv_id d = D \<and> dv_state d = ''ENROLLED'')
       (\<lambda>d. d\<lparr>dv_state := ''REVOKED'', dv_revoked_at := Some (pgNow env)\<rparr>) (devices s), revocations := vs\<rparr>"
  using runTx_Inr [OF assms [unfolded RevokeDevice_def]]
  by (auto simp: issueRevocationInTx_def nextSeq_def insert_revocation_def Let_def)

text \<open>Neither the health of a call nor what makes a request approvable depends on a device's state.\<close>

lemma revoked_still_approvable:
  assumes "RevokeDevice P G env0 T D why s = (Inr (), s1)"
    and "healthy P G eng env U s" and "approvable P eng i s"
  shows "healthy P G eng env U s1" "approvable P eng i s1" "grants s1 = grants s"
proof -
  let ?Q = "\<lambda>d. dv_tenant d = T \<and> dv_id d = D \<and> dv_state d = ''ENROLLED''"
  let ?f = "\<lambda>d :: device_row. d\<lparr>dv_state := ''REVOKED'', dv_revoked_at := Some (pgNow env0)\<rparr>"
  obtain vs where s1: "s1 = s\<lparr>devices := updateWhere ?Q ?f (devices s), revocations := vs\<rparr>"
    using RevokeDevice_frame [OF assms(1)] by blast
  then show "grants s1 = grants s" by simp
  show "healthy P G eng env U s1"
    using assms(2) unfolding s1 healthy_def
    by (auto simp: auditInv_def headSeq_def findHead_def tenantEvents_def outboxInv_def queueOf_def)
  have "find (isDevice A B) (updateWhere ?Q ?f (devices s)) = map_option (\<lambda>d. if ?Q d then ?f d else d) (find (isDevice A B) (devices s))" for A B
    by (rule find_updateWhere) (simp add: isDevice_def)
  then have dev: "findDevice A B s1 = map_option (\<lambda>d. if ?Q d then ?f d else d) (findDevice A B s)" for A B
    by (simp add: findDevice_def s1)
  have "findRequest A B s1 = findRequest A B s" "userExists A B s1 = userExists A B s" "findResource A B s1 = findResource A B s"
    "nodeExists A B s1 = nodeExists A B s" for A B
    by (simp_all add: s1 findRequest_def userExists_def findResource_def nodeExists_def)
  with assms(3) dev show "approvable P eng i s1" unfolding approvable_def by force
qed

text \<open>
  A revoked device can still approve: when \<open>RevokeDevice\<close> has succeeded for a device, an approval signed with
  its approval key for a request that was approvable before is granted all the same, with a new grant,
  where PostgreSQL lets an approval be granted at all.
\<close>

theorem revoked_device_approves:
  assumes "RevokeDevice P G env0 (pa_TenantID i) (pa_DeviceID i) why s = (Inr (), s1)"
    and "healthy P G eng env (pa_TenantID i) s" and "approvable P eng i s" and "pa_Decision i = DecisionApprove"
    and "\<not> hasGrant (pa_TenantID i) (pa_RequestID i) s" and "jsonb_in G [] \<noteq> None"
  shows "\<exists>b s2 g. ProcessApproval P G eng env i s1
       = (Inr \<lparr>res_NewState = ApprovalStateGranted, res_GrantJTI = Some (newUUID env ''jti''), res_AGTBytes = b\<rparr>, s2) \<and>
     grants s2 = grants s @ [g] \<and> g_jti g = newUUID env ''jti'' \<and> g_request g = pa_RequestID i"
proof -
  note r = revoked_still_approvable [OF assms(1-3)]
  have "\<not> hasGrant (pa_TenantID i) (pa_RequestID i) s1" using assms(5) r(3) by (simp add: hasGrant_def)
  from ProcessApproval_succeeds [OF r(1,2) assms(4) this assms(6)] r(3) show ?thesis by auto
qed

theorem revoked_device_approves_witness:
  "\<exists>s1 b s2. RevokeDevice demo_prims demo_pg demo_healthy_env 1 3 ''lost'' demo_db = (Inr (), s1) \<and>
     ProcessApproval demo_prims demo_pg demo_engine demo_healthy_env (demo_decide DecisionApprove) s1
       = (Inr \<lparr>res_NewState = ApprovalStateGranted, res_GrantJTI = Some 77, res_AGTBytes = b\<rparr>, s2)"
proof -
  have "\<exists>s1. RevokeDevice demo_prims demo_pg demo_healthy_env 1 3 ''lost'' demo_db = (Inr (), s1)"
    by (simp add: RevokeDevice_def issueRevocationInTx_def issue_run_defs demo_rev_defs demo_db_def emptyDb_def del: demo_prims_sel)
  then obtain s1 where r: "RevokeDevice demo_prims demo_pg demo_healthy_env 1 3 ''lost'' demo_db = (Inr (), s1)" by blast
  have "newUUID demo_healthy_env ''jti'' = 77" by simp
  with revoked_device_approves [of demo_prims demo_pg demo_healthy_env "demo_decide DecisionApprove" "''lost''" demo_db s1 demo_engine demo_healthy_env]
    r demo_healthy demo_approvable demo_no_grant
  show ?thesis by auto
qed

end
